(* ===== verification/Wisol_Prelude.thy ===== *)
theory Wisol_Prelude
  imports Main "HOL-Library.Word"
begin

text \<open>
  Shared vocabulary of the development: the C data the driver in
  \<^verbatim>\<open>src/wisol_sigfox.c\<close> works on, and the results its operations can have.

  \<^item> A \<^verbatim>\<open>char\<close> array is a \<open>cbuf\<close>, a list of characters whose length is the
    capacity of the array. A C string inside it is what precedes the first
    \<open>NUL\<close> (\<open>c_str\<close>); an array with no \<open>NUL\<close> holds no string, and reading one
    from it runs past its end.
  \<^item> An automatic array that the code does not initialise holds whatever the
    stack held before. That content is an input of every operation: a function
    \<open>stale\<close> from stack offsets to characters, from which \<open>local_buf\<close> cuts
    the arrays of one call.
  \<^item> Undefined behaviour of the C program is a value: every operation returns
    \<open>error + 'a\<close>, with \<open>Inl\<close> naming what went wrong (\<open>error\<close>), and is
    composed with \<open>ebind\<close>.
  \<^item> Writing into an array is \<open>poke\<close>, which refuses a write that does not
    fit.

  The lemmas of this theory are the ones every component uses; the collection
  \<open>cbuf_simps\<close> holds the rewrite rules for buffers and \<open>res_simps\<close> those for
  results.
\<close>

section \<open>Types\<close>

named_theorems cbuf_simps "rewrite rules for C buffers: length, strings, writes"
named_theorems res_simps "rewrite rules for results of fallible operations"

type_synonym byte = "8 word"
type_synonym cbuf = "char list"
type_synonym stale = "nat \<Rightarrow> char"

abbreviation NUL :: char where
  "NUL \<equiv> CHR 0x00"

datatype error =
    Read_Overrun
  | Write_Overrun
  | Bad_Format
  | Int_Overflow

type_synonym 'a res = "error + 'a"

section \<open>Sequencing fallible steps\<close>

definition ebind :: "'a res \<Rightarrow> ('a \<Rightarrow> 'b res) \<Rightarrow> 'b res" where
  "ebind m f = (case m of Inl e \<Rightarrow> Inl e | Inr x \<Rightarrow> f x)"

definition is_ok :: "'a res \<Rightarrow> bool" where
  "is_ok m = (case m of Inl e \<Rightarrow> False | Inr x \<Rightarrow> True)"

lemma ebind_Inl [simp, res_simps]: "ebind (Inl e) f = Inl e"
  by (simp add: ebind_def)

lemma ebind_Inr [simp, res_simps]: "ebind (Inr x) f = f x"
  by (simp add: ebind_def)

lemma ebind_Inr_right [simp, res_simps]: "ebind m Inr = m"
  by (cases m) simp_all

lemma ebind_eq_Inr_iff [res_simps]:
  "ebind m f = Inr y \<longleftrightarrow> (\<exists>x. m = Inr x \<and> f x = Inr y)"
  by (cases m) simp_all

lemma ebind_eq_Inl_iff [res_simps]:
  "ebind m f = Inl e \<longleftrightarrow> m = Inl e \<or> (\<exists>x. m = Inr x \<and> f x = Inl e)"
  by (cases m) simp_all

lemma ebind_assoc [res_simps]:
  "ebind (ebind m f) g = ebind m (\<lambda>x. ebind (f x) g)"
  by (cases m) simp_all

lemma ebind_cong [fundef_cong]:
  "m = m' \<Longrightarrow> (\<And>x. m' = Inr x \<Longrightarrow> f x = f' x) \<Longrightarrow> ebind m f = ebind m' f'"
  by (cases m') simp_all

lemma is_ok_simps [simp, res_simps]:
  "is_ok (Inr x)" "\<not> is_ok (Inl e)"
  by (simp_all add: is_ok_def)

lemma is_ok_iff [res_simps]: "is_ok m \<longleftrightarrow> (\<exists>x. m = Inr x)"
  by (cases m) simp_all

lemma is_ok_ebind [res_simps]:
  "is_ok (ebind m f) \<longleftrightarrow> (\<exists>x. m = Inr x \<and> is_ok (f x))"
  by (cases m) simp_all

section \<open>Arrays of characters\<close>

text \<open>
  A string literal is an array holding its characters and a terminating \<open>NUL\<close>.
\<close>

definition lit :: "string \<Rightarrow> cbuf" where
  "lit s = s @ [NUL]"

text \<open>
  The automatic array of \<open>n\<close> characters that starts at offset \<open>off\<close> of the
  frame: its content before the first write is the stale content of the stack.
\<close>

definition local_buf :: "stale \<Rightarrow> nat \<Rightarrow> nat \<Rightarrow> cbuf" where
  "local_buf st off n = map st [off..<off + n]"

text \<open>
  The C string an array holds. Reading it from an array without terminator
  leaves the array.
\<close>

definition c_str :: "cbuf \<Rightarrow> string res" where
  "c_str buf = (if NUL \<in> set buf then Inr (takeWhile (\<lambda>c. c \<noteq> NUL) buf) else Inl Read_Overrun)"

text \<open>
  Writing the characters \<open>xs\<close> at index \<open>off\<close>. The array keeps its length and
  all other elements; a write that does not fit is an error.
\<close>

definition poke :: "cbuf \<Rightarrow> nat \<Rightarrow> char list \<Rightarrow> cbuf res" where
  "poke buf off xs =
     (if off + length xs \<le> length buf
      then Inr (take off buf @ xs @ drop (off + length xs) buf)
      else Inl Write_Overrun)"

section \<open>Lemmas on lists\<close>

lemma takeWhile_not_NUL_append [cbuf_simps]:
  "NUL \<notin> set s \<Longrightarrow> takeWhile (\<lambda>c. c \<noteq> NUL) (s @ NUL # r) = s"
  by (induction s) auto

lemma takeWhile_idem_set [cbuf_simps]:
  "NUL \<notin> set (takeWhile (\<lambda>c. c \<noteq> NUL) buf)"
  by (induction buf) auto

lemma length_takeWhile_less [cbuf_simps]:
  "NUL \<in> set buf \<Longrightarrow> length (takeWhile (\<lambda>c. c \<noteq> NUL) buf) < length buf"
  by (induction buf) auto

lemma split_at_NUL:
  "NUL \<in> set buf \<Longrightarrow>
   buf = takeWhile (\<lambda>c. c \<noteq> NUL) buf @ NUL # drop (Suc (length (takeWhile (\<lambda>c. c \<noteq> NUL) buf))) buf"
  by (induction buf) auto

lemma takeWhile_append_NUL [cbuf_simps]:
  "takeWhile (\<lambda>c. c \<noteq> NUL) (xs @ NUL # r) = takeWhile (\<lambda>c. c \<noteq> NUL) xs"
  by (induction xs) auto

lemma NUL_in_take [cbuf_simps]:
  "length xs < n \<Longrightarrow> NUL \<in> set (take n (xs @ NUL # r))"
  by (simp add: take_Cons')

section \<open>Lemmas on buffers\<close>

lemma length_lit [simp, cbuf_simps]: "length (lit s) = Suc (length s)"
  by (simp add: lit_def)

lemma length_local_buf [simp, cbuf_simps]: "length (local_buf st off n) = n"
  by (simp add: local_buf_def)

lemma nth_local_buf [cbuf_simps]: "i < n \<Longrightarrow> local_buf st off n ! i = st (off + i)"
  by (simp add: local_buf_def)

lemma c_str_terminated [cbuf_simps]:
  "NUL \<notin> set s \<Longrightarrow> c_str (s @ NUL # r) = Inr s"
  by (simp add: c_str_def takeWhile_not_NUL_append)

lemma c_str_append_NUL [cbuf_simps]:
  "c_str (xs @ NUL # r) = Inr (takeWhile (\<lambda>c. c \<noteq> NUL) xs)"
  by (simp add: c_str_def takeWhile_append_NUL)

lemma c_str_lit [cbuf_simps]: "NUL \<notin> set s \<Longrightarrow> c_str (lit s) = Inr s"
  by (simp add: lit_def c_str_terminated)

lemma c_str_Inr_iff [cbuf_simps]:
  "c_str buf = Inr s \<longleftrightarrow> NUL \<in> set buf \<and> s = takeWhile (\<lambda>c. c \<noteq> NUL) buf"
  by (auto simp: c_str_def)

lemma c_str_Inl_iff [cbuf_simps]:
  "c_str buf = Inl e \<longleftrightarrow> NUL \<notin> set buf \<and> e = Read_Overrun"
  by (auto simp: c_str_def)

lemma is_ok_c_str [cbuf_simps]: "is_ok (c_str buf) \<longleftrightarrow> NUL \<in> set buf"
  by (simp add: c_str_def)

lemma c_str_no_NUL: "c_str buf = Inr s \<Longrightarrow> NUL \<notin> set s"
  by (simp add: c_str_Inr_iff takeWhile_idem_set)

lemma c_str_shorter: "c_str buf = Inr s \<Longrightarrow> length s < length buf"
  by (simp add: c_str_Inr_iff length_takeWhile_less)

lemma c_str_decompose:
  "c_str buf = Inr s \<Longrightarrow> \<exists>r. buf = s @ NUL # r"
  using split_at_NUL [of buf] by (auto simp: c_str_Inr_iff)

lemma poke_Inr_iff [cbuf_simps]:
  "poke buf off xs = Inr buf' \<longleftrightarrow>
     off + length xs \<le> length buf \<and> buf' = take off buf @ xs @ drop (off + length xs) buf"
  by (auto simp: poke_def)

lemma poke_Inl_iff [cbuf_simps]:
  "poke buf off xs = Inl e \<longleftrightarrow> length buf < off + length xs \<and> e = Write_Overrun"
  by (auto simp: poke_def)

lemma is_ok_poke [cbuf_simps]: "is_ok (poke buf off xs) \<longleftrightarrow> off + length xs \<le> length buf"
  by (simp add: poke_def)

lemma poke_fits [cbuf_simps]:
  "off + length xs \<le> length buf \<Longrightarrow>
   poke buf off xs = Inr (take off buf @ xs @ drop (off + length xs) buf)"
  by (simp add: poke_def)

lemma poke_length: "poke buf off xs = Inr buf' \<Longrightarrow> length buf' = length buf"
  by (auto simp: poke_Inr_iff)

lemma poke_take: "poke buf off xs = Inr buf' \<Longrightarrow> take off buf' = take off buf"
  by (auto simp: poke_Inr_iff)

lemma poke_window:
  "poke buf off xs = Inr buf' \<Longrightarrow> take (length xs) (drop off buf') = xs"
  by (auto simp: poke_Inr_iff)

lemma poke_drop:
  "poke buf off xs = Inr buf' \<Longrightarrow> drop (off + length xs) buf' = drop (off + length xs) buf"
  by (auto simp: poke_Inr_iff)

text \<open>Two writes, the second continuing where the first one's last element was.\<close>

lemma poke_extend:
  "ys \<noteq> [] \<Longrightarrow>
   ebind (poke buf off (xs @ [c])) (\<lambda>b. poke b (off + length xs) ys) = poke buf off (xs @ ys)"
  by (cases ys) (auto simp: poke_def ac_simps)

section \<open>Lemmas on bytes\<close>

lemma unat_byte_less [simp]: "unat (b :: byte) < 256"
  using unsigned_less [of b, where ?'a = nat] by simp

lemma unat_byte_div16 [simp]: "unat (b :: byte) div 16 < 16"
  using unat_byte_less [of b] by (simp add: less_mult_imp_div_less)

lemma unat_ucast_byte [simp]: "unat (ucast (b :: byte) :: 32 word) = unat b"
proof -
  have "unat b < 2 ^ 32"
    by (rule less_trans [OF unat_byte_less]) simp
  then show ?thesis
    by (simp add: unsigned_ucast_eq take_bit_nat_eq_self)
qed

end
