(* ===== verification/C_String.thy ===== *)
theory C_String
  imports Wisol_Prelude
begin

text \<open>
  The functions of \<^verbatim>\<open><string.h>\<close> and \<^verbatim>\<open><stdlib.h>\<close> that
  \<^verbatim>\<open>src/wisol_sigfox.c\<close> calls: \<^verbatim>\<open>memset\<close>, \<^verbatim>\<open>strncpy\<close>, \<^verbatim>\<open>strncmp\<close> and \<^verbatim>\<open>atoi\<close>.
  They are not code of the repository; each is defined here from its
  description in the C standard (ISO C99, 7.20.1.2 and 7.21), over the arrays of
  \<open>Wisol_Prelude\<close>, and reports as an error what the standard leaves undefined:
  a read or a write past the end of an array, and for \<^verbatim>\<open>atoi\<close> a value that an
  \<^verbatim>\<open>int\<close> cannot hold.

  The lemmas give, for each function, when it succeeds and what it returns, in
  the form the driver's proofs use. \<open>atoi_value\<close> is the number \<^verbatim>\<open>atoi\<close> reads
  from a string; \<^verbatim>\<open>atoi\<close> of a terminated array returns it when an \<^verbatim>\<open>int\<close> can
  hold it.
\<close>

section \<open>memset\<close>

definition memset_c :: "cbuf \<Rightarrow> char \<Rightarrow> nat \<Rightarrow> cbuf res" where
  "memset_c buf c n = poke buf 0 (replicate n c)"

lemma memset_c_Inr_iff [cbuf_simps]:
  "memset_c buf c n = Inr buf' \<longleftrightarrow> n \<le> length buf \<and> buf' = replicate n c @ drop n buf"
  by (auto simp: memset_c_def poke_Inr_iff)

lemma memset_c_Inl_iff [cbuf_simps]:
  "memset_c buf c n = Inl e \<longleftrightarrow> length buf < n \<and> e = Write_Overrun"
  by (auto simp: memset_c_def poke_Inl_iff)

lemma memset_c_all [cbuf_simps]:
  "length buf = n \<Longrightarrow> memset_c buf c n = Inr (replicate n c)"
  by (simp add: memset_c_Inr_iff)

section \<open>strncpy\<close>

text \<open>
  \<open>strncpy_chars src n\<close> is what \<^verbatim>\<open>strncpy\<close> writes: the characters of \<open>src\<close> up
  to its terminator, at most \<open>n\<close> of them, then \<open>NUL\<close>s until \<open>n\<close> characters are
  written. It reads \<open>src\<close> until it has seen a \<open>NUL\<close> or \<open>n\<close> characters.
\<close>

fun strncpy_chars :: "cbuf \<Rightarrow> nat \<Rightarrow> char list res" where
  "strncpy_chars src 0 = Inr []"
| "strncpy_chars [] (Suc n) = Inl Read_Overrun"
| "strncpy_chars (c # src) (Suc n) =
     (if c = NUL then Inr (replicate (Suc n) NUL)
      else ebind (strncpy_chars src n) (\<lambda>cs. Inr (c # cs)))"

definition strncpy_c :: "cbuf \<Rightarrow> cbuf \<Rightarrow> nat \<Rightarrow> cbuf res" where
  "strncpy_c dst src n = ebind (strncpy_chars src n) (poke dst 0)"

lemma strncpy_chars_length:
  "strncpy_chars src n = Inr cs \<Longrightarrow> length cs = n"
  by (induction src n arbitrary: cs rule: strncpy_chars.induct)
     (auto simp: ebind_eq_Inr_iff split: if_splits)

lemma strncpy_chars_long:
  "n \<le> length src \<Longrightarrow>
   strncpy_chars src n =
     Inr (takeWhile (\<lambda>c. c \<noteq> NUL) (take n src)
          @ replicate (n - length (takeWhile (\<lambda>c. c \<noteq> NUL) (take n src))) NUL)"
  by (induction src n rule: strncpy_chars.induct) (auto simp: replicate_append_same)

lemma strncpy_chars_ok_iff:
  "is_ok (strncpy_chars src n) \<longleftrightarrow> n \<le> length src \<or> NUL \<in> set src"
  by (induction src n rule: strncpy_chars.induct) (auto simp: is_ok_iff ebind_eq_Inr_iff)

lemma strncpy_c_long [cbuf_simps]:
  "n \<le> length src \<Longrightarrow> n \<le> length dst \<Longrightarrow>
   strncpy_c dst src n =
     Inr (takeWhile (\<lambda>c. c \<noteq> NUL) (take n src)
          @ replicate (n - length (takeWhile (\<lambda>c. c \<noteq> NUL) (take n src))) NUL
          @ drop n dst)"
proof -
  assume src: "n \<le> length src" and dst: "n \<le> length dst"
  let ?cs = "takeWhile (\<lambda>c. c \<noteq> NUL) (take n src)"
  have "length ?cs \<le> n"
    using length_takeWhile_le [of "\<lambda>c. c \<noteq> NUL" "take n src"] by simp
  then have len: "length (?cs @ replicate (n - length ?cs) NUL) = n"
    by simp
  show ?thesis
    unfolding strncpy_c_def strncpy_chars_long [OF src] ebind_Inr
    using dst len by (simp add: poke_def)
qed

section \<open>strncmp\<close>

text \<open>
  \<^verbatim>\<open>strncmp\<close> compares at most \<open>n\<close> characters and stops after a \<open>NUL\<close>. Only the
  sign of a nonzero result is fixed by the standard; the model returns the
  difference of the first two characters that differ, read as
  \<^verbatim>\<open>unsigned char\<close>.
\<close>

fun strncmp_c :: "cbuf \<Rightarrow> cbuf \<Rightarrow> nat \<Rightarrow> int res" where
  "strncmp_c s1 s2 0 = Inr 0"
| "strncmp_c [] s2 (Suc n) = Inl Read_Overrun"
| "strncmp_c (a # s1) [] (Suc n) = Inl Read_Overrun"
| "strncmp_c (a # s1) (b # s2) (Suc n) =
     (if a \<noteq> b then Inr (int (of_char a) - int (of_char b))
      else if a = NUL then Inr 0
      else strncmp_c s1 s2 n)"

lemma of_char_eq_iff_int: "int (of_char a) - int (of_char b) = 0 \<longleftrightarrow> a = b"
  by (auto dest: injD [OF inj_of_char])

lemma of_char_eq_0_iff [simp]: "(of_char c :: nat) = 0 \<longleftrightarrow> c = NUL"
  using of_char_eq_iff [of c NUL, where ?'a = nat] by simp

lemma strncmp_c_Nil_right [simp]: "strncmp_c s [] (Suc n) = Inl Read_Overrun"
  by (cases s) simp_all

lemma strncmp_c_sym:
  "strncmp_c s1 s2 n = Inr 0 \<longleftrightarrow> strncmp_c s2 s1 n = Inr 0"
  by (induction s1 s2 n rule: strncmp_c.induct) (auto simp: of_char_eq_iff_int)

text \<open>
  Against a literal, the comparison reads the other array only as far as the
  literal reaches: it is equality of the first characters with the literal and
  its terminator.
\<close>

lemma strncmp_c_lit:
  "NUL \<notin> set s \<Longrightarrow> length s < n \<Longrightarrow> length s < length buf \<Longrightarrow>
   \<exists>r. strncmp_c (lit s) buf n = Inr r \<and> (r = 0 \<longleftrightarrow> take (Suc (length s)) buf = lit s)"
proof (induction s arbitrary: buf n)
  case Nil
  then obtain b buf' m where "buf = b # buf'" "n = Suc m"
    by (cases buf; cases n) auto
  then show ?case
    by (auto simp: lit_def of_char_eq_iff_int)
next
  case (Cons a s)
  then obtain b buf' m where buf: "buf = b # buf'" and n: "n = Suc m"
    by (cases buf; cases n) auto
  from Cons.prems buf n have "NUL \<notin> set s" "length s < m" "length s < length buf'" "a \<noteq> NUL"
    by auto
  from Cons.IH [OF this(1-3)] this(4) show ?case
    by (auto simp: buf n lit_def of_char_eq_iff_int)
qed

lemma strncmp_c_lit_eq_0:
  "NUL \<notin> set s \<Longrightarrow> length s < n \<Longrightarrow> length s < length buf \<Longrightarrow>
   strncmp_c (lit s) buf n = Inr 0 \<longleftrightarrow> take (Suc (length s)) buf = lit s"
  using strncmp_c_lit [of s n buf] by auto

lemma strncmp_c_lit_ok:
  "NUL \<notin> set s \<Longrightarrow> length s < n \<Longrightarrow> length s < length buf \<Longrightarrow>
   is_ok (strncmp_c (lit s) buf n)"
  using strncmp_c_lit [of s n buf] by auto

lemma strncmp_c_lit_right:
  "NUL \<notin> set s \<Longrightarrow> length s < n \<Longrightarrow> length s < length buf \<Longrightarrow>
   \<exists>r. strncmp_c buf (lit s) n = Inr r \<and> (r = 0 \<longleftrightarrow> take (Suc (length s)) buf = lit s)"
proof (induction s arbitrary: buf n)
  case Nil
  then obtain b buf' m where "buf = b # buf'" "n = Suc m"
    by (cases buf; cases n) auto
  then show ?case
    by (auto simp: lit_def of_char_eq_iff_int)
next
  case (Cons a s)
  then obtain b buf' m where buf: "buf = b # buf'" and n: "n = Suc m"
    by (cases buf; cases n) auto
  from Cons.prems buf n have "NUL \<notin> set s" "length s < m" "length s < length buf'" "a \<noteq> NUL"
    by auto
  from Cons.IH [OF this(1-3)] this(4) show ?case
    by (auto simp: buf n lit_def of_char_eq_iff_int)
qed

text \<open>
  When the array holds a string, equality with the literal up to the
  terminator is equality of the strings.
\<close>

lemma take_eq_lit_iff_c_str:
  "NUL \<notin> set s \<Longrightarrow> take (Suc (length s)) buf = lit s \<longleftrightarrow> c_str buf = Inr s"
proof
  assume s: "NUL \<notin> set s" and eq: "take (Suc (length s)) buf = lit s"
  have "buf = lit s @ drop (Suc (length s)) buf"
    using append_take_drop_id [of "Suc (length s)" buf] eq by simp
  then have "buf = s @ NUL # drop (Suc (length s)) buf"
    by (simp add: lit_def)
  then show "c_str buf = Inr s"
    using c_str_terminated [OF s] by metis
next
  assume "c_str buf = Inr s"
  then obtain r where "buf = s @ NUL # r"
    by (auto dest: c_str_decompose)
  then show "take (Suc (length s)) buf = lit s"
    by (simp add: lit_def)
qed

section \<open>atoi\<close>

definition isspace_c :: "char \<Rightarrow> bool" where
  "isspace_c c \<longleftrightarrow> c \<in> set [CHR '' '', CHR 0x09, CHR 0x0A, CHR 0x0B, CHR 0x0C, CHR 0x0D]"

definition isdigit_c :: "char \<Rightarrow> bool" where
  "isdigit_c c \<longleftrightarrow> (48::nat) \<le> of_char c \<and> (of_char c :: nat) \<le> 57"

definition digit_val :: "char \<Rightarrow> nat" where
  "digit_val c = of_char c - 48"

text \<open>The value of a string of decimal digits, most significant first.\<close>

definition dec_value :: "string \<Rightarrow> nat" where
  "dec_value ds = foldl (\<lambda>acc c. 10 * acc + digit_val c) 0 ds"

text \<open>
  \<^verbatim>\<open>atoi\<close> skips white space, takes a sign and the digits that follow, and stops
  at the first other character. The array must hold that character. \<open>w\<close> is the
  width of \<^verbatim>\<open>int\<close> in bits.
\<close>

definition atoi_sign :: "cbuf \<Rightarrow> bool \<times> cbuf" where
  "atoi_sign t =
     (case t of
        [] \<Rightarrow> (False, [])
      | c # r \<Rightarrow> if c = CHR ''-'' then (True, r) else if c = CHR ''+'' then (False, r) else (False, t))"

definition atoi_c :: "nat \<Rightarrow> cbuf \<Rightarrow> int res" where
  "atoi_c w buf =
     (let (neg, u) = atoi_sign (dropWhile isspace_c buf);
          ds = takeWhile isdigit_c u;
          v = (if neg then - int (dec_value ds) else int (dec_value ds))
      in if length ds = length u then Inl Read_Overrun
         else if - (2 ^ (w - 1)) \<le> v \<and> v < 2 ^ (w - 1) then Inr v
         else Inl Int_Overflow)"

lemma isdigit_c_simps [simp]:
  "\<not> isdigit_c NUL" "\<not> isdigit_c (CHR ''-'')" "\<not> isdigit_c (CHR ''+'')"
  by (simp_all add: isdigit_c_def)

lemma isspace_c_simps [simp]:
  "\<not> isspace_c NUL"
  by (simp add: isspace_c_def)

lemma isdigit_not_space: "isdigit_c c \<Longrightarrow> \<not> isspace_c c"
  by (auto simp: isdigit_c_def isspace_c_def)

lemma isdigit_not_sign: "isdigit_c c \<Longrightarrow> c \<noteq> CHR ''-'' \<and> c \<noteq> CHR ''+''"
  by (auto simp: isdigit_c_def)

lemma dec_value_snoc [simp]: "dec_value (ds @ [c]) = 10 * dec_value ds + digit_val c"
  by (simp add: dec_value_def)

lemma dec_value_Nil [simp]: "dec_value [] = 0"
  by (simp add: dec_value_def)

lemma dec_value_bound: "\<forall>c \<in> set ds. isdigit_c c \<Longrightarrow> dec_value ds < 10 ^ length ds"
proof (induction ds rule: rev_induct)
  case Nil
  then show ?case by simp
next
  case (snoc c ds)
  then have "dec_value ds < 10 ^ length ds" and "digit_val c \<le> 9"
    by (auto simp: isdigit_c_def digit_val_def)
  then show ?case by simp
qed

text \<open>
  An array that starts with digits followed by another character: \<^verbatim>\<open>atoi\<close> returns
  their value if it fits. An array that starts with a character that is no
  digit, no sign and no white space gives 0.
\<close>

lemma atoi_c_digits:
  assumes ds: "\<forall>c \<in> set ds. isdigit_c c" and ne: "ds \<noteq> []" and c: "\<not> isdigit_c c"
  shows "atoi_c w (ds @ c # r) =
           (if int (dec_value ds) < 2 ^ (w - 1) then Inr (int (dec_value ds)) else Inl Int_Overflow)"
proof -
  from ne obtain d ds' where dds: "ds = d # ds'"
    by (cases ds) auto
  with ds have d: "isdigit_c d"
    by simp
  have skip: "dropWhile isspace_c (ds @ c # r) = ds @ c # r"
    using d by (simp add: dds isdigit_not_space)
  have sign: "atoi_sign (ds @ c # r) = (False, ds @ c # r)"
    using isdigit_not_sign [OF d] by (simp add: dds atoi_sign_def)
  have tw: "takeWhile isdigit_c (ds @ c # r) = ds"
    using ds c by (simp add: takeWhile_tail)
  have "- (2 ^ (w - 1)) \<le> int (dec_value ds)"
    by (rule order_trans [of _ 0]) simp_all
  then show ?thesis
    by (simp add: atoi_c_def skip sign tw)
qed

lemma atoi_c_no_digits:
  assumes "\<not> isdigit_c c" "\<not> isspace_c c" "c \<noteq> CHR ''-''" "c \<noteq> CHR ''+''"
  shows "atoi_c w (c # r) = Inr 0"
  using assms by (simp add: atoi_c_def atoi_sign_def)

lemma atoi_c_empty [simp]: "atoi_c w (NUL # r) = Inr 0"
  by (simp add: atoi_c_no_digits)

text \<open>An array of digits only: the scan for the end of the number leaves it.\<close>

lemma atoi_c_all_digits:
  assumes "\<forall>c \<in> set ds. isdigit_c c"
  shows "atoi_c w ds = Inl Read_Overrun"
proof -
  have skip: "dropWhile isspace_c ds = ds"
    using assms by (cases ds) (auto simp: isdigit_not_space)
  have sign: "atoi_sign ds = (False, ds)"
    using assms by (cases ds) (auto simp: atoi_sign_def dest: isdigit_not_sign)
  have digits: "takeWhile isdigit_c ds = ds"
    using assms by (simp add: takeWhile_eq_all_conv)
  show ?thesis
    by (simp add: atoi_c_def skip sign digits)
qed

text \<open>
  The value \<^verbatim>\<open>atoi\<close> reads from a string: after white space and a sign, the
  digits up to the first other character. The terminator of the string is such
  a character, so \<^verbatim>\<open>atoi\<close> of a terminated array stays inside it.
\<close>

definition atoi_value :: "string \<Rightarrow> int" where
  "atoi_value s =
     (let (neg, u) = atoi_sign (dropWhile isspace_c s);
          ds = takeWhile isdigit_c u
      in if neg then - int (dec_value ds) else int (dec_value ds))"

lemma atoi_sign_append_NUL:
  "atoi_sign (u @ NUL # r) = (fst (atoi_sign u), snd (atoi_sign u) @ NUL # r)"
  by (cases u) (simp_all add: atoi_sign_def)

lemma atoi_sign_shorter: "length (snd (atoi_sign t)) \<le> length t"
  by (cases t) (simp_all add: atoi_sign_def)

lemma atoi_c_terminated:
  "atoi_c w (s @ NUL # r) =
     (if - (2 ^ (w - 1)) \<le> atoi_value s \<and> atoi_value s < 2 ^ (w - 1)
      then Inr (atoi_value s) else Inl Int_Overflow)"
proof -
  obtain neg u where u: "atoi_sign (dropWhile isspace_c s) = (neg, u)"
    by (cases "atoi_sign (dropWhile isspace_c s)")
  have "length (takeWhile isdigit_c u) \<noteq> length (u @ NUL # r)"
    using length_takeWhile_le [of isdigit_c u] by simp
  then show ?thesis
    by (simp add: atoi_c_def atoi_value_def dropWhile_append3 atoi_sign_append_NUL u
        takeWhile_tail Let_def)
qed

lemma atoi_value_bound: "\<bar>atoi_value s\<bar> < 10 ^ length s"
proof -
  obtain neg u where u: "atoi_sign (dropWhile isspace_c s) = (neg, u)"
    by (cases "atoi_sign (dropWhile isspace_c s)")
  have "length u \<le> length (dropWhile isspace_c s)"
    using atoi_sign_shorter [of "dropWhile isspace_c s"] by (simp add: u)
  also have "\<dots> \<le> length s"
    by (rule length_dropWhile_le)
  finally have "length (takeWhile isdigit_c u) \<le> length s"
    using length_takeWhile_le [of isdigit_c u] by simp
  then have "(10 :: nat) ^ length (takeWhile isdigit_c u) \<le> 10 ^ length s"
    by (intro power_increasing) simp_all
  moreover have "dec_value (takeWhile isdigit_c u) < 10 ^ length (takeWhile isdigit_c u)"
    by (rule dec_value_bound) (auto dest: set_takeWhileD)
  ultimately have "int (dec_value (takeWhile isdigit_c u)) < 10 ^ length s"
    by (metis less_le_trans of_nat_less_iff of_nat_numeral of_nat_power)
  then show ?thesis
    by (simp add: atoi_value_def u Let_def)
qed

lemma atoi_value_digits:
  assumes "\<forall>c \<in> set ds. isdigit_c c"
  shows "atoi_value ds = int (dec_value ds)"
proof -
  have skip: "dropWhile isspace_c ds = ds"
    using assms by (cases ds) (auto simp: isdigit_not_space)
  have sign: "atoi_sign ds = (False, ds)"
    using assms by (cases ds) (auto simp: atoi_sign_def dest: isdigit_not_sign)
  have digits: "takeWhile isdigit_c ds = ds"
    using assms by (simp add: takeWhile_eq_all_conv)
  show ?thesis
    by (simp add: atoi_value_def skip sign digits)
qed

lemma dec_value_append: "dec_value (xs @ ys) = dec_value xs * 10 ^ length ys + dec_value ys"
  by (induction ys rule: rev_induct) (simp_all flip: append_assoc)

end
