(* ===== verification/C_Format.thy ===== *)
theory C_Format
  imports C_String
begin

text \<open>
  The formatted output of \<^verbatim>\<open><stdio.h>\<close> as \<^verbatim>\<open>src/wisol_sigfox.c\<close> uses it:
  \<^verbatim>\<open>snprintf\<close> and \<^verbatim>\<open>sprintf\<close> with the conversions \<^verbatim>\<open>%s\<close>, \<^verbatim>\<open>%u\<close>, \<^verbatim>\<open>%c\<close>,
  \<^verbatim>\<open>%02X\<close> and \<^verbatim>\<open>%%\<close>, the ones that occur in the command table and in the
  driver's own format strings. They are defined from the C standard (ISO C99,
  7.19.6): \<open>format_c\<close> produces the characters a format and its arguments
  denote, \<open>snprintf_c\<close> and \<open>sprintf_c\<close> store them in an array.

  \<^item> A conversion with no argument left, or with an argument of the wrong kind,
    is \<open>Bad_Format\<close>, as is a conversion this theory does not know.
  \<^item> \<^verbatim>\<open>%s\<close> reads a C string from its argument, so it can fail with
    \<open>Read_Overrun\<close>.
  \<^item> \<open>snprintf_c buf n\<close> stores at most \<open>n - 1\<close> characters and a terminator,
    nothing for \<open>n = 0\<close>, and returns the untruncated length; \<open>sprintf_c\<close> stores
    everything at an offset, and overruns when the array is too small.

  Integer arguments are \<^verbatim>\<open>int\<close> or \<^verbatim>\<open>unsigned\<close>, 32 bits wide.
\<close>

section \<open>Digits\<close>

definition digit_char :: "nat \<Rightarrow> char" where
  "digit_char d = char_of (48 + d)"

definition hex_char :: "nat \<Rightarrow> char" where
  "hex_char d = (if d < 10 then char_of (48 + d) else char_of (55 + d))"

fun utoa :: "nat \<Rightarrow> string" where
  "utoa n = (if n < 10 then [digit_char n] else utoa (n div 10) @ [digit_char (n mod 10)])"

fun utox :: "nat \<Rightarrow> string" where
  "utox n = (if n < 16 then [hex_char n] else utox (n div 16) @ [hex_char (n mod 16)])"

declare utoa.simps [simp del] utox.simps [simp del]

definition zero_pad :: "nat \<Rightarrow> string \<Rightarrow> string" where
  "zero_pad w s = replicate (w - length s) (CHR ''0'') @ s"

section \<open>Formats\<close>

datatype fmt_arg = Arg_ptr cbuf | Arg_int "32 word"

datatype conv = Conv_s | Conv_u | Conv_c | Conv_02X | Conv_pct

text \<open>The conversion that follows a percent sign, and the rest of the format.\<close>

definition directive :: "string \<Rightarrow> (conv \<times> string) res" where
  "directive fmt =
     (case fmt of
        [] \<Rightarrow> Inl Bad_Format
      | c # r \<Rightarrow>
          if c = CHR ''s'' then Inr (Conv_s, r)
          else if c = CHR ''u'' then Inr (Conv_u, r)
          else if c = CHR ''c'' then Inr (Conv_c, r)
          else if c = CHR ''%'' then Inr (Conv_pct, r)
          else if take 3 fmt = ''02X'' then Inr (Conv_02X, drop 3 fmt)
          else Inl Bad_Format)"

text \<open>The characters a conversion produces, and the arguments it leaves.\<close>

fun convert :: "conv \<Rightarrow> fmt_arg list \<Rightarrow> (string \<times> fmt_arg list) res" where
  "convert Conv_pct args = Inr (''%'', args)"
| "convert Conv_s (Arg_ptr p # args) = ebind (c_str p) (\<lambda>s. Inr (s, args))"
| "convert Conv_u (Arg_int v # args) = Inr (utoa (unat v), args)"
| "convert Conv_c (Arg_int v # args) = Inr ([char_of (unat v)], args)"
| "convert Conv_02X (Arg_int v # args) = Inr (zero_pad 2 (utox (unat v)), args)"
| "convert _ _ = Inl Bad_Format"

lemma directive_shorter [termination_simp]:
  "directive fmt = Inr (cv, r) \<Longrightarrow> length r < Suc (length fmt)"
  by (auto simp: directive_def split: list.splits if_splits)

fun format_c :: "string \<Rightarrow> fmt_arg list \<Rightarrow> string res" where
  "format_c [] args = Inr []"
| "format_c (c # fmt) args =
     (if c \<noteq> CHR ''%'' then ebind (format_c fmt args) (\<lambda>out. Inr (c # out))
      else ebind (directive fmt) (\<lambda>(cv, rest).
           ebind (convert cv args) (\<lambda>(s, args').
           ebind (format_c rest args') (\<lambda>out. Inr (s @ out)))))"

section \<open>Storing formatted output\<close>

definition snprintf_c :: "cbuf \<Rightarrow> nat \<Rightarrow> string \<Rightarrow> fmt_arg list \<Rightarrow> (cbuf \<times> nat) res" where
  "snprintf_c buf n fmt args =
     ebind (format_c fmt args) (\<lambda>out.
       if n = 0 then Inr (buf, length out)
       else ebind (poke buf 0 (take (n - 1) out @ [NUL])) (\<lambda>buf'. Inr (buf', length out)))"

definition sprintf_c :: "cbuf \<Rightarrow> nat \<Rightarrow> string \<Rightarrow> fmt_arg list \<Rightarrow> (cbuf \<times> nat) res" where
  "sprintf_c buf off fmt args =
     ebind (format_c fmt args) (\<lambda>out.
     ebind (poke buf off (out @ [NUL])) (\<lambda>buf'. Inr (buf', length out)))"

section \<open>Lemmas on digits\<close>

lemma digit_char_numerals [simp]:
  "digit_char 0 = CHR ''0''" "digit_char (Suc 0) = CHR ''1''" "digit_char 2 = CHR ''2''"
  "digit_char 3 = CHR ''3''" "digit_char 4 = CHR ''4''" "digit_char 5 = CHR ''5''"
  "digit_char 6 = CHR ''6''" "digit_char 7 = CHR ''7''" "digit_char 8 = CHR ''8''"
  "digit_char 9 = CHR ''9''"
  by code_simp+

lemma isdigit_digit_char [simp]: "d < 10 \<Longrightarrow> isdigit_c (digit_char d)"
  by (simp add: isdigit_c_def digit_char_def)

lemma digit_val_digit_char [simp]: "d < 10 \<Longrightarrow> digit_val (digit_char d) = d"
  by (simp add: digit_val_def digit_char_def)

lemma utoa_less [simp]: "n < 10 \<Longrightarrow> utoa n = [digit_char n]"
  by (simp add: utoa.simps)

lemma utoa_ge: "10 \<le> n \<Longrightarrow> utoa n = utoa (n div 10) @ [digit_char (n mod 10)]"
  by (subst utoa.simps) simp

lemma utoa_digits: "\<forall>c \<in> set (utoa n). isdigit_c c"
  by (induction n rule: utoa.induct) (subst utoa.simps, simp)

lemma utoa_nonempty [simp]: "utoa n \<noteq> []"
  by (subst utoa.simps) simp

lemma NUL_notin_utoa [simp]: "NUL \<notin> set (utoa n)"
  using utoa_digits [of n] by auto

lemma dec_value_utoa [simp]: "dec_value (utoa n) = n"
proof (induction n rule: utoa.induct)
  case (1 n)
  show ?case
  proof (cases "n < 10")
    case True
    then show ?thesis by (simp add: dec_value_def)
  next
    case False
    with "1.IH" show ?thesis by (simp add: utoa_ge)
  qed
qed

lemma length_utoa: "n < 10 ^ k \<Longrightarrow> 0 < k \<Longrightarrow> length (utoa n) \<le> k"
proof (induction n arbitrary: k rule: utoa.induct)
  case (1 n)
  show ?case
  proof (cases "n < 10")
    case True
    with "1.prems" show ?thesis by simp
  next
    case False
    with "1.prems" obtain j where k: "k = Suc j" and j: "0 < j"
      by (cases k; cases "k - 1") auto
    from "1.prems" k have "n div 10 < 10 ^ j"
      by (simp add: less_mult_imp_div_less mult.commute)
    with "1.IH" False j have "length (utoa (n div 10)) \<le> j"
      by simp
    with False k show ?thesis
      by (simp add: utoa_ge)
  qed
qed

text \<open>Reading back what \<^verbatim>\<open>%u\<close> printed, when an \<^verbatim>\<open>int\<close> of \<open>w\<close> bits can hold it.\<close>

lemma atoi_c_utoa:
  "int n < 2 ^ (w - 1) \<Longrightarrow> atoi_c w (utoa n @ NUL # r) = Inr (int n)"
  using atoi_c_digits [OF utoa_digits utoa_nonempty, of NUL w n r] by simp

lemma char_of_48 [simp]: "char_of (48::nat) = CHR ''0''"
  by code_simp

lemma hex_char_neq_NUL [simp]: "d < 16 \<Longrightarrow> hex_char d \<noteq> NUL"
  by (auto simp: hex_char_def char_of_eq_iff take_bit_eq_mod)

lemma utox_less [simp]: "n < 16 \<Longrightarrow> utox n = [hex_char n]"
  by (simp add: utox.simps)

lemma utox_byte: "16 \<le> n \<Longrightarrow> n < 256 \<Longrightarrow> utox n = [hex_char (n div 16), hex_char (n mod 16)]"
  by (subst utox.simps) (simp add: less_mult_imp_div_less)

lemma zero_pad_utox_byte:
  "n < 256 \<Longrightarrow> zero_pad 2 (utox n) = [hex_char (n div 16), hex_char (n mod 16)]"
  by (cases "n < 16") (simp_all add: zero_pad_def utox_byte hex_char_def)

section \<open>Lemmas on formats\<close>

lemma format_c_plain:
  "CHR ''%'' \<notin> set s \<Longrightarrow> format_c (s @ fmt) args = ebind (format_c fmt args) (\<lambda>out. Inr (s @ out))"
  by (induction s) (auto simp: ebind_assoc)

lemma format_c_literal: "CHR ''%'' \<notin> set s \<Longrightarrow> format_c s args = Inr s"
  using format_c_plain [of s "[]" args] by simp

lemma directive_simps [simp]:
  "directive (CHR ''s'' # r) = Inr (Conv_s, r)"
  "directive (CHR ''u'' # r) = Inr (Conv_u, r)"
  "directive (CHR ''c'' # r) = Inr (Conv_c, r)"
  "directive (CHR ''%'' # r) = Inr (Conv_pct, r)"
  "directive (CHR ''0'' # CHR ''2'' # CHR ''X'' # r) = Inr (Conv_02X, r)"
  "directive [] = Inl Bad_Format"
  by (simp_all add: directive_def)

section \<open>Lemmas on stored output\<close>

lemma snprintf_c_zero:
  "snprintf_c buf 0 fmt args = ebind (format_c fmt args) (\<lambda>out. Inr (buf, length out))"
  by (simp add: snprintf_c_def)

lemma snprintf_c_fits:
  assumes "format_c fmt args = Inr out" "length out < n" "length out < length buf"
  shows "snprintf_c buf n fmt args = Inr (out @ NUL # drop (Suc (length out)) buf, length out)"
  using assms by (simp add: snprintf_c_def poke_def)

lemma snprintf_c_truncates:
  assumes "format_c fmt args = Inr out" "0 < n" "n \<le> length out" "n \<le> length buf"
  shows "snprintf_c buf n fmt args = Inr (take (n - 1) out @ NUL # drop n buf, length out)"
  using assms by (auto simp: snprintf_c_def poke_def min_def)

lemma snprintf_c_length:
  "snprintf_c buf n fmt args = Inr (buf', k) \<Longrightarrow> length buf' = length buf"
  by (auto simp: snprintf_c_def ebind_eq_Inr_iff poke_Inr_iff split: if_splits)

lemma snprintf_c_terminated:
  assumes "snprintf_c buf n fmt args = Inr (buf', k)" "0 < n"
  shows "NUL \<in> set (take n buf')"
proof -
  from assms obtain out r where eq: "buf' = take (n - 1) out @ NUL # r"
    by (auto simp: snprintf_c_def ebind_eq_Inr_iff poke_Inr_iff split: if_splits)
  have "length (take (n - 1) out) < n"
    using assms(2) by simp
  then have "NUL \<in> set (take n (take (n - 1) out @ NUL # r))"
    by (rule NUL_in_take)
  with eq show ?thesis
    by simp
qed

text \<open>
  After \<open>snprintf_c\<close> with a positive size within the capacity of the array, the
  array holds the output cut to \<open>n - 1\<close> characters, as a string.
\<close>

lemma snprintf_c_c_str:
  assumes out: "format_c fmt args = Inr out" and nul: "NUL \<notin> set out"
    and n: "0 < n" "n \<le> length buf"
  shows "\<exists>buf'. snprintf_c buf n fmt args = Inr (buf', length out)
           \<and> c_str buf' = Inr (take (n - 1) out)
           \<and> length buf' = length buf"
proof (cases "length out < n")
  case True
  with n have "snprintf_c buf n fmt args = Inr (out @ NUL # drop (Suc (length out)) buf, length out)"
    by (intro snprintf_c_fits out) simp_all
  with True n nul show ?thesis
    by (simp add: c_str_terminated)
next
  case False
  with n have "snprintf_c buf n fmt args = Inr (take (n - 1) out @ NUL # drop n buf, length out)"
    by (intro snprintf_c_truncates out) simp_all
  moreover have "NUL \<notin> set (take (n - 1) out)"
    using nul by (auto dest: in_set_takeD)
  moreover have "length (take (n - 1) out) = n - 1"
    using False by simp
  ultimately show ?thesis
    using n by (simp add: c_str_terminated del: length_take)
qed

lemma snprintf_c_ok:
  assumes "is_ok (format_c fmt args)" and "n \<le> length buf"
  shows "is_ok (snprintf_c buf n fmt args)"
proof -
  from assms(1) obtain out where out: "format_c fmt args = Inr out"
    by (auto simp: is_ok_iff)
  have "n \<noteq> 0 \<Longrightarrow> Suc (min (length out) (n - 1)) \<le> length buf"
    using assms(2) by simp
  then show ?thesis
    by (simp add: snprintf_c_def out poke_def)
qed

lemma sprintf_c_Inr_iff:
  "sprintf_c buf off fmt args = Inr (buf', k) \<longleftrightarrow>
     (\<exists>out. format_c fmt args = Inr out \<and> k = length out \<and>
        off + length out < length buf \<and>
        buf' = take off buf @ out @ NUL # drop (Suc (off + length out)) buf)"
  by (auto simp: sprintf_c_def ebind_eq_Inr_iff poke_Inr_iff)

end
