(* ===== verification/C_Float.thy ===== *)
theory C_Float
  imports Complex_Main "HOL-Library.Log_Nat"
begin

text \<open>
  Single-precision arithmetic as the driver in \<^verbatim>\<open>src/wisol_sigfox.c\<close> uses it in
  \<^verbatim>\<open>wisol_sigfox__freq_str_to_fl\<close>: the conversion of an \<^verbatim>\<open>int\<close> to \<^verbatim>\<open>float\<close>, a
  division and an addition.

  A \<^verbatim>\<open>float\<close> is modelled by its value, a rational number. Every operation
  computes the exact result and rounds it to the nearest number with a
  significand of 24 bits, ties to the even significand (\<open>f32_round\<close>), which is
  what IEEE 754 arithmetic in the format binary32 does in its default rounding
  mode when each operation is evaluated in the precision of \<^verbatim>\<open>float\<close>. The
  exponent is not bounded: the model is exact for results of magnitude from
  \<open>2\<^sup>-\<^sup>1\<^sup>2\<^sup>6\<close> to below \<open>2\<^sup>1\<^sup>2\<^sup>8\<close> and for 0, which covers all values the driver
  computes from decimal fields of 3 and 6 characters; infinities, NaNs,
  subnormal numbers and the sign of zero are not modelled.

  The lemmas bound the rounding error by half a unit in the last place, show
  that integers below \<open>2\<^sup>2\<^sup>4\<close> are not changed by rounding, and that rounding
  a second time changes nothing: the result of every operation is a number of
  the format (\<open>is_f32\<close>), a significand of at most 24 bits times a power of 2.
\<close>

section \<open>Rounding\<close>

type_synonym f32 = rat

text \<open>The nearest integer, ties to even.\<close>

definition round_even :: "rat \<Rightarrow> int" where
  "round_even y =
     (let f = \<lfloor>y\<rfloor>; d = y - of_int f
      in if d < 1 / 2 then f else if 1 / 2 < d then f + 1 else if even f then f else f + 1)"

text \<open>
  The binary exponent of a positive number \<open>x\<close>: the \<open>e\<close> with
  \<open>2\<^sup>e \<le> x < 2\<^sup>e\<^sup>+\<^sup>1\<close>, from the bit lengths of numerator and denominator.
\<close>

definition exponent2 :: "rat \<Rightarrow> int" where
  "exponent2 x =
     (case quotient_of x of (p, q) \<Rightarrow>
        let k = bitlen p - bitlen q in if power_int 2 k \<le> x then k else k - 1)"

definition f32_round :: "rat \<Rightarrow> f32" where
  "f32_round x =
     (if x = 0 then 0
      else let ulp = power_int 2 (exponent2 \<bar>x\<bar> - 23)
           in of_int (round_even (x / ulp)) * ulp)"

section \<open>Operations\<close>

definition f32_of_int :: "int \<Rightarrow> f32" where
  "f32_of_int i = f32_round (of_int i)"

definition f32_add :: "f32 \<Rightarrow> f32 \<Rightarrow> f32" where
  "f32_add x y = f32_round (x + y)"

definition f32_div :: "f32 \<Rightarrow> f32 \<Rightarrow> f32" where
  "f32_div x y = f32_round (x / y)"

text \<open>The rational numbers that are values of a \<^verbatim>\<open>float\<close>: rounding leaves them as they are.\<close>

definition is_f32 :: "rat \<Rightarrow> bool" where
  "is_f32 x \<longleftrightarrow> f32_round x = x"

section \<open>Lemmas on rounding\<close>

lemma round_even_error: "\<bar>of_int (round_even y) - y\<bar> \<le> 1 / 2"
proof -
  have "of_int \<lfloor>y\<rfloor> \<le> y" "y < of_int \<lfloor>y\<rfloor> + 1"
    by linarith+
  then show ?thesis
    by (auto simp: round_even_def Let_def)
qed

lemma round_even_of_int [simp]: "round_even (of_int n) = n"
  by (simp add: round_even_def)

lemma exponent2_bounds:
  assumes "0 < x"
  shows "power_int 2 (exponent2 x) \<le> x" and "x < power_int 2 (exponent2 x + 1)"
proof -
  obtain p q where pq: "quotient_of x = (p, q)"
    by (cases "quotient_of x")
  then have q: "0 < q" and x: "x = of_int p / of_int q"
    by (auto dest: quotient_of_denom_pos quotient_of_div)
  with assms have p: "0 < p"
    by (simp add: zero_less_divide_iff)
  let ?k = "bitlen p - bitlen q"
  have bp: "1 \<le> bitlen p" and bq: "1 \<le> bitlen q"
    using p q by (simp_all add: bitlen_alt_def)
  have "of_int p < (power_int 2 (bitlen p) :: rat)"
    using bitlen_bounds [OF p] bp
    by (simp add: power_int_def)
  moreover have "(power_int 2 (bitlen q - 1) :: rat) \<le> of_int q"
    using bitlen_bounds [OF q] bq
    by (simp add: power_int_def)
  ultimately have "x < power_int 2 (bitlen p) / power_int 2 (bitlen q - 1)"
    unfolding x using p q
    by (intro frac_less) (simp_all add: zero_less_power_int)
  then have upper: "x < power_int 2 (?k + 1)"
    by (simp add: power_int_diff [symmetric] algebra_simps)
  have "(power_int 2 (bitlen p - 1) :: rat) \<le> of_int p"
    using bitlen_bounds [OF p] bp by (simp add: power_int_def)
  moreover have "of_int q < (power_int 2 (bitlen q) :: rat)"
    using bitlen_bounds [OF q] bq by (simp add: power_int_def)
  ultimately have "power_int 2 (bitlen p - 1) / power_int 2 (bitlen q) < x"
    unfolding x using p q
    by (intro frac_less2) (simp_all add: zero_less_power_int)
  then have lower: "power_int 2 (?k - 1) \<le> x"
    by (simp add: power_int_diff [symmetric] algebra_simps)
  have e: "exponent2 x = (if power_int 2 ?k \<le> x then ?k else ?k - 1)"
    by (simp add: exponent2_def pq Let_def)
  show "power_int 2 (exponent2 x) \<le> x"
    using lower by (simp add: e)
  show "x < power_int 2 (exponent2 x + 1)"
    using upper by (simp add: e)
qed

lemma f32_round_0 [simp]: "f32_round 0 = 0"
  by (simp add: f32_round_def)

text \<open>The error of rounding is at most half a unit in the last place.\<close>

lemma f32_round_error:
  assumes "x \<noteq> 0"
  shows "\<bar>f32_round x - x\<bar> \<le> power_int 2 (exponent2 \<bar>x\<bar> - 24)"
proof -
  let ?ulp = "power_int 2 (exponent2 \<bar>x\<bar> - 23) :: rat"
  have ulp: "0 < ?ulp"
    by (simp add: zero_less_power_int)
  have "f32_round x - x = (of_int (round_even (x / ?ulp)) - x / ?ulp) * ?ulp"
    using assms ulp by (simp add: f32_round_def Let_def algebra_simps)
  then have "\<bar>f32_round x - x\<bar> = \<bar>of_int (round_even (x / ?ulp)) - x / ?ulp\<bar> * ?ulp"
    using ulp by (simp add: abs_mult)
  also have "\<dots> \<le> 1 / 2 * ?ulp"
    using ulp by (intro mult_right_mono round_even_error) simp
  also have "\<dots> = power_int 2 (exponent2 \<bar>x\<bar> - 24)"
    using power_int_diff [of "2 :: rat" "exponent2 \<bar>x\<bar> - 23" 1] by simp
  finally show ?thesis .
qed

lemma exponent2_less:
  assumes "0 < x" "x < power_int 2 k"
  shows "exponent2 x < k"
proof -
  have less: "power_int (2 :: rat) (exponent2 x) < power_int 2 k"
    using exponent2_bounds(1) [OF assms(1)] assms(2) by simp
  show ?thesis
  proof (rule ccontr)
    assume "\<not> exponent2 x < k"
    then have "power_int (2 :: rat) k \<le> power_int 2 (exponent2 x)"
      by (intro power_int_increasing) simp_all
    with less show False
      by simp
  qed
qed

lemma f32_round_error_below:
  assumes "\<bar>x\<bar> < power_int 2 k"
  shows "\<bar>f32_round x - x\<bar> \<le> power_int 2 (k - 25)"
proof (cases "x = 0")
  case True
  then show ?thesis
    by (simp add: zero_le_power_int)
next
  case False
  then have "exponent2 \<bar>x\<bar> < k"
    using assms by (intro exponent2_less) simp_all
  then have "power_int (2 :: rat) (exponent2 \<bar>x\<bar> - 24) \<le> power_int 2 (k - 25)"
    by (intro power_int_increasing) simp_all
  with f32_round_error [OF False] show ?thesis
    by simp
qed


text \<open>A multiple of the unit in the last place is not changed.\<close>

lemma f32_round_exact:
  assumes "x \<noteq> 0" and "x / power_int 2 (exponent2 \<bar>x\<bar> - 23) = of_int r"
  shows "f32_round x = x"
proof -
  have "f32_round x = x / power_int 2 (exponent2 \<bar>x\<bar> - 23) * power_int 2 (exponent2 \<bar>x\<bar> - 23)"
    unfolding assms(2) using assms by (simp add: f32_round_def)
  then show ?thesis
    by simp
qed

text \<open>Integers of up to 24 bits are numbers of the format.\<close>

lemma f32_round_int:
  assumes "\<bar>n\<bar> < 2 ^ 24"
  shows "f32_round (of_int n) = of_int n"
proof (cases "n = 0")
  case True
  then show ?thesis
    by simp
next
  case False
  let ?e = "exponent2 \<bar>of_int n\<bar>"
  have "\<bar>rat_of_int n\<bar> < power_int 2 24"
    using assms by (simp flip: of_int_abs add: of_int_less_numeral_power_cancel_iff)
  then have "?e < 24"
    using False by (intro exponent2_less) simp_all
  define m where "m = nat (23 - ?e)"
  with \<open>?e < 24\<close> have m: "?e - 23 = - int m"
    by simp
  have ulp: "power_int (2 :: rat) (?e - 23) = 1 / 2 ^ m"
    by (simp add: m power_int_minus_divide)
  have "of_int n / power_int 2 (?e - 23) = rat_of_int (n * 2 ^ m)"
    by (simp add: ulp)
  then show ?thesis
    by (rule f32_round_exact [rotated]) (simp add: False)
qed

lemma f32_of_int_exact [simp]: "\<bar>n\<bar> < 2 ^ 24 \<Longrightarrow> f32_of_int n = of_int n"
  by (simp add: f32_of_int_def f32_round_int)

section \<open>The results of the operations are numbers of the format\<close>

lemma round_even_between: "\<lfloor>y\<rfloor> \<le> round_even y" "round_even y \<le> \<lceil>y\<rceil>"
proof -
  show "\<lfloor>y\<rfloor> \<le> round_even y"
    by (simp add: round_even_def Let_def)
  have "y \<noteq> of_int \<lfloor>y\<rfloor> \<Longrightarrow> \<lfloor>y\<rfloor> + 1 \<le> \<lceil>y\<rceil>"
    by (metis ceiling_altdef order_refl)
  then show "round_even y \<le> \<lceil>y\<rceil>"
    by (auto simp: round_even_def Let_def)
qed

lemma round_even_bounds:
  "of_int a \<le> y \<Longrightarrow> a \<le> round_even y"
  "y \<le> of_int b \<Longrightarrow> round_even y \<le> b"
  using round_even_between [of y] le_floor_iff [of a y] ceiling_le_iff [of y b] by linarith+

lemma round_even_abs_bounds:
  assumes "of_int a \<le> \<bar>y\<bar>" and "\<bar>y\<bar> \<le> of_int b"
  shows "a \<le> \<bar>round_even y\<bar>" and "\<bar>round_even y\<bar> \<le> b"
proof -
  from assms have "of_int a \<le> y \<or> y \<le> of_int (- a)" and "of_int (- b) \<le> y" and "y \<le> of_int b"
    by (auto simp: abs_if split: if_splits)
  then have "a \<le> round_even y \<or> round_even y \<le> - a" and "- b \<le> round_even y"
    and "round_even y \<le> b"
    by (blast intro: round_even_bounds)+
  then show "a \<le> \<bar>round_even y\<bar>" and "\<bar>round_even y\<bar> \<le> b"
    by linarith+
qed

lemma exponent2_eq:
  assumes "power_int 2 k \<le> x" and "x < power_int 2 (k + 1)"
  shows "exponent2 x = k"
proof -
  have pos: "0 < x"
    using assms(1) by (rule less_le_trans [rotated]) (simp add: zero_less_power_int)
  have "exponent2 x < k + 1"
    using pos assms(2) by (rule exponent2_less)
  moreover have "\<not> exponent2 x < k"
  proof
    assume "exponent2 x < k"
    then have "power_int (2 :: rat) (exponent2 x + 1) \<le> power_int 2 k"
      by (intro power_int_increasing) simp_all
    with exponent2_bounds(2) [OF pos] assms(1) show False
      by simp
  qed
  ultimately show ?thesis
    by simp
qed

text \<open>
  The result of rounding is a significand of 24 bits, or \<open>2\<^sup>2\<^sup>4\<close> when rounding has
  carried, times the unit in the last place of the number rounded.
\<close>

lemma f32_round_significand:
  assumes "x \<noteq> 0"
  obtains m where "f32_round x = of_int m * power_int 2 (exponent2 \<bar>x\<bar> - 23)"
    and "2 ^ 23 \<le> \<bar>m\<bar>" and "\<bar>m\<bar> \<le> 2 ^ 24"
proof
  let ?e = "exponent2 \<bar>x\<bar>"
  let ?u = "power_int 2 (?e - 23) :: rat"
  have u: "0 < ?u"
    by (simp add: zero_less_power_int)
  show "f32_round x = of_int (round_even (x / ?u)) * ?u"
    using assms by (simp add: f32_round_def Let_def)
  have "power_int 2 23 * ?u = power_int 2 ?e" "power_int 2 24 * ?u = power_int 2 (?e + 1)"
    using power_int_add [of "2 :: rat" 23 "?e - 23"] power_int_add [of "2 :: rat" 24 "?e - 23"]
    by (simp_all add: algebra_simps)
  with assms exponent2_bounds [of "\<bar>x\<bar>"]
  have "power_int 2 23 * ?u \<le> \<bar>x\<bar>" "\<bar>x\<bar> < power_int 2 24 * ?u"
    by simp_all
  with u have "2 ^ 23 \<le> \<bar>x / ?u\<bar>" "\<bar>x / ?u\<bar> < 2 ^ 24"
    by (simp_all add: pos_le_divide_eq pos_divide_less_eq)
  then show "2 ^ 23 \<le> \<bar>round_even (x / ?u)\<bar>" "\<bar>round_even (x / ?u)\<bar> \<le> 2 ^ 24"
    using round_even_abs_bounds [of "2 ^ 23" "x / ?u" "2 ^ 24"] by simp_all
qed

text \<open>A significand of 24 bits times a power of 2 is left as it is.\<close>

lemma f32_round_scaled:
  assumes m: "2 ^ 23 \<le> \<bar>m\<bar>" "\<bar>m\<bar> \<le> 2 ^ 24"
  shows "f32_round (of_int m * power_int 2 k) = of_int m * power_int 2 k"
proof -
  define u :: rat where "u = power_int 2 k"
  define y where "y = of_int m * u"
  have u: "0 < u"
    by (simp add: u_def zero_less_power_int)
  have pow: "power_int 2 23 * u = power_int 2 (k + 23)" "power_int 2 24 * u = power_int 2 (k + 24)"
    using power_int_add [of "2 :: rat" 23 k] power_int_add [of "2 :: rat" 24 k]
    by (simp_all add: u_def algebra_simps)
  from m u have nz: "y \<noteq> 0" and ay: "\<bar>y\<bar> = of_int \<bar>m\<bar> * u"
    by (auto simp: y_def abs_mult)
  have "f32_round y = y"
  proof (cases "\<bar>m\<bar> = 2 ^ 24")
    case True
    then have "\<bar>y\<bar> = power_int 2 (k + 24)"
      by (simp add: ay flip: pow)
    then have "exponent2 \<bar>y\<bar> = k + 24"
      by (intro exponent2_eq) (simp_all add: power_int_strict_increasing)
    moreover have "power_int 2 (k + 24 - 23) = 2 * u"
      using power_int_add [of "2 :: rat" k 1] by (simp add: u_def algebra_simps)
    moreover from True have "m = 2 ^ 24 \<or> m = - (2 ^ 24)"
      by (simp add: abs_if split: if_splits)
    then have "rat_of_int m = 2 * of_int (m div 2)"
      by auto
    then have "of_int m * u / (2 * u) = of_int (m div 2)"
      using u by simp
    ultimately show ?thesis
      using nz by (intro f32_round_exact [where r = "m div 2"]) (simp_all add: y_def)
  next
    case False
    with m have "rat_of_int \<bar>m\<bar> < 2 ^ 24" "2 ^ 23 \<le> rat_of_int \<bar>m\<bar>"
      by simp_all
    with u have "power_int 2 23 * u \<le> \<bar>y\<bar>" "\<bar>y\<bar> < power_int 2 24 * u"
      unfolding ay by simp_all
    then have "exponent2 \<bar>y\<bar> = k + 23"
      unfolding pow by (intro exponent2_eq) (simp_all add: add.commute)
    then show ?thesis
      using nz by (intro f32_round_exact [where r = m]) (simp_all add: y_def u_def)
  qed
  then show ?thesis
    by (simp add: y_def u_def)
qed

text \<open>Rounding a second time changes nothing.\<close>

lemma f32_round_idem [simp]: "f32_round (f32_round x) = f32_round x"
proof (cases "x = 0")
  case True
  then show ?thesis
    by simp
next
  case False
  then obtain m where "f32_round x = of_int m * power_int 2 (exponent2 \<bar>x\<bar> - 23)"
    and "2 ^ 23 \<le> \<bar>m\<bar>" "\<bar>m\<bar> \<le> 2 ^ 24"
    by (rule f32_round_significand)
  then show ?thesis
    by (simp add: f32_round_scaled)
qed

lemma is_f32_round [simp]: "is_f32 (f32_round x)"
  by (simp add: is_f32_def)

lemma is_f32_operations [simp]:
  "is_f32 (f32_of_int i)" "is_f32 (f32_add x y)" "is_f32 (f32_div x y)"
  by (simp_all add: f32_of_int_def f32_add_def f32_div_def)

lemma is_f32_0 [simp]: "is_f32 0"
  by (simp add: is_f32_def)

lemma is_f32_int: "\<bar>n\<bar> < 2 ^ 24 \<Longrightarrow> is_f32 (of_int n)"
  by (simp add: is_f32_def f32_round_int)

text \<open>A number of the format is a significand of at most 24 bits times a power of 2.\<close>

lemma is_f32_significand:
  assumes "is_f32 x"
  shows "\<exists>m e. \<bar>m\<bar> < 2 ^ 24 \<and> x = of_int m * power_int 2 e"
proof (cases "x = 0")
  case True
  then show ?thesis
    by (intro exI [of _ 0]) simp
next
  case False
  then obtain m where "f32_round x = of_int m * power_int 2 (exponent2 \<bar>x\<bar> - 23)"
    and m: "\<bar>m\<bar> \<le> 2 ^ 24"
    by (rule f32_round_significand)
  with assms have x: "x = of_int m * power_int 2 (exponent2 \<bar>x\<bar> - 23)"
    by (simp add: is_f32_def)
  show ?thesis
  proof (cases "\<bar>m\<bar> = 2 ^ 24")
    case False
    with m x show ?thesis
      by (intro exI [of _ m] exI [of _ "exponent2 \<bar>x\<bar> - 23"]) simp
  next
    case True
    then have "m = 2 ^ 24 \<or> m = - (2 ^ 24)"
      by (simp add: abs_if split: if_splits)
    moreover have "2 ^ 24 * power_int 2 (exponent2 \<bar>x\<bar> - 23) = (power_int 2 (exponent2 \<bar>x\<bar> + 1) :: rat)"
      using power_int_add [of "2 :: rat" 24 "exponent2 \<bar>x\<bar> - 23"] by (simp add: algebra_simps)
    ultimately have "x = of_int (m div 2 ^ 24) * power_int 2 (exponent2 \<bar>x\<bar> + 1)"
      and "\<bar>m div 2 ^ 24\<bar> < 2 ^ 24"
      using x by auto
    then show ?thesis
      by blast
  qed
qed

text \<open>
  And every such product is a number of the format: a significand below
  \<open>2\<^sup>2\<^sup>3\<close> is shifted up until it has 24 bits.
\<close>

lemma normalise_significand:
  fixes m :: int
  assumes "m \<noteq> 0" and "\<bar>m\<bar> < 2 ^ 24"
  obtains j :: nat where "2 ^ 23 \<le> \<bar>m * 2 ^ j\<bar>" and "\<bar>m * 2 ^ j\<bar> < 2 ^ 24"
proof
  define n where "n = bitlen \<bar>m\<bar>"
  from assms(1) have pos: "0 < \<bar>m\<bar>"
    by simp
  from bitlen_bounds [OF pos] have b: "2 ^ nat (n - 1) \<le> \<bar>m\<bar>" "\<bar>m\<bar> < 2 ^ nat n"
    by (simp_all add: n_def)
  from pos have n: "1 \<le> n"
    by (simp add: n_def bitlen_alt_def)
  from b(1) assms(2) have lt: "(2::int) ^ nat (n - 1) < 2 ^ 24"
    by (rule le_less_trans)
  have "nat (n - 1) < 24"
    by (rule power_less_imp_less_exp [OF _ lt]) simp
  with n have e: "nat (n - 1) + nat (24 - n) = 23" "nat n + nat (24 - n) = 24"
    by simp_all
  have "(2::int) ^ 23 = 2 ^ nat (n - 1) * 2 ^ nat (24 - n)"
    by (simp add: e flip: power_add)
  also have "\<dots> \<le> \<bar>m\<bar> * 2 ^ nat (24 - n)"
    using b(1) by (intro mult_right_mono) simp_all
  finally show "2 ^ 23 \<le> \<bar>m * 2 ^ nat (24 - n)\<bar>"
    by (simp add: abs_mult)
  have "\<bar>m\<bar> * 2 ^ nat (24 - n) < 2 ^ nat n * 2 ^ nat (24 - n)"
    using b(2) by (intro mult_strict_right_mono) simp_all
  also have "\<dots> = 2 ^ 24"
    by (simp add: e flip: power_add)
  finally show "\<bar>m * 2 ^ nat (24 - n)\<bar> < 2 ^ 24"
    by (simp add: abs_mult)
qed

lemma is_f32_scaled:
  assumes "\<bar>m\<bar> < 2 ^ 24"
  shows "is_f32 (of_int m * power_int 2 e)"
proof (cases "m = 0")
  case True
  then show ?thesis
    by simp
next
  case False
  from False assms obtain j :: nat where j: "2 ^ 23 \<le> \<bar>m * 2 ^ j\<bar>" "\<bar>m * 2 ^ j\<bar> < 2 ^ 24"
    by (rule normalise_significand)
  have "(2::rat) ^ j * power_int 2 (e - int j) = power_int 2 e"
    using power_int_add [of "2 :: rat" "int j" "e - int j"] by simp
  then have "rat_of_int m * power_int 2 e = of_int (m * 2 ^ j) * power_int 2 (e - int j)"
    by (simp add: mult.assoc)
  with f32_round_scaled [OF j(1) less_imp_le [OF j(2)], of "e - int j"] show ?thesis
    by (simp only: is_f32_def)
qed

text \<open>The numbers of the format, then, without the bounds of the exponent.\<close>

lemma is_f32_iff: "is_f32 x \<longleftrightarrow> (\<exists>m e. \<bar>m\<bar> < 2 ^ 24 \<and> x = of_int m * power_int 2 e)"
proof
  show "\<exists>m e. \<bar>m\<bar> < 2 ^ 24 \<and> x = of_int m * power_int 2 e" if "is_f32 x"
    using that by (rule is_f32_significand)
  show "is_f32 x" if "\<exists>m e. \<bar>m\<bar> < 2 ^ 24 \<and> x = of_int m * power_int 2 e"
    using that by (auto simp: is_f32_scaled)
qed

end
