(* ===== verification/Transport.thy ===== *)
theory Transport
  imports Wisol_Prelude
begin

text \<open>
  The serial transport the driver depends on: the external function
  \<^verbatim>\<open>wisol_sigfox__serial_sync\<close> declared in \<^verbatim>\<open>src/wisol_sigfox.h\<close>, which the
  user of the library implements. It sends one command to the module, waits
  for the response up to a timeout and places it in the response buffer.

  \<^item> The implementation is a parameter of the model, a \<open>transport\<close>: a function
    from the state of the device (any type \<open>'d\<close>), the command text, the
    content of the response buffer it is given and the timeout, to the
    characters it stores there and the next state of the device.
  \<^item> \<open>wisol_sigfox__serial_sync\<close> is the call as the driver makes it. The
    command is read as a C string from the command buffer. The response is
    stored from index 0, cut to the size the caller passed; the elements behind
    it keep their content. Each call is recorded in the \<open>world\<close>, so that
    theorems can say which commands were sent, with which size and timeout.
  \<^item> A transport need not terminate its response with \<open>NUL\<close>; a theorem that
    needs it says so of the response.
\<close>

section \<open>The world the driver runs in\<close>

record call =
  call_cmd :: string
  call_size :: nat
  call_timeout :: nat

type_synonym 'd transport = "'d \<Rightarrow> string \<Rightarrow> cbuf \<Rightarrow> nat \<Rightarrow> cbuf \<times> 'd"

record 'd world =
  dev :: 'd
  calls :: "call list"

definition sent :: "'d world \<Rightarrow> string list" where
  "sent w = map call_cmd (calls w)"

section \<open>One call\<close>

text \<open>
  The response buffer after a response has been stored in it, and the world
  after a call has been made.
\<close>

definition deliver :: "cbuf \<Rightarrow> nat \<Rightarrow> cbuf \<Rightarrow> cbuf" where
  "deliver buf sz resp = take sz resp @ drop (min sz (length resp)) buf"

definition record_call :: "'d world \<Rightarrow> 'd \<Rightarrow> string \<Rightarrow> nat \<Rightarrow> nat \<Rightarrow> 'd world" where
  "record_call w d c sz t =
     w\<lparr>dev := d, calls := calls w @ [\<lparr>call_cmd = c, call_size = sz, call_timeout = t\<rparr>]\<rparr>"

definition wisol_sigfox__serial_sync ::
  "'d transport \<Rightarrow> cbuf \<Rightarrow> cbuf \<Rightarrow> nat \<Rightarrow> nat \<Rightarrow> 'd world \<Rightarrow> (cbuf \<times> 'd world) res" where
  "wisol_sigfox__serial_sync tr cmd p_response_buf sz_response_buf timeout w =
     ebind (c_str cmd) (\<lambda>c.
       case tr (dev w) c (take sz_response_buf p_response_buf) timeout of
         (resp, d) \<Rightarrow>
           ebind (poke p_response_buf 0 (take sz_response_buf resp)) (\<lambda>buf.
           Inr (buf, record_call w d c sz_response_buf timeout)))"

section \<open>A scripted transport\<close>

text \<open>
  The stub that tests of the driver link in place of the serial line: it
  answers a command with the characters a script gives for it, and counts the
  calls in the state of the device.
\<close>

definition scripted :: "(string \<Rightarrow> cbuf) \<Rightarrow> nat transport" where
  "scripted script = (\<lambda>d c window t. (script c, Suc d))"

definition world0 :: "nat world" where
  "world0 = \<lparr>dev = 0, calls = []\<rparr>"

section \<open>Lemmas\<close>

lemma scripted_apply [simp]: "scripted script d c window t = (script c, Suc d)"
  by (simp add: scripted_def)

lemma world0_simps [simp]: "dev world0 = 0" "calls world0 = []"
  by (simp_all add: world0_def)


lemma length_deliver [simp]:
  "min sz (length resp) \<le> length buf \<Longrightarrow> length (deliver buf sz resp) = length buf"
  by (auto simp: deliver_def min_def)

lemma take_deliver [simp]:
  "k \<le> sz \<Longrightarrow> k \<le> length resp \<Longrightarrow> take k (deliver buf sz resp) = take k resp"
  by (simp add: deliver_def)

lemma drop_deliver [simp]: "sz \<le> length buf \<Longrightarrow> drop sz (deliver buf sz resp) = drop sz buf"
  by (auto simp: deliver_def min_def)

lemma deliver_terminated_eq:
  "length r < sz \<Longrightarrow> \<exists>rest. deliver buf sz (r @ NUL # x) = r @ NUL # rest"
  by (simp add: deliver_def take_Cons')

lemma deliver_terminated:
  "NUL \<notin> set r \<Longrightarrow> length r < sz \<Longrightarrow> c_str (deliver buf sz (r @ NUL # x)) = Inr r"
  by (simp add: deliver_def take_Cons' c_str_terminated)

lemma dev_record_call [simp]: "dev (record_call w d c sz t) = d"
  by (simp add: record_call_def)

lemma calls_record_call [simp]:
  "calls (record_call w d c sz t) =
     calls w @ [\<lparr>call_cmd = c, call_size = sz, call_timeout = t\<rparr>]"
  by (simp add: record_call_def)

lemma sent_record_call [simp]: "sent (record_call w d c sz t) = sent w @ [c]"
  by (simp add: sent_def)

lemma serial_sync_unfold:
  assumes "c_str cmd = Inr c" "tr (dev w) c (take sz buf) t = (resp, d)"
  shows "wisol_sigfox__serial_sync tr cmd buf sz t w =
           (if min sz (length resp) \<le> length buf
            then Inr (deliver buf sz resp, record_call w d c sz t)
            else Inl Write_Overrun)"
  using assms
  by (simp add: wisol_sigfox__serial_sync_def poke_def min.commute deliver_def)

lemma serial_sync_Inr_iff:
  "wisol_sigfox__serial_sync tr cmd buf sz t w = Inr (buf', w') \<longleftrightarrow>
     (\<exists>c resp d. c_str cmd = Inr c \<and> tr (dev w) c (take sz buf) t = (resp, d) \<and>
        min sz (length resp) \<le> length buf \<and>
        buf' = deliver buf sz resp \<and> w' = record_call w d c sz t)"
proof (cases "c_str cmd")
  case (Inl e)
  then show ?thesis
    by (simp add: wisol_sigfox__serial_sync_def)
next
  case (Inr c)
  obtain resp d where "tr (dev w) c (take sz buf) t = (resp, d)"
    by (cases "tr (dev w) c (take sz buf) t")
  with Inr show ?thesis
    by (auto simp: serial_sync_unfold)
qed

text \<open>The call with a terminated command and a buffer of at least the size passed.\<close>

lemma serial_sync_lit:
  assumes "NUL \<notin> set c" "tr (dev w) c (take sz buf) t = (resp, d)" "sz \<le> length buf"
  shows "wisol_sigfox__serial_sync tr (c @ NUL # r) buf sz t w =
           Inr (deliver buf sz resp, record_call w d c sz t)"
  using assms by (simp add: serial_sync_unfold c_str_terminated)

lemma serial_sync_length:
  "wisol_sigfox__serial_sync tr cmd buf sz t w = Inr (buf', w') \<Longrightarrow> length buf' = length buf"
  by (auto simp: serial_sync_Inr_iff)

lemma serial_sync_frame:
  "wisol_sigfox__serial_sync tr cmd buf sz t w = Inr (buf', w') \<Longrightarrow> drop sz buf' = drop sz buf"
  by (auto simp: serial_sync_Inr_iff deliver_def min_def)

lemma serial_sync_calls:
  "wisol_sigfox__serial_sync tr cmd buf sz t w = Inr (buf', w') \<Longrightarrow>
   \<exists>c. c_str cmd = Inr c \<and>
       calls w' = calls w @ [\<lparr>call_cmd = c, call_size = sz, call_timeout = t\<rparr>]"
  by (auto simp: serial_sync_Inr_iff)

text \<open>
  A call whose size is not more than the capacity of the response buffer
  fails only when the command buffer holds no string.
\<close>

lemma serial_sync_ok:
  "NUL \<in> set cmd \<Longrightarrow> sz \<le> length buf \<Longrightarrow> is_ok (wisol_sigfox__serial_sync tr cmd buf sz t w)"
  by (cases "tr (dev w) (takeWhile (\<lambda>c. c \<noteq> NUL) cmd) (take sz buf) t")
     (simp add: serial_sync_unfold [where c = "takeWhile (\<lambda>c. c \<noteq> NUL) cmd"] c_str_def)

end
