(* ===== verification/Commands.thy ===== *)
theory Commands
  imports Wisol_Prelude
begin

text \<open>
  The command table of \<^verbatim>\<open>src/wisol_sigfox.c\<close>: the array
  \<^verbatim>\<open>wisol_sigfox__commands\<close> of format strings, the enumeration
  \<^verbatim>\<open>wisol_sigfox__commmands_e\<close> of the commands the driver implements, whose
  values are indexes into the array, and the two constants of the file.

  The array is modelled as the C compiler reads it. Adjacent string literals
  with no comma between them are one literal, so the source's 34 lines of
  literals are 30 elements: the lines \<^verbatim>\<open>"AT:ADC P%u%s"\<close> and
  \<^verbatim>\<open>"AT:SPI%c=%s"\<close> are one element, and the last four are one element.

  \<open>command\<close> is the array access \<^verbatim>\<open>wisol_sigfox__commands[c]\<close>; it fails for
  an index outside the array. The lemmas give the format of every command of
  the enumeration.
\<close>

section \<open>The table\<close>

definition wisol_sigfox__commands :: "string list" where
  "wisol_sigfox__commands =
    [''AT'',
     ''AT$SB=%s'',
     ''AT$SF=%s%s'',
     ''AT$SO'',
     ''AT$TR?'',
     ''AT$TR=%u'',
     ''ATS%u?'',
     ''ATS%u=%s'',
     ''AT$IF=%s'',
     ''AT$IF?'',
     ''AT$DR=%s'',
     ''AT$DR?'',
     ''AT$CW=%u,%c,%u'',
     ''AT$CB=%u,%c'',
     ''AT$T?'',
     ''AT$V?'',
     ''AT$I=%u'',
     ''AT$P=%u'',
     ''AT$WR'',
     ''AT:P%u?'',
     ''AT:P%u=?'',
     ''AT:P%u=%s'',
     ''AT:ADC P%u%s'' @ ''AT:SPI%c=%s'',
     ''AT:CLK=%s,%s'',
     ''AT:CLK=OFF'',
     ''AT:CLK?'',
     ''AT:DAC=%s'',
     ''AT:DAC=off'',
     ''AT:DAC?'',
     ''ATSTM=%s,%s'' @ ''AT$SE'' @ ''AT$SL=%s'' @ ''AT$RL'']"

datatype wisol_sigfox__commmands_e =
    CMD_STATUS
  | CMD_SEND_FRAME
  | CMD_GET_REGISTER
  | CMD_SET_REGISTER
  | CMD_GET_TX_FREQ
  | CMD_GET_RX_FREQ
  | CMD_INFORMATION
  | CMD_SET_POWER_MODE

text \<open>The value of each enumerator.\<close>

fun cmd_index :: "wisol_sigfox__commmands_e \<Rightarrow> nat" where
  "cmd_index CMD_STATUS = 0"
| "cmd_index CMD_SEND_FRAME = 2"
| "cmd_index CMD_GET_REGISTER = 6"
| "cmd_index CMD_SET_REGISTER = 7"
| "cmd_index CMD_GET_TX_FREQ = 9"
| "cmd_index CMD_GET_RX_FREQ = 11"
| "cmd_index CMD_INFORMATION = 16"
| "cmd_index CMD_SET_POWER_MODE = 17"

definition command :: "wisol_sigfox__commmands_e \<Rightarrow> string res" where
  "command c =
     (if cmd_index c < length wisol_sigfox__commands
      then Inr (wisol_sigfox__commands ! cmd_index c)
      else Inl Read_Overrun)"


definition DEFAULT_BUF_SZ :: nat where
  "DEFAULT_BUF_SZ = 32"

definition WISOL_SIGFOX_DEFAULT_TIMEOUT :: nat where
  "WISOL_SIGFOX_DEFAULT_TIMEOUT = 100"

section \<open>The enumeration as an ordered type\<close>

text \<open>
  The enumerators are ordered by their values, as in C; this makes the
  library's facts about linear orders and sorted lists available for them.
\<close>

instantiation wisol_sigfox__commmands_e :: linorder
begin

definition less_eq_wisol_sigfox__commmands_e ::
  "wisol_sigfox__commmands_e \<Rightarrow> wisol_sigfox__commmands_e \<Rightarrow> bool" where
  "less_eq_wisol_sigfox__commmands_e a b \<longleftrightarrow> cmd_index a \<le> cmd_index b"

definition less_wisol_sigfox__commmands_e ::
  "wisol_sigfox__commmands_e \<Rightarrow> wisol_sigfox__commmands_e \<Rightarrow> bool" where
  "less_wisol_sigfox__commmands_e a b \<longleftrightarrow> cmd_index a < cmd_index b"

instance
proof
  fix a b :: wisol_sigfox__commmands_e
  assume "a \<le> b" and "b \<le> a"
  then have "cmd_index a = cmd_index b"
    by (simp add: less_eq_wisol_sigfox__commmands_e_def)
  then show "a = b"
    by (cases a; cases b) simp_all
qed (auto simp: less_eq_wisol_sigfox__commmands_e_def less_wisol_sigfox__commmands_e_def)

end

section \<open>Lemmas\<close>

lemma length_commands: "length wisol_sigfox__commands = 30"
  by (simp add: wisol_sigfox__commands_def)

lemma cmd_index_in_table: "cmd_index c < length wisol_sigfox__commands"
  by (cases c) (simp_all add: length_commands)

lemma inj_cmd_index: "inj cmd_index"
  by (rule injI) (metis antisym less_eq_wisol_sigfox__commmands_e_def order_refl)

lemma command_simps [simp]:
  "command CMD_STATUS = Inr ''AT''"
  "command CMD_SEND_FRAME = Inr ''AT$SF=%s%s''"
  "command CMD_GET_REGISTER = Inr ''ATS%u?''"
  "command CMD_SET_REGISTER = Inr ''ATS%u=%s''"
  "command CMD_GET_TX_FREQ = Inr ''AT$IF?''"
  "command CMD_GET_RX_FREQ = Inr ''AT$DR?''"
  "command CMD_INFORMATION = Inr ''AT$I=%u''"
  "command CMD_SET_POWER_MODE = Inr ''AT$P=%u''"
  by (simp_all add: command_def wisol_sigfox__commands_def)

lemma command_ok: "is_ok (command c)"
  by (simp add: command_def cmd_index_in_table)

section \<open>The table as compiled\<close>



end
