(* ===== verification/Exchange.thy ===== *)
theory Exchange
  imports C_Format Transport Commands
begin

text \<open>
  What the operations of the driver in \<^verbatim>\<open>src/wisol_sigfox.c\<close> have in common: each
  formats a command template into its automatic array \<^verbatim>\<open>buf\<close> with \<^verbatim>\<open>snprintf\<close>
  and passes the array to \<^verbatim>\<open>wisol_sigfox__serial_sync\<close>. This theory has the lemma
  on that pair of statements which the theories of the operations apply, the
  decimal texts of the constants the code formats, and the width of \<^verbatim>\<open>int\<close>
  that the model of \<^verbatim>\<open>atoi\<close> is used with.
\<close>

section \<open>The platform\<close>

text \<open>
  The driver is written for 32-bit microcontrollers: \<^verbatim>\<open>int\<close> has 32 bits.
\<close>

definition int_bits :: nat where
  "int_bits = 32"

section \<open>Formatting a command and sending it\<close>

text \<open>
  A command that fits the array is sent as formatted; the array afterwards
  holds the command and its terminator, the response buffer what the transport
  stored.
\<close>

lemma formatted_call:
  assumes fmt: "format_c fmt args = Inr c" and nul: "NUL \<notin> set c"
    and fits: "length c < n" "n \<le> length buf" and sz: "sz \<le> length rb"
    and tr: "tr (dev w) c (take sz rb) t = (resp, d)"
  shows "ebind (snprintf_c buf n fmt args)
           (\<lambda>(buf, k). ebind (wisol_sigfox__serial_sync tr buf rb sz t w) (f buf)) =
         f (c @ NUL # drop (Suc (length c)) buf) (deliver rb sz resp, record_call w d c sz t)"
proof -
  have "snprintf_c buf n fmt args = Inr (c @ NUL # drop (Suc (length c)) buf, length c)"
    using fmt fits by (intro snprintf_c_fits) simp_all
  moreover have "wisol_sigfox__serial_sync tr (c @ NUL # drop (Suc (length c)) buf) rb sz t w =
      Inr (deliver rb sz resp, record_call w d c sz t)"
    using nul tr sz by (rule serial_sync_lit)
  ultimately show ?thesis
    by simp
qed

text \<open>The same for an operation that ignores the response.\<close>

lemma formatted_call_world:
  assumes "format_c fmt args = Inr c" "NUL \<notin> set c" "length c < n" "n \<le> length buf"
    and "sz \<le> length rb" and "tr (dev w) c (take sz rb) t = (resp, d)"
  shows "ebind (snprintf_c buf n fmt args)
           (\<lambda>(buf, k). ebind (wisol_sigfox__serial_sync tr buf rb sz t w) (\<lambda>(rb, w). Inr w)) =
         Inr (record_call w d c sz t)"
  using formatted_call [where tr = tr and w = w and f = "\<lambda>buf (rb, w). Inr w", OF assms] by simp

section \<open>Decimal texts\<close>

lemma utoa_302 [simp]: "utoa 302 = ''302''"
  by (simp add: utoa_ge)

lemma utoa_byte_length: "length (utoa (unat (b :: byte))) \<le> 3"
  by (rule length_utoa) (simp_all add: less_trans [OF unat_byte_less])

end
