(* ===== verification/Driver_Status.thy ===== *)
theory Driver_Status
  imports C_String Transport Commands
begin

text \<open>
  The readiness check of the driver, \<^verbatim>\<open>wisol_sigfox__ready\<close> in
  \<^verbatim>\<open>src/wisol_sigfox.c\<close>: it sends the command \<^verbatim>\<open>AT\<close> with the default timeout
  and compares the response buffer with \<^verbatim>\<open>"OK"\<close>.

  The response buffer is an automatic array of \<open>DEFAULT_BUF_SZ\<close> characters that
  the function does not initialise: what it holds before the call is the stale
  content \<open>st\<close> of the stack. The outcome of the comparison is \<open>starts_OK\<close>; it is the comparison
  \<^verbatim>\<open>wisol_sigfox__send_frame\<close> makes too, with the arguments of \<^verbatim>\<open>strncmp\<close> in the
  other order.

  The lemmas show that the check never leaves its arrays, that it sends exactly
  one command, and what it returns: it reads the first three elements of the
  buffer and no others.
\<close>

section \<open>The operation\<close>

definition wisol_sigfox__ready :: "'d transport \<Rightarrow> stale \<Rightarrow> 'd world \<Rightarrow> (bool \<times> 'd world) res" where
  "wisol_sigfox__ready tr st w =
     (let buf = local_buf st 0 DEFAULT_BUF_SZ in
      ebind (command CMD_STATUS) (\<lambda>cmd.
      ebind (wisol_sigfox__serial_sync tr (lit cmd) buf DEFAULT_BUF_SZ
               WISOL_SIGFOX_DEFAULT_TIMEOUT w) (\<lambda>(buf, w).
      ebind (strncmp_c (lit ''OK'') buf DEFAULT_BUF_SZ) (\<lambda>r.
      Inr (r = 0, w)))))"

section \<open>The comparison with OK\<close>

text \<open>What the comparison decides: whether the array starts with \<open>O\<close>, \<open>K\<close>, \<open>NUL\<close>.\<close>

definition starts_OK :: "cbuf \<Rightarrow> bool" where
  "starts_OK buf \<longleftrightarrow> take 3 buf = lit ''OK''"

lemma strncmp_OK_left:
  "2 < length buf \<Longrightarrow> 2 < n \<Longrightarrow>
   ebind (strncmp_c (lit ''OK'') buf n) (\<lambda>r. Inr (r = 0, w)) = Inr (starts_OK buf, w)"
  using strncmp_c_lit [of "''OK''" n buf] by (auto simp: starts_OK_def numeral_3_eq_3)

lemma strncmp_OK_right:
  "2 < length buf \<Longrightarrow> 2 < n \<Longrightarrow>
   ebind (strncmp_c buf (lit ''OK'') n) (\<lambda>r. Inr (r = 0, w)) = Inr (starts_OK buf, w)"
  using strncmp_c_lit_right [of "''OK''" n buf] by (auto simp: starts_OK_def numeral_3_eq_3)

lemma starts_OK_iff_c_str: "starts_OK buf \<longleftrightarrow> c_str buf = Inr ''OK''"
  using take_eq_lit_iff_c_str [of "''OK''" buf] by (simp add: starts_OK_def numeral_3_eq_3)

lemma starts_OK_deliver_terminated:
  "NUL \<notin> set r \<Longrightarrow> length r < sz \<Longrightarrow> starts_OK (deliver buf sz (r @ NUL # x)) \<longleftrightarrow> r = ''OK''"
  by (auto simp: starts_OK_iff_c_str deliver_terminated)

section \<open>Properties of the readiness check\<close>

lemma ready_unfold:
  assumes "tr (dev w) ''AT'' (local_buf st 0 32) 100 = (resp, d)"
  shows "wisol_sigfox__ready tr st w =
           Inr (starts_OK (deliver (local_buf st 0 32) 32 resp), record_call w d ''AT'' 32 100)"
proof -
  have "wisol_sigfox__serial_sync tr (lit ''AT'') (local_buf st 0 32) 32 100 w =
          Inr (deliver (local_buf st 0 32) 32 resp, record_call w d ''AT'' 32 100)"
    unfolding lit_def using assms by (intro serial_sync_lit) simp_all
  then show ?thesis
    by (simp add: wisol_sigfox__ready_def DEFAULT_BUF_SZ_def WISOL_SIGFOX_DEFAULT_TIMEOUT_def
        strncmp_OK_left)
qed


text \<open>
  For every transport, every stale content of the stack and every state of
  the world, the readiness check returns a result: it reads and writes inside
  its arrays only, whatever the transport stores in the response buffer.
\<close>

lemma ready_never_fails: "is_ok (wisol_sigfox__ready tr st w)"
  by (cases "tr (dev w) ''AT'' (local_buf st 0 32) 100") (simp add: ready_unfold)

text \<open>
  C4: When the transport stores a terminated response that fits the buffer,
  the readiness check returns true if and only if the response is exactly
  \<open>OK\<close>; it has then sent the one command \<open>AT\<close>, with the size of the buffer
  and the default timeout of 100 ms.
\<close>

theorem ready_iff_OK:
  assumes "tr (dev w) ''AT'' (local_buf st 0 32) 100 = (r @ NUL # x, d)"
    and "NUL \<notin> set r" and "length r < 32"
  shows "wisol_sigfox__ready tr st w = Inr (r = ''OK'', record_call w d ''AT'' 32 100)"
  using assms by (simp add: ready_unfold starts_OK_deliver_terminated)

theorem ready_iff_OK_witness:
  "wisol_sigfox__ready (scripted (\<lambda>c. lit ''OK'')) (\<lambda>i. CHR ''x'') world0
     = Inr (True, record_call world0 1 ''AT'' 32 100)
   \<and> wisol_sigfox__ready (scripted (\<lambda>c. lit ''ok'')) (\<lambda>i. CHR ''x'') world0
     = Inr (False, record_call world0 1 ''AT'' 32 100)
   \<and> wisol_sigfox__ready (scripted (\<lambda>c. lit ''OK '')) (\<lambda>i. CHR ''x'') world0
     = Inr (False, record_call world0 1 ''AT'' 32 100)"
  using ready_iff_OK [of "scripted (\<lambda>c. lit ''OK'')" world0 "\<lambda>i. CHR ''x''" "''OK''" "[]" 1]
    ready_iff_OK [of "scripted (\<lambda>c. lit ''ok'')" world0 "\<lambda>i. CHR ''x''" "''ok''" "[]" 1]
    ready_iff_OK [of "scripted (\<lambda>c. lit ''OK '')" world0 "\<lambda>i. CHR ''x''" "''OK ''" "[]" 1]
  by (simp add: lit_def)

text \<open>
  C34: A transport that stores fewer than three characters and no terminator
  makes the result depend on what the stack held before the call: the
  comparison reads the stale elements of the uninitialised buffer that follow
  the response. After \<open>OK\<close> without terminator the readiness check returns true
  if and only if the third element happened to be \<open>NUL\<close>; when nothing was
  stored, as after a timeout, it returns true if and only if the stack held
  \<open>OK\<close> and a terminator there.
\<close>

theorem ready_reads_stale_stack:
  assumes "tr (dev w) ''AT'' (local_buf st 0 32) 100 = (r, d)" and "length r < 3"
  shows "wisol_sigfox__ready tr st w =
           Inr (r @ map st [length r..<3] = lit ''OK'', record_call w d ''AT'' 32 100)"
proof -
  from assms(2) have "take 3 (deliver (local_buf st 0 32) 32 r) = r @ map st [length r..<3]"
    by (simp add: deliver_def local_buf_def take_map drop_map)
  then show ?thesis
    using assms(1) by (simp add: ready_unfold starts_OK_def)
qed

theorem ready_reads_stale_stack_witness:
  "wisol_sigfox__ready (scripted (\<lambda>c. ''OK'')) (\<lambda>i. CHR ''x'') world0
     = Inr (False, record_call world0 1 ''AT'' 32 100)
   \<and> wisol_sigfox__ready (scripted (\<lambda>c. ''OK'')) (\<lambda>i. NUL) world0
     = Inr (True, record_call world0 1 ''AT'' 32 100)
   \<and> wisol_sigfox__ready (scripted (\<lambda>c. []))
       (\<lambda>i. if i = 0 then CHR ''O'' else if i = 1 then CHR ''K'' else NUL) world0
     = Inr (True, record_call world0 1 ''AT'' 32 100)"
  using ready_reads_stale_stack [of "scripted (\<lambda>c. ''OK'')" world0 "\<lambda>i. CHR ''x''" "''OK''" 1]
    ready_reads_stale_stack [of "scripted (\<lambda>c. ''OK'')" world0 "\<lambda>i. NUL" "''OK''" 1]
    ready_reads_stale_stack [of "scripted (\<lambda>c. [])" world0
      "\<lambda>i. if i = 0 then CHR ''O'' else if i = 1 then CHR ''K'' else NUL" "[]" 1]
  by (simp add: lit_def upt_rec numeral_3_eq_3 numeral_2_eq_2)

end
