(* ===== verification/Driver_Frame.thy ===== *)
theory Driver_Frame
  imports C_Format Transport Commands Driver_Status
begin

text \<open>
  Frame transmission, \<^verbatim>\<open>wisol_sigfox__send_frame\<close> in \<^verbatim>\<open>src/wisol_sigfox.c\<close>: the
  payload is turned into hexadecimal text, the command \<^verbatim>\<open>AT$SF=\<close> is built
  from it and from the downlink flag, sent with a timeout of 20 s, and the
  response is compared with \<^verbatim>\<open>"OK"\<close>.

  \<^item> \<open>hex_byte\<close> and \<open>payload_hex\<close> say what the hexadecimal text of a payload
    is; \<open>hex_decode\<close> reads such a text back. They are the reference the loop
    of the code is compared with.
  \<^item> \<open>hex_loop\<close> is the loop of the code: for each index below
    \<^verbatim>\<open>payload_size\<close> it reads a byte of the payload and lets \<^verbatim>\<open>sprintf\<close> write
    two digits and a terminator at the write position, which then moves on by
    what \<^verbatim>\<open>sprintf\<close> returned. The payload is an array of its own length and
    \<^verbatim>\<open>payload_size\<close> a separate argument, as in C.
  \<^item> \<open>wisol_sigfox__send_frame\<close> is the function, with its three automatic
    arrays: the command buffer of 56 characters at offset 0 of the frame, the
    hexadecimal text of 25 characters at offset 56 and the response buffer of
    32 characters at offset 81. None of them is initialised by the code.
\<close>

section \<open>The hexadecimal text of a payload\<close>

definition hex_byte :: "byte \<Rightarrow> string" where
  "hex_byte b = [hex_char (unat b div 16), hex_char (unat b mod 16)]"

definition payload_hex :: "byte list \<Rightarrow> string" where
  "payload_hex bs = concat (map hex_byte bs)"

definition is_upper_hex :: "char \<Rightarrow> bool" where
  "is_upper_hex c \<longleftrightarrow> c \<in> set ''0123456789ABCDEF''"

definition hex_digit_val :: "char \<Rightarrow> nat option" where
  "hex_digit_val c =
     (if (48::nat) \<le> of_char c \<and> (of_char c :: nat) \<le> 57 then Some (of_char c - 48)
      else if (65::nat) \<le> of_char c \<and> (of_char c :: nat) \<le> 70 then Some (of_char c - 55)
      else None)"

fun hex_decode :: "string \<Rightarrow> byte list option" where
  "hex_decode [] = Some []"
| "hex_decode [c] = None"
| "hex_decode (c # d # r) =
     (case (hex_digit_val c, hex_digit_val d, hex_decode r) of
        (Some h, Some l, Some bs) \<Rightarrow> Some (of_nat (16 * h + l) # bs)
      | _ \<Rightarrow> None)"

text \<open>The command line for a hexadecimal text and a downlink flag.\<close>

definition frame_command :: "string \<Rightarrow> bool \<Rightarrow> string" where
  "frame_command h downlink_flag = ''AT$SF='' @ h @ (if downlink_flag then '',1'' else [])"

section \<open>The loop\<close>

function hex_loop :: "byte list \<Rightarrow> nat \<Rightarrow> nat \<Rightarrow> nat \<Rightarrow> cbuf \<Rightarrow> cbuf res" where
  "hex_loop p_payload_buf payload_size i p_buf payload_buf =
     (if i < payload_size then
        if i < length p_payload_buf then
          ebind (sprintf_c payload_buf p_buf ''%02X'' [Arg_int (ucast (p_payload_buf ! i))])
            (\<lambda>(payload_buf, n).
               hex_loop p_payload_buf payload_size (Suc i) (p_buf + n) payload_buf)
        else Inl Read_Overrun
      else Inr payload_buf)"
  by pat_completeness auto
termination
  by (relation "measure (\<lambda>(p, sz, i, p_buf, buf). sz - i)") auto

declare hex_loop.simps [simp del]

section \<open>The operation\<close>

definition wisol_sigfox__send_frame ::
  "'d transport \<Rightarrow> stale \<Rightarrow> byte list \<Rightarrow> nat \<Rightarrow> bool \<Rightarrow> 'd world \<Rightarrow> (bool \<times> 'd world) res" where
  "wisol_sigfox__send_frame tr st p_payload_buf payload_size downlink_flag w =
     (let buf = local_buf st 0 (24 + DEFAULT_BUF_SZ);
          payload_buf = local_buf st 56 25
      in if payload_size > 12 then Inr (False, w)
         else
           ebind (hex_loop p_payload_buf payload_size 0 0 payload_buf) (\<lambda>payload_buf.
           ebind (command CMD_SEND_FRAME) (\<lambda>fmt.
           ebind (snprintf_c buf (24 + DEFAULT_BUF_SZ) fmt
                    [Arg_ptr payload_buf, Arg_ptr (lit (if downlink_flag then '',1'' else []))])
             (\<lambda>(buf, s).
           let buf_res = local_buf st 81 DEFAULT_BUF_SZ in
           ebind (wisol_sigfox__serial_sync tr buf buf_res DEFAULT_BUF_SZ 20000 w)
             (\<lambda>(buf_res, w).
           ebind (strncmp_c buf_res (lit ''OK'') DEFAULT_BUF_SZ) (\<lambda>r.
           Inr (r = 0, w)))))))"

section \<open>Lemmas on the hexadecimal text\<close>

lemma length_hex_byte [simp]: "length (hex_byte b) = 2"
  by (simp add: hex_byte_def)

lemma length_payload_hex [simp]: "length (payload_hex bs) = 2 * length bs"
  by (induction bs) (simp_all add: payload_hex_def)

lemma payload_hex_simps [simp]:
  "payload_hex [] = []"
  "payload_hex (b # bs) = hex_byte b @ payload_hex bs"
  by (simp_all add: payload_hex_def)

lemma payload_hex_append [simp]: "payload_hex (xs @ ys) = payload_hex xs @ payload_hex ys"
  by (simp add: payload_hex_def)

lemma is_upper_hex_hex_char: "d < 16 \<Longrightarrow> is_upper_hex (hex_char d)"
proof -
  assume "d < 16"
  then have "d \<in> set [0..<16]"
    by simp
  then show ?thesis
    unfolding is_upper_hex_def hex_char_def
    by (simp add: upt_rec) (elim disjE; simp; code_simp)
qed

lemma hex_byte_upper: "\<forall>c \<in> set (hex_byte b). is_upper_hex c"
  by (simp add: hex_byte_def is_upper_hex_hex_char)

lemma payload_hex_upper: "\<forall>c \<in> set (payload_hex bs). is_upper_hex c"
  by (induction bs) (auto simp: hex_byte_upper)

lemma NUL_not_upper_hex [simp]: "\<not> is_upper_hex NUL"
  by (simp add: is_upper_hex_def)

lemma NUL_notin_payload_hex [simp]: "NUL \<notin> set (payload_hex bs)"
  using payload_hex_upper [of bs] by auto

lemma hex_digit_val_hex_char: "d < 16 \<Longrightarrow> hex_digit_val (hex_char d) = Some d"
  by (auto simp: hex_digit_val_def hex_char_def)

lemma hex_decode_hex_byte: "hex_decode (hex_byte b @ r) = map_option ((#) b) (hex_decode r)"
proof -
  have "(of_nat (16 * (unat b div 16) + unat b mod 16) :: byte) = of_nat (unat b)"
    by (simp only: mult_div_mod_eq)
  then have "(of_nat (16 * (unat b div 16) + unat b mod 16) :: byte) = b"
    by simp
  then show ?thesis
    by (cases "hex_decode r") (simp_all add: hex_byte_def hex_digit_val_hex_char del: of_nat_add of_nat_mult)
qed


section \<open>Lemmas on the loop\<close>

lemma format_02X_byte: "format_c ''%02X'' [Arg_int (ucast (b :: byte))] = Inr (hex_byte b)"
  by (simp add: zero_pad_utox_byte hex_byte_def)

lemma sprintf_02X_byte:
  "sprintf_c buf off ''%02X'' [Arg_int (ucast (b :: byte))] =
     ebind (poke buf off (hex_byte b @ [NUL])) (\<lambda>buf'. Inr (buf', 2))"
  unfolding sprintf_c_def format_02X_byte ebind_Inr by simp

lemma hex_loop_done [simp]:
  "payload_size \<le> i \<Longrightarrow> hex_loop p payload_size i p_buf buf = Inr buf"
  by (simp add: hex_loop.simps)

lemma hex_loop_step:
  "i < payload_size \<Longrightarrow> i < length p \<Longrightarrow>
   hex_loop p payload_size i p_buf buf =
     ebind (poke buf p_buf (hex_byte (p ! i) @ [NUL]))
       (\<lambda>buf'. hex_loop p payload_size (Suc i) (p_buf + 2) buf')"
  by (subst hex_loop.simps) (simp add: sprintf_02X_byte ebind_assoc)

lemma hex_loop_reads_past_payload:
  "i < payload_size \<Longrightarrow> length p \<le> i \<Longrightarrow> hex_loop p payload_size i p_buf buf = Inl Read_Overrun"
  by (subst hex_loop.simps) simp

text \<open>
  The loop is one write of the hexadecimal text of the bytes it visits,
  followed by a terminator, at the position where it starts.
\<close>

lemma hex_loop_eq_poke:
  "i < payload_size \<Longrightarrow> payload_size \<le> length p \<Longrightarrow>
   hex_loop p payload_size i p_buf buf =
     poke buf p_buf (payload_hex (drop i (take payload_size p)) @ [NUL])"
proof (induction p payload_size i p_buf buf rule: hex_loop.induct)
  case (1 p sz i p_buf buf)
  from "1.prems" have i: "i < length p" "i < length (take sz p)"
    by simp_all
  have cons: "drop i (take sz p) = p ! i # drop (Suc i) (take sz p)"
    using Cons_nth_drop_Suc [OF i(2)] "1.prems" by simp
  show ?case
  proof (cases "Suc i < sz")
    case False
    with "1.prems" have "drop (Suc i) (take sz p) = []"
      by simp
    with False "1.prems" i show ?thesis
      by (simp add: hex_loop_step cons)
  next
    case True
    have "ebind (poke buf p_buf (hex_byte (p ! i) @ [NUL]))
            (\<lambda>buf'. hex_loop p sz (Suc i) (p_buf + 2) buf') =
          ebind (poke buf p_buf (hex_byte (p ! i) @ [NUL]))
            (\<lambda>buf'. poke buf' (p_buf + length (hex_byte (p ! i)))
                       (payload_hex (drop (Suc i) (take sz p)) @ [NUL]))"
    proof (rule ebind_cong [OF refl])
      fix buf'
      assume "poke buf p_buf (hex_byte (p ! i) @ [NUL]) = Inr buf'"
      then have "sprintf_c buf p_buf ''%02X'' [Arg_int (ucast (p ! i))] = Inr (buf', 2)"
        by (simp add: sprintf_02X_byte)
      from "1.IH" [OF "1.prems"(1) i(1) this refl True "1.prems"(2)]
      show "hex_loop p sz (Suc i) (p_buf + 2) buf' =
            poke buf' (p_buf + length (hex_byte (p ! i)))
              (payload_hex (drop (Suc i) (take sz p)) @ [NUL])"
        by simp
    qed
    then show ?thesis
      using "1.prems" i
        poke_extend [of "payload_hex (drop (Suc i) (take sz p)) @ [NUL]" buf p_buf
          "hex_byte (p ! i)" NUL]
      by (simp add: hex_loop_step cons)
  qed
qed

lemma hex_loop_from_start:
  "0 < payload_size \<Longrightarrow> payload_size \<le> length p \<Longrightarrow>
   hex_loop p payload_size 0 0 buf = poke buf 0 (payload_hex (take payload_size p) @ [NUL])"
  using hex_loop_eq_poke [of 0 payload_size p 0 buf] by simp

section \<open>Lemmas on the operation\<close>

lemma length_frame_command: "length (frame_command h dl) \<le> length h + 8"
  by (simp add: frame_command_def)

lemma NUL_notin_frame_command: "NUL \<notin> set h \<Longrightarrow> NUL \<notin> set (frame_command h dl)"
  by (simp add: frame_command_def)

lemma format_send_frame:
  "c_str pb = Inr h \<Longrightarrow>
   format_c ''AT$SF=%s%s'' [Arg_ptr pb, Arg_ptr (lit (if dl then '',1'' else []))] =
     Inr (frame_command h dl)"
  by (simp add: frame_command_def c_str_lit)

text \<open>
  What the function does once the array \<open>pb\<close> of the hexadecimal text holds
  the string \<open>h\<close> of at most 24 characters.
\<close>

lemma send_frame_after_loop:
  assumes pb: "c_str pb = Inr h" and len: "length h \<le> 24"
    and tr: "tr (dev w) (frame_command h dl) (local_buf st 81 32) 20000 = (resp, d)"
  shows "ebind (snprintf_c (local_buf st 0 56) 56 ''AT$SF=%s%s''
                 [Arg_ptr pb, Arg_ptr (lit (if dl then '',1'' else []))]) (\<lambda>(buf, s).
         ebind (wisol_sigfox__serial_sync tr buf (local_buf st 81 32) 32 20000 w) (\<lambda>(buf_res, w).
         ebind (strncmp_c buf_res (lit ''OK'') 32) (\<lambda>r. Inr (r = 0, w)))) =
         Inr (starts_OK (deliver (local_buf st 81 32) 32 resp),
              record_call w d (frame_command h dl) 32 20000)"
proof -
  let ?c = "frame_command h dl"
  have fits: "length ?c < 56"
    using length_frame_command [of h dl] len by simp
  have nul: "NUL \<notin> set ?c"
    using c_str_no_NUL [OF pb] by (rule NUL_notin_frame_command)
  have "snprintf_c (local_buf st 0 56) 56 ''AT$SF=%s%s''
          [Arg_ptr pb, Arg_ptr (lit (if dl then '',1'' else []))] =
        Inr (?c @ NUL # drop (Suc (length ?c)) (local_buf st 0 56), length ?c)"
    using format_send_frame [OF pb] fits by (intro snprintf_c_fits) simp_all
  moreover have "wisol_sigfox__serial_sync tr
          (?c @ NUL # drop (Suc (length ?c)) (local_buf st 0 56)) (local_buf st 81 32) 32 20000 w =
        Inr (deliver (local_buf st 81 32) 32 resp, record_call w d ?c 32 20000)"
    using nul tr by (intro serial_sync_lit) simp_all
  ultimately show ?thesis
    by (simp add: strncmp_OK_right)
qed

text \<open>
  The string the array of the hexadecimal text holds after the loop: the text
  of the payload, or for an empty payload whatever string the stack held.
\<close>

definition hex_text :: "stale \<Rightarrow> byte list \<Rightarrow> nat \<Rightarrow> string res" where
  "hex_text st p payload_size =
     (if payload_size = 0 then c_str (local_buf st 56 25)
      else Inr (payload_hex (take payload_size p)))"

lemma hex_loop_c_str:
  assumes "payload_size \<le> 12" "payload_size \<le> length p"
  shows "ebind (hex_loop p payload_size 0 0 (local_buf st 56 25)) c_str = hex_text st p payload_size"
proof (cases "payload_size = 0")
  case True
  then show ?thesis
    by (simp add: hex_text_def)
next
  case False
  with assms have "hex_loop p payload_size 0 0 (local_buf st 56 25) =
      Inr (payload_hex (take payload_size p) @ NUL # drop (2 * payload_size + 1) (local_buf st 56 25))"
    by (simp add: hex_loop_from_start poke_def)
  with False show ?thesis
    by (simp add: hex_text_def c_str_terminated)
qed

lemma hex_text_length:
  "payload_size \<le> 12 \<Longrightarrow> payload_size \<le> length p \<Longrightarrow> hex_text st p payload_size = Inr h \<Longrightarrow>
   length h \<le> 24"
  by (auto simp: hex_text_def dest: c_str_shorter split: if_splits)

lemma send_frame_unfold:
  assumes sz: "payload_size \<le> 12" "payload_size \<le> length p"
    and h: "hex_text st p payload_size = Inr h"
    and tr: "tr (dev w) (frame_command h dl) (local_buf st 81 32) 20000 = (resp, d)"
  shows "wisol_sigfox__send_frame tr st p payload_size dl w =
           Inr (starts_OK (deliver (local_buf st 81 32) 32 resp),
                record_call w d (frame_command h dl) 32 20000)"
proof -
  from hex_loop_c_str [OF sz, of st] h
  obtain pb where pb: "hex_loop p payload_size 0 0 (local_buf st 56 25) = Inr pb" "c_str pb = Inr h"
    by (auto simp: ebind_eq_Inr_iff)
  from send_frame_after_loop [where tr = tr and w = w, OF pb(2) hex_text_length [OF sz h] tr]
    sz(1) pb(1)
  show ?thesis
    by (simp add: wisol_sigfox__send_frame_def DEFAULT_BUF_SZ_def)
qed

section \<open>When the operation returns\<close>

lemma hex_loop_short_payload:
  "length p < payload_size \<Longrightarrow> i \<le> length p \<Longrightarrow> \<not> is_ok (hex_loop p payload_size i p_buf buf)"
proof (induction p payload_size i p_buf buf rule: hex_loop.induct)
  case (1 p sz i p_buf buf)
  show ?case
  proof (cases "i < length p")
    case True
    with "1.prems" "1.IH" show ?thesis
      by (subst hex_loop.simps) (auto simp: is_ok_ebind)
  next
    case False
    with "1.prems" show ?thesis
      by (simp add: hex_loop_reads_past_payload)
  qed
qed

text \<open>
  A call that returns has either refused the payload, without a transport call,
  or sent the frame command of the string in the array of the hexadecimal
  text.
\<close>

lemma send_frame_Inr:
  assumes "wisol_sigfox__send_frame tr st p n dl w = Inr (b, w')"
  shows "(12 < n \<and> w' = w) \<or>
         (n \<le> 12 \<and> (\<exists>h d. hex_text st p n = Inr h \<and> w' = record_call w d (frame_command h dl) 32 20000))"
proof (cases "12 < n")
  case True
  with assms show ?thesis
    by (simp add: wisol_sigfox__send_frame_def)
next
  case False
  then have n: "n \<le> 12"
    by simp
  have len: "n \<le> length p"
  proof (rule ccontr)
    assume "\<not> n \<le> length p"
    then have "\<not> is_ok (hex_loop p n 0 0 (local_buf st 56 25))"
      by (intro hex_loop_short_payload) simp_all
    with assms n show False
      by (auto simp: wisol_sigfox__send_frame_def ebind_eq_Inr_iff)
  qed
  from assms n obtain pb h where "hex_loop p n 0 0 (local_buf st 56 25) = Inr pb" "c_str pb = Inr h"
    by (auto simp: wisol_sigfox__send_frame_def snprintf_c_def ebind_eq_Inr_iff)
  with hex_loop_c_str [OF n len, of st] have h: "hex_text st p n = Inr h"
    by simp
  obtain resp d where "tr (dev w) (frame_command h dl) (local_buf st 81 32) 20000 = (resp, d)"
    by (cases "tr (dev w) (frame_command h dl) (local_buf st 81 32) 20000")
  from send_frame_unfold [where tr = tr and w = w, OF n len h this] assms n h show ?thesis
    by auto
qed

section \<open>Properties of the hexadecimal conversion\<close>

lemma hex_decode_payload_hex: "hex_decode (payload_hex bs) = Some bs"
  by (induction bs) (simp_all add: hex_decode_hex_byte)

lemma hex_byte_examples [simp]:
  "hex_byte 1 = ''01''" "hex_byte 2 = ''02''" "hex_byte 171 = ''AB''"
  by code_simp+

text \<open>
  C19: The loop of \<^verbatim>\<open>wisol_sigfox__send_frame\<close> is equivalent to one write of the
  reference text: started at the beginning of the array with a nonempty
  payload, it stores the hexadecimal text of the first \<open>payload_size\<close> bytes,
  in payload order, and a terminating \<open>NUL\<close>, and fails exactly when that write
  does not fit the array.
\<close>

theorem hex_loop_is_payload_hex:
  assumes "0 < payload_size" and "payload_size \<le> length p"
  shows "hex_loop p payload_size 0 0 buf =
           poke buf 0 (payload_hex (take payload_size p) @ [NUL])"
  using assms by (rule hex_loop_from_start)

theorem hex_loop_is_payload_hex_witness:
  "hex_loop [0x01, 0x02, 0xAB] 3 0 0 (replicate 8 (CHR ''x'')) = Inr (lit ''0102AB'' @ ''x'')"
  using hex_loop_is_payload_hex [of 3 "[0x01, 0x02, 0xAB]" "replicate 8 (CHR ''x'')"]
  by (simp add: poke_def lit_def numeral_eq_Suc)

text \<open>
  C3: For a nonempty payload, the text the loop leaves in the array has two
  characters for each byte, consists of the digits 0 to 9 and the capital
  letters A to F only, and decodes to the bytes it was made from.
\<close>

theorem hex_loop_roundtrip:
  assumes "0 < payload_size" and "payload_size \<le> length p" and "2 * payload_size < length buf"
  shows "\<exists>h. ebind (hex_loop p payload_size 0 0 buf) c_str = Inr h
             \<and> length h = 2 * payload_size
             \<and> (\<forall>c \<in> set h. is_upper_hex c)
             \<and> hex_decode h = Some (take payload_size p)"
proof -
  let ?h = "payload_hex (take payload_size p)"
  from assms have "hex_loop p payload_size 0 0 buf = Inr (?h @ NUL # drop (2 * payload_size + 1) buf)"
    by (simp add: hex_loop_from_start poke_def)
  then have "ebind (hex_loop p payload_size 0 0 buf) c_str = Inr ?h"
    by (simp add: c_str_terminated)
  with assms(2) show ?thesis
    using payload_hex_upper [of "take payload_size p"]
    by (simp add: hex_decode_payload_hex min_def)
qed

theorem hex_loop_roundtrip_witness:
  "\<exists>h. ebind (hex_loop [0x01, 0x02, 0xAB] 3 0 0 (replicate 25 NUL)) c_str = Inr h
       \<and> length h = 2 * 3
       \<and> (\<forall>c \<in> set h. is_upper_hex c)
       \<and> hex_decode h = Some (take 3 [0x01, 0x02, 0xAB])"
  using hex_loop_roundtrip [of 3 "[0x01, 0x02, 0xAB]" "replicate 25 NUL"] by simp

text \<open>
  C27: The loop stays inside the array of the hexadecimal text exactly when the
  array has room for two characters for each byte and the terminator. For the
  array of 25 characters of \<^verbatim>\<open>wisol_sigfox__send_frame\<close> this is the bound of 12
  bytes that the function checks.
\<close>

theorem hex_loop_fits_iff:
  assumes "0 < payload_size" and "payload_size \<le> length p"
  shows "is_ok (hex_loop p payload_size 0 0 buf) \<longleftrightarrow> 2 * payload_size < length buf"
  using assms by (auto simp: hex_loop_from_start is_ok_poke)

theorem hex_loop_fits_iff_witness:
  "is_ok (hex_loop (replicate 13 0) 12 0 0 (replicate 25 NUL))
   \<and> \<not> is_ok (hex_loop (replicate 13 0) 13 0 0 (replicate 25 NUL))"
  using hex_loop_fits_iff [of 12 "replicate 13 0" "replicate 25 NUL"]
    hex_loop_fits_iff [of 13 "replicate 13 0" "replicate 25 NUL"]
  by simp

section \<open>Properties of frame transmission\<close>

text \<open>
  C2: The function refuses a frame, returning false without a call of the
  transport and with the world unchanged, if and only if the payload size is
  above 12.
\<close>

theorem send_frame_rejects_oversized:
  "wisol_sigfox__send_frame tr st p payload_size downlink_flag w = Inr (False, w)
     \<longleftrightarrow> 12 < payload_size"
proof
  assume "wisol_sigfox__send_frame tr st p payload_size downlink_flag w = Inr (False, w)"
  from send_frame_Inr [OF this] show "12 < payload_size"
  proof
    assume "payload_size \<le> 12 \<and>
      (\<exists>h d. hex_text st p payload_size = Inr h
         \<and> w = record_call w d (frame_command h downlink_flag) 32 20000)"
    then obtain h d where "w = record_call w d (frame_command h downlink_flag) 32 20000"
      by blast
    then have "calls w = calls (record_call w d (frame_command h downlink_flag) 32 20000)"
      by simp
    then show ?thesis
      by simp
  qed simp
next
  assume "12 < payload_size"
  then show "wisol_sigfox__send_frame tr st p payload_size downlink_flag w = Inr (False, w)"
    by (simp add: wisol_sigfox__send_frame_def)
qed

theorem send_frame_rejects_oversized_witness:
  "wisol_sigfox__send_frame (scripted (\<lambda>c. lit ''OK'')) (\<lambda>i. CHR ''x'') (replicate 13 0) 13 True world0
     = Inr (False, world0)
   \<and> wisol_sigfox__send_frame (scripted (\<lambda>c. lit ''ERROR'')) (\<lambda>i. CHR ''x'') (replicate 12 0) 12 True
       world0 \<noteq> Inr (False, world0)"
  using send_frame_rejects_oversized
    [of "scripted (\<lambda>c. lit ''OK'')" "\<lambda>i. CHR ''x''" "replicate 13 0" 13 True world0]
    send_frame_rejects_oversized
    [of "scripted (\<lambda>c. lit ''ERROR'')" "\<lambda>i. CHR ''x''" "replicate 12 0" 12 True world0]
  by simp

text \<open>
  C1: For a payload of 1 to 12 bytes, the function sends exactly one command,
  \<^verbatim>\<open>AT$SF=\<close> followed by the hexadecimal text of the payload and by \<^verbatim>\<open>,1\<close> if
  the downlink flag is set, with a response buffer of 32 characters and a
  timeout of 20000 ms; when the transport stores a terminated response, the
  function returns true if and only if that response is exactly \<open>OK\<close>.
\<close>

theorem send_frame_sends_hex:
  assumes "0 < payload_size" and "payload_size \<le> 12" and "payload_size \<le> length p"
    and "tr (dev w) (frame_command (payload_hex (take payload_size p)) downlink_flag)
           (local_buf st 81 32) 20000 = (r @ NUL # x, d)"
    and "NUL \<notin> set r" and "length r < 32"
  shows "wisol_sigfox__send_frame tr st p payload_size downlink_flag w =
           Inr (r = ''OK'',
                record_call w d (frame_command (payload_hex (take payload_size p)) downlink_flag)
                  32 20000)"
proof -
  from assms(1) have "hex_text st p payload_size = Inr (payload_hex (take payload_size p))"
    by (simp add: hex_text_def)
  from send_frame_unfold [where tr = tr and w = w, OF assms(2,3) this assms(4)] assms(5,6)
  show ?thesis
    by (simp add: starts_OK_deliver_terminated)
qed

theorem send_frame_sends_hex_witness:
  "wisol_sigfox__send_frame (scripted (\<lambda>c. lit ''OK'')) (\<lambda>i. CHR ''x'') [0x01, 0x02, 0xAB] 3 True world0
     = Inr (True, record_call world0 1 ''AT$SF=0102AB,1'' 32 20000)"
  using send_frame_sends_hex [of 3 "[0x01, 0x02, 0xAB]" "scripted (\<lambda>c. lit ''OK'')" world0 True
      "\<lambda>i. CHR ''x''" "''OK''" "[]" 1]
  by (simp add: frame_command_def lit_def)

text \<open>
  For a payload of 1 to 12 bytes the function returns a result, whatever the
  stack held and whatever the transport stores: it reads and writes inside its
  arrays only.
\<close>

lemma send_frame_never_fails:
  assumes "0 < payload_size" and "payload_size \<le> 12" and "payload_size \<le> length p"
  shows "is_ok (wisol_sigfox__send_frame tr st p payload_size downlink_flag w)"
proof -
  from assms(1) have h: "hex_text st p payload_size = Inr (payload_hex (take payload_size p))"
    by (simp add: hex_text_def)
  obtain resp d where
    "tr (dev w) (frame_command (payload_hex (take payload_size p)) downlink_flag)
       (local_buf st 81 32) 20000 = (resp, d)"
    by (cases "tr (dev w) (frame_command (payload_hex (take payload_size p)) downlink_flag)
       (local_buf st 81 32) 20000")
  from send_frame_unfold [where tr = tr and w = w, OF assms(2,3) h this] show ?thesis
    by simp
qed

text \<open>
  C33: With an empty payload the loop does not run and the array of the
  hexadecimal text is never written: the command the function sends embeds the
  string that the stack happened to hold there.
\<close>

theorem send_frame_empty_payload_sends_stale:
  assumes "c_str (local_buf st 56 25) = Inr junk"
    and "tr (dev w) (frame_command junk downlink_flag) (local_buf st 81 32) 20000 = (resp, d)"
  shows "wisol_sigfox__send_frame tr st p 0 downlink_flag w =
           Inr (starts_OK (deliver (local_buf st 81 32) 32 resp),
                record_call w d (frame_command junk downlink_flag) 32 20000)"
proof -
  from assms(1) have "hex_text st p 0 = Inr junk"
    by (simp add: hex_text_def)
  from send_frame_unfold [where tr = tr and w = w, OF _ _ this assms(2)] show ?thesis
    by simp
qed

theorem send_frame_empty_payload_sends_stale_witness:
  "wisol_sigfox__send_frame (scripted (\<lambda>c. lit ''OK''))
     (\<lambda>i. if i = 56 then CHR ''7'' else if i = 57 then CHR ''F'' else NUL) [] 0 False world0
     = Inr (True, record_call world0 1 ''AT$SF=7F'' 32 20000)"
proof -
  let ?st = "\<lambda>i::nat. if i = 56 then CHR ''7'' else if i = 57 then CHR ''F'' else NUL"
  have "local_buf ?st 56 25 = ''7F'' @ NUL # replicate 22 NUL"
    by (simp add: local_buf_def upt_rec numeral_eq_Suc)
  then have "c_str (local_buf ?st 56 25) = Inr ''7F''"
    by (simp add: c_str_def)
  from send_frame_empty_payload_sends_stale [of ?st "''7F''" "scripted (\<lambda>c. lit ''OK'')" world0 False
      "lit ''OK''" 1 "[]", OF this]
  show ?thesis
    by (simp add: frame_command_def starts_OK_def lit_def deliver_def)
qed

text \<open>
  C39: With an empty payload and no \<open>NUL\<close> in the 25 stale characters of the
  array of the hexadecimal text, building the command reads past the end of
  that array.
\<close>

theorem send_frame_empty_payload_overrun:
  assumes "NUL \<notin> set (local_buf st 56 25)"
  shows "wisol_sigfox__send_frame tr st p 0 downlink_flag w = Inl Read_Overrun"
  using assms
  by (cases downlink_flag) (simp_all add: wisol_sigfox__send_frame_def snprintf_c_def c_str_def)

theorem send_frame_empty_payload_overrun_witness:
  "wisol_sigfox__send_frame (scripted (\<lambda>c. lit ''OK'')) (\<lambda>i. CHR ''x'') [] 0 False world0
     = Inl Read_Overrun"
  using send_frame_empty_payload_overrun [of "\<lambda>i. CHR ''x''"] by (simp add: local_buf_def)

end
