(* ===== verification/Frame_Loop.thy ===== *)
theory Frame_Loop
  imports Driver_Frame "HOL-Library.While_Combinator"
begin

text \<open>
  The loop of \<^verbatim>\<open>wisol_sigfox__send_frame\<close> in \<^verbatim>\<open>src/wisol_sigfox.c\<close> once more,
  this time kept as a loop and with its counter as the code declares it: an
  \<^verbatim>\<open>int\<close> that is compared with a \<^verbatim>\<open>size_t\<close> and incremented.

  \<^item> \<open>INT_MAX bits\<close> is the largest \<^verbatim>\<open>int\<close> of a platform whose \<^verbatim>\<open>int\<close> has
    \<open>bits\<close> bits. The counter is a mathematical integer, and the increment
    that would pass \<open>INT_MAX\<close> is the error \<open>Int_Overflow\<close>, since C leaves
    signed overflow undefined.
  \<^item> \<open>hex_cond\<close> is the test of the loop, \<open>hex_body\<close> its body with the increment,
    on a state of counter, write position and array, or an error that ended
    the loop. \<open>hex_while\<close> runs them with \<open>while_option\<close>, so that a loop that
    does not end has the value \<open>None\<close>.
  \<^item> The test compares the counter with a \<^verbatim>\<open>size_t\<close>, so C converts the counter
    to \<^verbatim>\<open>size_t\<close> first. The counter is never negative when the test is
    evaluated (\<open>counter_ok\<close>), so the conversion keeps its value, \<open>nat i\<close>.

  The lemmas show that the loop ends for every payload, size, array and
  width of \<^verbatim>\<open>int\<close>, and that for a size below \<open>INT_MAX\<close> it computes what
  \<open>hex_loop\<close> of \<open>Driver_Frame\<close> computes, whose counter is a natural number.
  The sizes \<^verbatim>\<open>wisol_sigfox__send_frame\<close> admits are at most 12, so this holds
  for every \<^verbatim>\<open>int\<close> the C standard allows.
\<close>

section \<open>The loop with its counter\<close>

type_synonym loop_state = "int \<times> nat \<times> cbuf"

definition INT_MAX :: "nat \<Rightarrow> int" where
  "INT_MAX bits = 2 ^ (bits - 1) - 1"

definition hex_cond :: "nat \<Rightarrow> loop_state res \<Rightarrow> bool" where
  "hex_cond payload_size s =
     (case s of Inr (i, p_buf, payload_buf) \<Rightarrow> nat i < payload_size | Inl e \<Rightarrow> False)"

definition hex_body :: "nat \<Rightarrow> byte list \<Rightarrow> loop_state res \<Rightarrow> loop_state res" where
  "hex_body bits p_payload_buf s =
     ebind s (\<lambda>(i, p_buf, payload_buf).
       if nat i < length p_payload_buf then
         ebind (sprintf_c payload_buf p_buf ''%02X'' [Arg_int (ucast (p_payload_buf ! nat i))])
           (\<lambda>(payload_buf, n).
              if i < INT_MAX bits then Inr (i + 1, p_buf + n, payload_buf)
              else Inl Int_Overflow)
       else Inl Read_Overrun)"

definition hex_result :: "loop_state res \<Rightarrow> cbuf res" where
  "hex_result s = ebind s (\<lambda>(i, p_buf, payload_buf). Inr payload_buf)"

definition hex_while :: "nat \<Rightarrow> byte list \<Rightarrow> nat \<Rightarrow> cbuf \<Rightarrow> cbuf res option" where
  "hex_while bits p_payload_buf payload_size payload_buf =
     map_option hex_result
       (while_option (hex_cond payload_size) (hex_body bits p_payload_buf)
          (Inr (0, 0, payload_buf)))"

section \<open>The loop ends\<close>

text \<open>
  What holds of the counter whenever the test is evaluated, and the distance
  to \<open>INT_MAX\<close> that every round makes smaller. An error ends the loop.
\<close>

definition counter_ok :: "nat \<Rightarrow> loop_state res \<Rightarrow> bool" where
  "counter_ok bits s =
     (case s of Inr (i, p_buf, payload_buf) \<Rightarrow> 0 \<le> i \<and> i \<le> INT_MAX bits | Inl e \<Rightarrow> True)"

definition rounds_left :: "nat \<Rightarrow> loop_state res \<Rightarrow> nat" where
  "rounds_left bits s =
     (case s of Inr (i, p_buf, payload_buf) \<Rightarrow> Suc (nat (INT_MAX bits - i)) | Inl e \<Rightarrow> 0)"

lemma INT_MAX_nonneg [simp]: "0 \<le> INT_MAX bits"
  by (simp add: INT_MAX_def)

lemma hex_cond_simps [simp]:
  "hex_cond n (Inr (i, p_buf, buf)) \<longleftrightarrow> nat i < n"
  "\<not> hex_cond n (Inl e)"
  by (simp_all add: hex_cond_def)

lemma hex_body_Inl [simp]: "hex_body bits p (Inl e) = Inl e"
  by (simp add: hex_body_def)

lemma hex_body_Inr:
  "hex_body bits p (Inr (i, p_buf, buf)) =
     (if nat i < length p then
        ebind (sprintf_c buf p_buf ''%02X'' [Arg_int (ucast (p ! nat i))])
          (\<lambda>(buf, n). if i < INT_MAX bits then Inr (i + 1, p_buf + n, buf) else Inl Int_Overflow)
      else Inl Read_Overrun)"
  by (simp add: hex_body_def)

lemma hex_result_simps [simp]:
  "hex_result (Inr (i, p_buf, buf)) = Inr buf"
  "hex_result (Inl e) = Inl e"
  by (simp_all add: hex_result_def)

lemma hex_body_decreases:
  assumes "counter_ok bits s" and "hex_cond n s"
  shows "counter_ok bits (hex_body bits p s) \<and>
         rounds_left bits (hex_body bits p s) < rounds_left bits s"
  using assms
  by (cases s)
     (auto simp: counter_ok_def rounds_left_def hex_body_def ebind_def
           split: sum.splits if_splits)

lemma while_hex_halts:
  assumes "counter_ok bits s"
  shows "\<exists>t. while_option (hex_cond n) (hex_body bits p) s = Some t"
  using hex_body_decreases assms
  by (rule measure_while_option_Some [where P = "counter_ok bits" and f = "rounds_left bits"])

lemma hex_while_halts: "\<exists>r. hex_while bits p n buf = Some r"
  using while_hex_halts [of bits "Inr (0, 0, buf)" n p]
  by (auto simp: hex_while_def counter_ok_def)

section \<open>The loop and its recursive form\<close>

lemma while_hex_stopped [simp]:
  "\<not> hex_cond n s \<Longrightarrow> while_option (hex_cond n) (hex_body bits p) s = Some s"
  by (subst while_option_unfold) simp

lemma while_hex_round:
  "hex_cond n s \<Longrightarrow>
   while_option (hex_cond n) (hex_body bits p) s =
     while_option (hex_cond n) (hex_body bits p) (hex_body bits p s)"
  by (subst while_option_unfold) simp

text \<open>
  From any round on, the loop with a counter below \<open>INT_MAX\<close> ends with what
  the recursive form returns.
\<close>

lemma while_hex_eq_hex_loop:
  assumes "int n \<le> INT_MAX bits"
  shows "map_option hex_result
           (while_option (hex_cond n) (hex_body bits p) (Inr (int i, p_buf, buf))) =
         Some (hex_loop p n i p_buf buf)"
  using assms
proof (induction p n i p_buf buf rule: hex_loop.induct)
  case (1 p n i p_buf buf)
  show ?case
  proof (cases "i < n")
    case False
    then show ?thesis
      by simp
  next
    case True
    with "1.prems" have less: "int i < INT_MAX bits"
      by simp
    show ?thesis
    proof (cases "i < length p")
      case False
      with True show ?thesis
        by (simp add: while_hex_round hex_body_Inr hex_loop_reads_past_payload)
    next
      case in_payload: True
      show ?thesis
      proof (cases "sprintf_c buf p_buf ''%02X'' [Arg_int (ucast (p ! i))]")
        case (Inl e)
        with True in_payload show ?thesis
          by (simp add: while_hex_round hex_body_Inr hex_loop.simps [of p n i])
      next
        case (Inr r)
        obtain buf' k where r: "r = (buf', k)"
          by (cases r)
        from "1.IH" [OF True in_payload Inr [unfolded r] refl "1.prems"]
        show ?thesis
          using True in_payload less Inr r
          by (simp add: while_hex_round hex_body_Inr hex_loop.simps [of p n i] add.commute)
      qed
    qed
  qed
qed

lemma hex_while_eq_hex_loop:
  "int n \<le> INT_MAX bits \<Longrightarrow> hex_while bits p n buf = Some (hex_loop p n 0 0 buf)"
  using while_hex_eq_hex_loop [of n bits p 0 0 buf] by (simp add: hex_while_def)

text \<open>
  An \<^verbatim>\<open>int\<close> has at least 16 bits, and \<^verbatim>\<open>wisol_sigfox__send_frame\<close> enters the
  loop with a size of at most 12.
\<close>

lemma hex_while_in_send_frame:
  "payload_size \<le> 12 \<Longrightarrow> 16 \<le> bits \<Longrightarrow>
   hex_while bits p payload_size buf = Some (hex_loop p payload_size 0 0 buf)"
proof (rule hex_while_eq_hex_loop)
  assume "payload_size \<le> 12" "16 \<le> bits"
  then have "int payload_size \<le> 2 ^ 15 - 1" and "(2::int) ^ 15 \<le> 2 ^ (bits - 1)"
    by (simp, intro power_increasing) simp_all
  then show "int payload_size \<le> INT_MAX bits"
    unfolding INT_MAX_def by linarith
qed

section \<open>Properties\<close>

text \<open>
  C18: The loop of the frame transmission ends, whatever the payload, the size
  passed, the array it writes to and the width of \<^verbatim>\<open>int\<close>: with a counter that
  cannot pass \<open>INT_MAX\<close> it returns a result or an error after finitely many
  rounds. For every size up to \<open>INT_MAX\<close> the result is that of the recursive
  form \<open>hex_loop\<close>, in which the counter is a natural number.
\<close>

theorem hex_while_terminates:
  "(\<exists>r. hex_while bits p payload_size buf = Some r) \<and>
   (int payload_size \<le> INT_MAX bits \<longrightarrow>
      hex_while bits p payload_size buf = Some (hex_loop p payload_size 0 0 buf))"
  by (simp add: hex_while_halts hex_while_eq_hex_loop)

theorem hex_while_terminates_witness:
  "hex_while 16 [0x01, 0x02, 0xAB] 3 (replicate 8 (CHR ''x'')) = Some (Inr (lit ''0102AB'' @ ''x''))"
  using hex_while_terminates [of 16 "[0x01, 0x02, 0xAB]" 3 "replicate 8 (CHR ''x'')"]
    hex_loop_from_start [of 3 "[0x01, 0x02, 0xAB]" "replicate 8 (CHR ''x'')"]
  by (simp add: INT_MAX_def poke_def lit_def numeral_eq_Suc)

end
