(* ===== verification/Driver_Info.thy ===== *)
theory Driver_Info
  imports C_Format Transport Commands
begin

text \<open>
  The information queries of the driver in \<^verbatim>\<open>src/wisol_sigfox.c\<close>, which all send
  the command \<^verbatim>\<open>AT$I=\<close> with a fixed index:

  \<^item> \<^verbatim>\<open>wisol_sigfox__get_id\<close> (index 10) and \<^verbatim>\<open>wisol_sigfox__get_pac\<close> (index 11)
    clear the first 9 or 17 characters of the caller's buffer and let the
    transport store at most 8 or 16 characters there;
  \<^item> \<^verbatim>\<open>wisol_sigfox__get_firmware_vcs_version\<close> (index 8) and
    \<^verbatim>\<open>wisol_sigfox__get_library_version\<close> (index 9) let the transport store the
    response in the caller's buffer, with the size the caller gives;
  \<^item> \<^verbatim>\<open>wisol_sigfox__get_firmware_version\<close> makes two queries (indexes 4 and 5)
    into two automatic arrays and joins the two responses with a dot in the
    caller's buffer.

  The caller's buffer is an argument of the model, an array with its own
  capacity, and the buffer after the call is the result. The functions return
  nothing in C; a caller cannot tell a response from none.

  \<open>information_query\<close> is the pair of statements that all five functions
  repeat: format the command into the automatic array \<^verbatim>\<open>buf\<close>, call the
  transport.
\<close>

section \<open>The operations\<close>

definition information_query ::
  "'d transport \<Rightarrow> cbuf \<Rightarrow> 32 word \<Rightarrow> cbuf \<Rightarrow> nat \<Rightarrow> 'd world \<Rightarrow> (cbuf \<times> cbuf \<times> 'd world) res" where
  "information_query tr buf index p_response_buf sz w =
     ebind (command CMD_INFORMATION) (\<lambda>fmt.
     ebind (snprintf_c buf DEFAULT_BUF_SZ fmt [Arg_int index]) (\<lambda>(buf, n).
     ebind (wisol_sigfox__serial_sync tr buf p_response_buf sz WISOL_SIGFOX_DEFAULT_TIMEOUT w)
       (\<lambda>(p_response_buf, w). Inr (buf, p_response_buf, w))))"

definition wisol_sigfox__get_id ::
  "'d transport \<Rightarrow> stale \<Rightarrow> cbuf \<Rightarrow> 'd world \<Rightarrow> (cbuf \<times> 'd world) res" where
  "wisol_sigfox__get_id tr st p_id_buf w =
     ebind (memset_c p_id_buf NUL 9) (\<lambda>p_id_buf.
     let buf = local_buf st 0 DEFAULT_BUF_SZ in
     ebind (information_query tr buf 10 p_id_buf 8 w) (\<lambda>(buf, p_id_buf, w).
     Inr (p_id_buf, w)))"

definition wisol_sigfox__get_pac ::
  "'d transport \<Rightarrow> stale \<Rightarrow> cbuf \<Rightarrow> 'd world \<Rightarrow> (cbuf \<times> 'd world) res" where
  "wisol_sigfox__get_pac tr st p_pac_buf w =
     ebind (memset_c p_pac_buf NUL 17) (\<lambda>p_pac_buf.
     let buf = local_buf st 0 DEFAULT_BUF_SZ in
     ebind (information_query tr buf 11 p_pac_buf 16 w) (\<lambda>(buf, p_pac_buf, w).
     Inr (p_pac_buf, w)))"

definition wisol_sigfox__get_firmware_version ::
  "'d transport \<Rightarrow> stale \<Rightarrow> cbuf \<Rightarrow> nat \<Rightarrow> 'd world \<Rightarrow> (cbuf \<times> 'd world) res" where
  "wisol_sigfox__get_firmware_version tr st p_buf sz_buf w =
     (let buf = local_buf st 0 DEFAULT_BUF_SZ;
          buf_res1 = local_buf st 32 DEFAULT_BUF_SZ;
          buf_res2 = local_buf st 64 DEFAULT_BUF_SZ
      in ebind (information_query tr buf 4 buf_res1 DEFAULT_BUF_SZ w) (\<lambda>(buf, buf_res1, w).
         ebind (information_query tr buf 5 buf_res2 DEFAULT_BUF_SZ w) (\<lambda>(buf, buf_res2, w).
         ebind (snprintf_c p_buf sz_buf ''%s.%s'' [Arg_ptr buf_res1, Arg_ptr buf_res2])
           (\<lambda>(p_buf, n). Inr (p_buf, w)))))"

definition wisol_sigfox__get_firmware_vcs_version ::
  "'d transport \<Rightarrow> stale \<Rightarrow> cbuf \<Rightarrow> nat \<Rightarrow> 'd world \<Rightarrow> (cbuf \<times> 'd world) res" where
  "wisol_sigfox__get_firmware_vcs_version tr st p_buf sz_buf w =
     (let buf = local_buf st 0 DEFAULT_BUF_SZ in
      ebind (information_query tr buf 8 p_buf sz_buf w) (\<lambda>(buf, p_buf, w).
      Inr (p_buf, w)))"

definition wisol_sigfox__get_library_version ::
  "'d transport \<Rightarrow> stale \<Rightarrow> cbuf \<Rightarrow> nat \<Rightarrow> 'd world \<Rightarrow> (cbuf \<times> 'd world) res" where
  "wisol_sigfox__get_library_version tr st p_buf sz_buf w =
     (let buf = local_buf st 0 DEFAULT_BUF_SZ in
      ebind (information_query tr buf 9 p_buf sz_buf w) (\<lambda>(buf, p_buf, w).
      Inr (p_buf, w)))"

section \<open>The command of a query\<close>

definition information_command :: "32 word \<Rightarrow> string" where
  "information_command index = ''AT$I='' @ utoa (unat index)"

lemma information_command_simps [simp]:
  "information_command 4 = ''AT$I=4''"
  "information_command 5 = ''AT$I=5''"
  "information_command 8 = ''AT$I=8''"
  "information_command 9 = ''AT$I=9''"
  "information_command 10 = ''AT$I=10''"
  "information_command 11 = ''AT$I=11''"
  by (simp_all add: information_command_def utoa_ge)

lemma NUL_notin_information_command [simp]: "NUL \<notin> set (information_command index)"
  by (simp add: information_command_def)

lemma length_information_command: "length (information_command index) \<le> 15"
proof -
  have "unat index < 10 ^ 10"
    by (rule less_trans [OF unsigned_less]) simp
  then have "length (utoa (unat index)) \<le> 10"
    by (rule length_utoa) simp
  then show ?thesis
    by (simp add: information_command_def)
qed

text \<open>
  A query whose response size is within the capacity of the response buffer:
  it sends the command of its index with that size and the default timeout.
\<close>

lemma information_query_unfold:
  assumes "length buf = 32" and "sz \<le> length rb"
    and "tr (dev w) (information_command index) (take sz rb) 100 = (resp, d)"
  shows "information_query tr buf index rb sz w =
           Inr (information_command index @ NUL # drop (Suc (length (information_command index))) buf,
                deliver rb sz resp,
                record_call w d (information_command index) sz 100)"
proof -
  let ?c = "information_command index"
  have "format_c ''AT$I=%u'' [Arg_int index] = Inr ?c"
    by (simp add: information_command_def)
  then have "snprintf_c buf 32 ''AT$I=%u'' [Arg_int index] =
      Inr (?c @ NUL # drop (Suc (length ?c)) buf, length ?c)"
    using length_information_command [of index] assms(1) by (intro snprintf_c_fits) simp_all
  moreover have "wisol_sigfox__serial_sync tr (?c @ NUL # drop (Suc (length ?c)) buf) rb sz 100 w =
      Inr (deliver rb sz resp, record_call w d ?c sz 100)"
    using assms by (intro serial_sync_lit) simp_all
  ultimately show ?thesis
    by (simp add: information_query_def DEFAULT_BUF_SZ_def WISOL_SIGFOX_DEFAULT_TIMEOUT_def)
qed

section \<open>Identifier and PAC\<close>

text \<open>
  A buffer whose first \<open>m\<close> elements were cleared, after a response was stored
  with a size \<open>n\<close> below \<open>m\<close>: the response, then \<open>NUL\<close>s, then the elements behind
  the cleared ones.
\<close>

lemma deliver_cleared:
  "n < m \<Longrightarrow>
   deliver (replicate m NUL @ rest) n resp =
     take n resp @ replicate (m - min n (length resp)) NUL @ rest"
  by (simp add: deliver_def)

lemma c_str_deliver_cleared:
  assumes "n < m"
  shows "c_str (deliver (replicate m NUL @ rest) n resp) =
           Inr (takeWhile (\<lambda>c. c \<noteq> NUL) (take n resp))"
proof -
  from assms obtain j where "m - min n (length resp) = Suc j"
    by (cases "m - min n (length resp)") (auto simp: min_def split: if_splits)
  then have "deliver (replicate m NUL @ rest) n resp = take n resp @ NUL # replicate j NUL @ rest"
    using assms by (simp add: deliver_cleared)
  then show ?thesis
    by (simp only: c_str_append_NUL)
qed

lemma cleared_query:
  assumes "n < m" and "m \<le> length p" and "length buf = 32"
    and "tr (dev w) (information_command index) (replicate n NUL) 100 = (resp, d)"
  shows "ebind (memset_c p NUL m) (\<lambda>p.
         ebind (information_query tr buf index p n w) (\<lambda>(buf, p, w). Inr (p, w))) =
         Inr (deliver (replicate m NUL @ drop m p) n resp,
              record_call w d (information_command index) n 100)"
proof -
  let ?p = "replicate m NUL @ drop m p"
  have "memset_c p NUL m = Inr ?p"
    using assms(2) by (simp add: memset_c_Inr_iff)
  moreover have "take n ?p = replicate n NUL"
    using assms(1) by (simp add: min_def)
  then have "information_query tr buf index ?p n w =
      Inr (information_command index @ NUL # drop (Suc (length (information_command index))) buf,
           deliver ?p n resp, record_call w d (information_command index) n 100)"
    using assms by (intro information_query_unfold) simp_all
  ultimately show ?thesis
    by simp
qed

lemma get_id_unfold:
  assumes "9 \<le> length p_id_buf" and "tr (dev w) ''AT$I=10'' (replicate 8 NUL) 100 = (resp, d)"
  shows "wisol_sigfox__get_id tr st p_id_buf w =
           Inr (deliver (replicate 9 NUL @ drop 9 p_id_buf) 8 resp,
                record_call w d ''AT$I=10'' 8 100)"
  using cleared_query [where tr = tr and w = w, of 8 9 p_id_buf "local_buf st 0 32" 10 resp d] assms
  by (simp add: wisol_sigfox__get_id_def DEFAULT_BUF_SZ_def)

lemma get_pac_unfold:
  assumes "17 \<le> length p_pac_buf" and "tr (dev w) ''AT$I=11'' (replicate 16 NUL) 100 = (resp, d)"
  shows "wisol_sigfox__get_pac tr st p_pac_buf w =
           Inr (deliver (replicate 17 NUL @ drop 17 p_pac_buf) 16 resp,
                record_call w d ''AT$I=11'' 16 100)"
  using cleared_query [where tr = tr and w = w, of 16 17 p_pac_buf "local_buf st 0 32" 11 resp d] assms
  by (simp add: wisol_sigfox__get_pac_def DEFAULT_BUF_SZ_def)

text \<open>
  C7: \<^verbatim>\<open>wisol_sigfox__get_id\<close> sends the one command \<^verbatim>\<open>AT$I=10\<close> with size 8 and
  the default timeout, hands the transport a cleared buffer, and leaves in the
  first nine elements of the caller's buffer the first eight characters of the
  response followed by \<open>NUL\<close>s: what the buffer held before is gone even when
  the response is short, and the buffer holds the identifier as a string.
\<close>

theorem get_id_copies_response:
  assumes "9 \<le> length p_id_buf" and "tr (dev w) ''AT$I=10'' (replicate 8 NUL) 100 = (resp, d)"
  shows "\<exists>p. wisol_sigfox__get_id tr st p_id_buf w = Inr (p, record_call w d ''AT$I=10'' 8 100)
             \<and> take 9 p = take 8 resp @ replicate (9 - min 8 (length resp)) NUL
             \<and> drop 9 p = drop 9 p_id_buf
             \<and> c_str p = Inr (takeWhile (\<lambda>c. c \<noteq> NUL) (take 8 resp))"
  using assms c_str_deliver_cleared [of 8 9 "drop 9 p_id_buf" resp]
  by (simp add: get_id_unfold deliver_cleared)

theorem get_id_copies_response_witness:
  "\<exists>p. wisol_sigfox__get_id (scripted (\<lambda>c. ''00AB12''))  (\<lambda>i. CHR ''x'') (replicate 12 (CHR ''#'')) world0
          = Inr (p, record_call world0 1 ''AT$I=10'' 8 100)
       \<and> take 9 p = take 8 ''00AB12'' @ replicate (9 - min 8 (length ''00AB12'')) NUL
       \<and> drop 9 p = drop 9 (replicate 12 (CHR ''#''))
       \<and> c_str p = Inr (takeWhile (\<lambda>c. c \<noteq> NUL) (take 8 ''00AB12''))"
  using get_id_copies_response [of "replicate 12 (CHR ''#'')" "scripted (\<lambda>c. ''00AB12'')" world0
      "''00AB12''" 1 "\<lambda>i. CHR ''x''"]
  by simp

text \<open>
  C28: Whatever the transport stores, the identifier buffer holds a string of at
  most eight characters after \<^verbatim>\<open>wisol_sigfox__get_id\<close>, its ninth element is
  \<open>NUL\<close>, and the elements behind the ninth are untouched.
\<close>

theorem get_id_terminated:
  assumes "9 \<le> length p_id_buf"
  shows "\<exists>p w' s. wisol_sigfox__get_id tr st p_id_buf w = Inr (p, w')
             \<and> length p = length p_id_buf \<and> p ! 8 = NUL
             \<and> c_str p = Inr s \<and> length s \<le> 8"
proof -
  obtain resp d where tr: "tr (dev w) ''AT$I=10'' (replicate 8 NUL) 100 = (resp, d)"
    by (cases "tr (dev w) ''AT$I=10'' (replicate 8 NUL) 100")
  let ?p = "deliver (replicate 9 NUL @ drop 9 p_id_buf) 8 resp"
  have "length (takeWhile (\<lambda>c. c \<noteq> NUL) (take 8 resp)) \<le> 8"
    by (rule order_trans [OF length_takeWhile_le]) simp
  moreover have "?p ! 8 = NUL"
    by (auto simp: deliver_cleared nth_append min_def)
  moreover have "length ?p = length p_id_buf"
    using assms by (simp add: deliver_cleared)
  ultimately show ?thesis
    using c_str_deliver_cleared [of 8 9 "drop 9 p_id_buf" resp]
    by (simp add: get_id_unfold [where tr = tr and w = w, OF assms tr])
qed

theorem get_id_terminated_witness:
  "\<exists>p w' s. wisol_sigfox__get_id (scripted (\<lambda>c. replicate 40 (CHR ''F''))) (\<lambda>i. CHR ''x'')
               (replicate 9 (CHR ''#'')) world0 = Inr (p, w')
       \<and> length p = length (replicate 9 (CHR ''#'')) \<and> p ! 8 = NUL
       \<and> c_str p = Inr s \<and> length s \<le> 8"
  using get_id_terminated [of "replicate 9 (CHR ''#'')"] by simp

text \<open>
  C40: A buffer of fewer than nine characters is overrun by the clearing that
  \<^verbatim>\<open>wisol_sigfox__get_id\<close> starts with, before any command is sent.
\<close>

theorem get_id_small_buffer:
  assumes "length p_id_buf < 9"
  shows "wisol_sigfox__get_id tr st p_id_buf w = Inl Write_Overrun"
  using assms by (simp add: wisol_sigfox__get_id_def memset_c_def poke_def)

theorem get_id_small_buffer_witness:
  "wisol_sigfox__get_id (scripted (\<lambda>c. ''00AB12'')) (\<lambda>i. CHR ''x'') (replicate 8 NUL) world0
     = Inl Write_Overrun"
  using get_id_small_buffer [of "replicate 8 NUL"] by simp

text \<open>
  C24: \<^verbatim>\<open>wisol_sigfox__get_pac\<close> sends the one command \<^verbatim>\<open>AT$I=11\<close> with size 16,
  and leaves in the first seventeen elements of the caller's buffer the first
  sixteen characters of the response followed by \<open>NUL\<close>s, so that the buffer
  holds the PAC as a string of at most sixteen characters.
\<close>

theorem get_pac_copies_response:
  assumes "17 \<le> length p_pac_buf" and "tr (dev w) ''AT$I=11'' (replicate 16 NUL) 100 = (resp, d)"
  shows "\<exists>p. wisol_sigfox__get_pac tr st p_pac_buf w = Inr (p, record_call w d ''AT$I=11'' 16 100)
             \<and> take 17 p = take 16 resp @ replicate (17 - min 16 (length resp)) NUL
             \<and> drop 17 p = drop 17 p_pac_buf
             \<and> c_str p = Inr (takeWhile (\<lambda>c. c \<noteq> NUL) (take 16 resp))"
  using assms c_str_deliver_cleared [of 16 17 "drop 17 p_pac_buf" resp]
  by (simp add: get_pac_unfold deliver_cleared)

theorem get_pac_copies_response_witness:
  "\<exists>p. wisol_sigfox__get_pac (scripted (\<lambda>c. ''0123456789ABCDEF'')) (\<lambda>i. CHR ''x'')
          (replicate 17 (CHR ''#'')) world0
          = Inr (p, record_call world0 1 ''AT$I=11'' 16 100)
       \<and> take 17 p = take 16 ''0123456789ABCDEF'' @ replicate (17 - min 16 (length ''0123456789ABCDEF'')) NUL
       \<and> drop 17 p = drop 17 (replicate 17 (CHR ''#''))
       \<and> c_str p = Inr (takeWhile (\<lambda>c. c \<noteq> NUL) (take 16 ''0123456789ABCDEF''))"
  using get_pac_copies_response [of "replicate 17 (CHR ''#'')" "scripted (\<lambda>c. ''0123456789ABCDEF'')"
      world0 "''0123456789ABCDEF''" 1 "\<lambda>i. CHR ''x''"]
  by simp

section \<open>Version queries\<close>

lemma raw_query_unfold:
  assumes "sz_buf \<le> length p_buf"
    and "tr (dev w) (information_command index) (take sz_buf p_buf) 100 = (resp, d)"
  shows "ebind (information_query tr (local_buf st 0 32) index p_buf sz_buf w)
           (\<lambda>(buf, p_buf, w). Inr (p_buf, w)) =
         Inr (deliver p_buf sz_buf resp, record_call w d (information_command index) sz_buf 100)"
  using information_query_unfold [where tr = tr and w = w, of "local_buf st 0 32" sz_buf p_buf index
      resp d] assms
  by simp

lemma firmware_version_unfold:
  assumes tr1: "tr (dev w) ''AT$I=4'' (local_buf st 32 32) 100 = (resp1, d1)"
    and tr2: "tr d1 ''AT$I=5'' (local_buf st 64 32) 100 = (resp2, d2)"
  shows "wisol_sigfox__get_firmware_version tr st p_buf sz_buf w =
           ebind (snprintf_c p_buf sz_buf ''%s.%s''
                    [Arg_ptr (deliver (local_buf st 32 32) 32 resp1),
                     Arg_ptr (deliver (local_buf st 64 32) 32 resp2)])
             (\<lambda>(p, n). Inr (p, record_call (record_call w d1 ''AT$I=4'' 32 100) d2 ''AT$I=5'' 32 100))"
proof -
  let ?buf1 = "''AT$I=4'' @ NUL # drop 7 (local_buf st 0 32)"
  let ?w1 = "record_call w d1 ''AT$I=4'' 32 100"
  have q1: "information_query tr (local_buf st 0 32) 4 (local_buf st 32 32) 32 w =
      Inr (?buf1, deliver (local_buf st 32 32) 32 resp1, ?w1)"
    using information_query_unfold [where tr = tr and w = w, of "local_buf st 0 32" 32
        "local_buf st 32 32" 4 resp1 d1] tr1
    by (simp add: eval_nat_numeral)
  have q2: "information_query tr ?buf1 5 (local_buf st 64 32) 32 ?w1 =
      Inr (''AT$I=5'' @ NUL # drop 7 ?buf1, deliver (local_buf st 64 32) 32 resp2,
           record_call ?w1 d2 ''AT$I=5'' 32 100)"
    using information_query_unfold [where tr = tr and w = ?w1, of ?buf1 32
        "local_buf st 64 32" 5 resp2 d2] tr2
    by (simp add: eval_nat_numeral)
  from q1 q2 show ?thesis
    by (simp add: wisol_sigfox__get_firmware_version_def DEFAULT_BUF_SZ_def)
qed

text \<open>
  C8: \<^verbatim>\<open>wisol_sigfox__get_firmware_version\<close> sends two commands, \<^verbatim>\<open>AT$I=4\<close> and
  then \<^verbatim>\<open>AT$I=5\<close>, the second to the device as the first left it; when both
  responses are terminated, the caller's buffer then holds the first response,
  a dot and the second response, cut to one character less than the size the
  caller gave.
\<close>

theorem firmware_version_joins_responses:
  assumes "tr (dev w) ''AT$I=4'' (local_buf st 32 32) 100 = (r1 @ NUL # x1, d1)"
    and "tr d1 ''AT$I=5'' (local_buf st 64 32) 100 = (r2 @ NUL # x2, d2)"
    and "NUL \<notin> set r1" and "length r1 < 32" and "NUL \<notin> set r2" and "length r2 < 32"
    and "0 < sz_buf" and "sz_buf \<le> length p_buf"
  shows "\<exists>p. wisol_sigfox__get_firmware_version tr st p_buf sz_buf w =
               Inr (p, record_call (record_call w d1 ''AT$I=4'' 32 100) d2 ''AT$I=5'' 32 100)
             \<and> c_str p = Inr (take (sz_buf - 1) (r1 @ ''.'' @ r2))
             \<and> length p = length p_buf"
proof -
  have "format_c ''%s.%s''
          [Arg_ptr (deliver (local_buf st 32 32) 32 (r1 @ NUL # x1)),
           Arg_ptr (deliver (local_buf st 64 32) 32 (r2 @ NUL # x2))] = Inr (r1 @ ''.'' @ r2)"
    using assms(3-6) by (simp add: deliver_terminated)
  from snprintf_c_c_str [OF this _ assms(7,8)] assms(3,5)
  show ?thesis
    by (auto simp: firmware_version_unfold [where tr = tr and w = w, OF assms(1,2)])
qed

theorem firmware_version_joins_responses_witness:
  "\<exists>p. wisol_sigfox__get_firmware_version
          (scripted (\<lambda>c. if c = ''AT$I=4'' then lit ''1'' else lit ''23''))
          (\<lambda>i. CHR ''x'') (replicate 8 (CHR ''#'')) 8 world0 =
          Inr (p, record_call (record_call world0 1 ''AT$I=4'' 32 100) 2 ''AT$I=5'' 32 100)
       \<and> c_str p = Inr (take (8 - 1) (''1'' @ ''.'' @ ''23''))
       \<and> length p = length (replicate 8 (CHR ''#''))"
  using firmware_version_joins_responses
    [of "scripted (\<lambda>c. if c = ''AT$I=4'' then lit ''1'' else lit ''23'')" world0 "\<lambda>i. CHR ''x''"
      "''1''" "[]" 1 "''23''" "[]" 2 8 "replicate 8 (CHR ''#'')"]
  by (simp add: lit_def)

text \<open>
  C37: When the first response buffer of \<^verbatim>\<open>wisol_sigfox__get_firmware_version\<close>
  holds no \<open>NUL\<close> after the call, because the transport stored an unterminated
  response and the stale content of the array had none either, joining the
  responses reads past the end of the array.
\<close>

theorem firmware_version_unterminated:
  assumes "tr (dev w) ''AT$I=4'' (local_buf st 32 32) 100 = (resp1, d1)"
    and "NUL \<notin> set (deliver (local_buf st 32 32) 32 resp1)"
  shows "wisol_sigfox__get_firmware_version tr st p_buf sz_buf w = Inl Read_Overrun"
proof -
  obtain resp2 d2 where "tr d1 ''AT$I=5'' (local_buf st 64 32) 100 = (resp2, d2)"
    by (cases "tr d1 ''AT$I=5'' (local_buf st 64 32) 100")
  from firmware_version_unfold [where tr = tr and w = w, OF assms(1) this] assms(2)
  show ?thesis
    by (simp add: snprintf_c_def c_str_def)
qed

theorem firmware_version_unterminated_witness:
  "wisol_sigfox__get_firmware_version (scripted (\<lambda>c. ''1'')) (\<lambda>i. CHR ''x'')
     (replicate 8 (CHR ''#'')) 8 world0 = Inl Read_Overrun"
  using firmware_version_unterminated [of "scripted (\<lambda>c. ''1'')" world0 "\<lambda>i. CHR ''x''" "''1''" 1]
  by (simp add: deliver_def local_buf_def)

text \<open>
  C30: \<^verbatim>\<open>wisol_sigfox__get_firmware_vcs_version\<close> and
  \<^verbatim>\<open>wisol_sigfox__get_library_version\<close> send the one command \<^verbatim>\<open>AT$I=8\<close> or
  \<^verbatim>\<open>AT$I=9\<close> with the caller's size and the default timeout, and the caller's
  buffer afterwards is exactly what the transport stored in it: the driver
  writes nothing itself, in particular no terminator.
\<close>

theorem version_queries_copy_raw:
  assumes "sz_buf \<le> length p_buf"
  shows "(tr (dev w) ''AT$I=8'' (take sz_buf p_buf) 100 = (resp, d) \<longrightarrow>
            wisol_sigfox__get_firmware_vcs_version tr st p_buf sz_buf w =
              Inr (deliver p_buf sz_buf resp, record_call w d ''AT$I=8'' sz_buf 100))
       \<and> (tr (dev w) ''AT$I=9'' (take sz_buf p_buf) 100 = (resp, d) \<longrightarrow>
            wisol_sigfox__get_library_version tr st p_buf sz_buf w =
              Inr (deliver p_buf sz_buf resp, record_call w d ''AT$I=9'' sz_buf 100))"
  using assms raw_query_unfold [where tr = tr and w = w, of sz_buf p_buf 8 resp d st]
    raw_query_unfold [where tr = tr and w = w, of sz_buf p_buf 9 resp d st]
  by (simp add: wisol_sigfox__get_firmware_vcs_version_def wisol_sigfox__get_library_version_def
      DEFAULT_BUF_SZ_def)

theorem version_queries_copy_raw_witness:
  "wisol_sigfox__get_firmware_vcs_version (scripted (\<lambda>c. ''abcdef'')) (\<lambda>i. CHR ''x'')
     (replicate 6 (CHR ''#'')) 4 world0 =
     Inr (''abcd##'', record_call world0 1 ''AT$I=8'' 4 100)
   \<and> wisol_sigfox__get_library_version (scripted (\<lambda>c. ''abcdef'')) (\<lambda>i. CHR ''x'')
     (replicate 6 (CHR ''#'')) 4 world0 =
     Inr (''abcd##'', record_call world0 1 ''AT$I=9'' 4 100)"
  using version_queries_copy_raw [of 4 "replicate 6 (CHR ''#'')" "scripted (\<lambda>c. ''abcdef'')" world0
      "''abcdef''" 1 "\<lambda>i. CHR ''x''"]
  by (simp add: deliver_def numeral_eq_Suc)

section \<open>When a query returns\<close>

text \<open>
  A query that returns has made one call, with the command of its index, the
  size it was given and the default timeout, whatever the capacity of the
  response buffer is.
\<close>

lemma information_query_calls:
  assumes "length buf = 32"
    and "information_query tr buf index rb sz w = Inr (b, rb', w')"
  shows "calls w' = calls w @
           [\<lparr>call_cmd = information_command index, call_size = sz, call_timeout = 100\<rparr>]"
proof -
  let ?c = "information_command index"
  have "format_c ''AT$I=%u'' [Arg_int index] = Inr ?c"
    by (simp add: information_command_def)
  then have "snprintf_c buf 32 ''AT$I=%u'' [Arg_int index] =
      Inr (?c @ NUL # drop (Suc (length ?c)) buf, length ?c)"
    using length_information_command [of index] assms(1) by (intro snprintf_c_fits) simp_all
  with assms(2) obtain x where
    "wisol_sigfox__serial_sync tr (?c @ NUL # drop (Suc (length ?c)) buf) rb sz 100 w = Inr (x, w')"
    by (auto simp: information_query_def DEFAULT_BUF_SZ_def WISOL_SIGFOX_DEFAULT_TIMEOUT_def
        ebind_eq_Inr_iff)
  from serial_sync_calls [OF this] show ?thesis
    by (simp add: c_str_terminated)
qed

end
