(* ===== verification/Driver_Power.thy ===== *)
theory Driver_Power
  imports Exchange
begin

text \<open>
  The power operations of the driver in \<^verbatim>\<open>src/wisol_sigfox.c\<close>:

  \<^item> \<^verbatim>\<open>wisol_sigfox__set_power_mode\<close> formats the value of the mode, converted to
    \<^verbatim>\<open>uint8_t\<close>, into \<^verbatim>\<open>AT$P=%u\<close> and sends it; the response is not read.
  \<^item> \<^verbatim>\<open>wisol_sigfox__get_power_level\<close> clears its response array, sends
    \<^verbatim>\<open>ATS302?\<close> and returns \<^verbatim>\<open>atoi\<close> of the response, converted to \<^verbatim>\<open>uint8_t\<close>.
  \<^item> \<^verbatim>\<open>wisol_sigfox__set_power_level\<close> prints the level in decimal into a
    cleared array, formats \<^verbatim>\<open>ATS302=\<close> and that text into the command and sends
    it; the response is not read.

  The enumeration \<^verbatim>\<open>wisol_sigfox_power_mode_t\<close> is from \<^verbatim>\<open>src/wisol_sigfox.h\<close>.
  The lemmas give the command each operation sends, the value
  \<^verbatim>\<open>wisol_sigfox__get_power_level\<close> returns for every response that starts with
  a decimal number (reduced modulo 256 by the conversion), what it returns for
  a response without a number, and the two ways it can leave defined
  behaviour. \<open>register_device\<close> is a module that keeps register 302; against it
  the level read is the level last set.
\<close>

section \<open>The power modes\<close>

datatype wisol_sigfox_power_mode_t =
    WISOL_SIGFOX__POWER_MODE_RESET
  | WISOL_SIGFOX__POWER_MODE_SLEEP
  | WISOL_SIGFOX__POWER_MODE_DEEPSLEEP

text \<open>The value of an enumerator, as the conversion to \<^verbatim>\<open>uint8_t\<close> yields it.\<close>

fun power_mode_value :: "wisol_sigfox_power_mode_t \<Rightarrow> byte" where
  "power_mode_value WISOL_SIGFOX__POWER_MODE_RESET = 0"
| "power_mode_value WISOL_SIGFOX__POWER_MODE_SLEEP = 1"
| "power_mode_value WISOL_SIGFOX__POWER_MODE_DEEPSLEEP = 2"

section \<open>The operations\<close>

definition wisol_sigfox__set_power_mode ::
  "'d transport \<Rightarrow> stale \<Rightarrow> wisol_sigfox_power_mode_t \<Rightarrow> 'd world \<Rightarrow> 'd world res" where
  "wisol_sigfox__set_power_mode tr st mode w =
     (let buf = local_buf st 0 DEFAULT_BUF_SZ;
          buf_res = local_buf st 32 DEFAULT_BUF_SZ
      in ebind (command CMD_SET_POWER_MODE) (\<lambda>fmt.
         ebind (snprintf_c buf DEFAULT_BUF_SZ fmt [Arg_int (ucast (power_mode_value mode))])
           (\<lambda>(buf, n).
         ebind (wisol_sigfox__serial_sync tr buf buf_res DEFAULT_BUF_SZ
                  WISOL_SIGFOX_DEFAULT_TIMEOUT w)
           (\<lambda>(buf_res, w). Inr w))))"

definition wisol_sigfox__get_power_level ::
  "'d transport \<Rightarrow> stale \<Rightarrow> 'd world \<Rightarrow> (byte \<times> 'd world) res" where
  "wisol_sigfox__get_power_level tr st w =
     (let buf = local_buf st 0 DEFAULT_BUF_SZ;
          buf_res = local_buf st 32 DEFAULT_BUF_SZ
      in ebind (memset_c buf_res NUL DEFAULT_BUF_SZ) (\<lambda>buf_res.
         ebind (command CMD_GET_REGISTER) (\<lambda>fmt.
         ebind (snprintf_c buf DEFAULT_BUF_SZ fmt [Arg_int 302]) (\<lambda>(buf, n).
         ebind (wisol_sigfox__serial_sync tr buf buf_res DEFAULT_BUF_SZ
                  WISOL_SIGFOX_DEFAULT_TIMEOUT w)
           (\<lambda>(buf_res, w).
         ebind (atoi_c int_bits buf_res) (\<lambda>v.
         Inr (word_of_int v, w)))))))"

definition wisol_sigfox__set_power_level ::
  "'d transport \<Rightarrow> stale \<Rightarrow> byte \<Rightarrow> 'd world \<Rightarrow> 'd world res" where
  "wisol_sigfox__set_power_level tr st power_level w =
     (let buf = local_buf st 0 DEFAULT_BUF_SZ;
          buf_res = local_buf st 32 DEFAULT_BUF_SZ;
          buf_pl = local_buf st 64 DEFAULT_BUF_SZ
      in ebind (memset_c buf_res NUL DEFAULT_BUF_SZ) (\<lambda>buf_res.
         ebind (memset_c buf_pl NUL DEFAULT_BUF_SZ) (\<lambda>buf_pl.
         ebind (snprintf_c buf_pl DEFAULT_BUF_SZ ''%u'' [Arg_int (ucast power_level)])
           (\<lambda>(buf_pl, n).
         ebind (command CMD_SET_REGISTER) (\<lambda>fmt.
         ebind (snprintf_c buf DEFAULT_BUF_SZ fmt [Arg_int 302, Arg_ptr buf_pl]) (\<lambda>(buf, n).
         ebind (wisol_sigfox__serial_sync tr buf buf_res DEFAULT_BUF_SZ
                  WISOL_SIGFOX_DEFAULT_TIMEOUT w)
           (\<lambda>(buf_res, w). Inr w)))))))"

section \<open>The commands of the power operations\<close>

fun power_mode_command :: "wisol_sigfox_power_mode_t \<Rightarrow> string" where
  "power_mode_command WISOL_SIGFOX__POWER_MODE_RESET = ''AT$P=0''"
| "power_mode_command WISOL_SIGFOX__POWER_MODE_SLEEP = ''AT$P=1''"
| "power_mode_command WISOL_SIGFOX__POWER_MODE_DEEPSLEEP = ''AT$P=2''"

definition power_level_command :: "byte \<Rightarrow> string" where
  "power_level_command power_level = ''ATS302='' @ utoa (unat power_level)"

text \<open>
  A module that keeps register 302: it stores the decimal value of a set
  command and answers a get command with the stored value in decimal.
\<close>

definition register_device :: "nat transport" where
  "register_device d c window t =
     (if c = ''ATS302?'' then (lit (utoa d), d)
      else if take 7 c = ''ATS302='' then (lit ''OK'', dec_value (drop 7 c))
      else (lit ''ERROR'', d))"

section \<open>Lemmas on the commands\<close>

lemma format_power_mode:
  "format_c ''AT$P=%u'' [Arg_int (ucast (power_mode_value mode))] = Inr (power_mode_command mode)"
  by (cases mode) simp_all

lemma power_mode_command_props [simp]:
  "NUL \<notin> set (power_mode_command mode)" "length (power_mode_command mode) = 6"
  by (cases mode; simp)+

lemma power_level_command_props [simp]:
  "NUL \<notin> set (power_level_command l)" "length (power_level_command l) < 32"
  using utoa_byte_length [of l] by (simp_all add: power_level_command_def)

lemma format_power_level:
  "format_c ''ATS%u=%s'' [Arg_int 302, Arg_ptr (utoa (unat l) @ NUL # r)] =
     Inr (power_level_command l)"
  by (simp add: power_level_command_def c_str_terminated)

lemma register_device_simps [simp]:
  "register_device d ''ATS302?'' window t = (lit (utoa d), d)"
  "register_device d (power_level_command l) window t = (lit ''OK'', unat l)"
  by (simp_all add: register_device_def power_level_command_def)

section \<open>Setting the power mode\<close>

lemma set_power_mode_unfold:
  assumes "tr (dev w) (power_mode_command mode) (local_buf st 32 32) 100 = (resp, d)"
  shows "wisol_sigfox__set_power_mode tr st mode w =
           Inr (record_call w d (power_mode_command mode) 32 100)"
  using formatted_call_world [where tr = tr and w = w and n = 32 and buf = "local_buf st 0 32"
      and sz = 32 and rb = "local_buf st 32 32", OF format_power_mode] assms
  by (simp add: wisol_sigfox__set_power_mode_def DEFAULT_BUF_SZ_def
      WISOL_SIGFOX_DEFAULT_TIMEOUT_def)

text \<open>
  C22: \<^verbatim>\<open>wisol_sigfox__set_power_mode\<close> makes exactly one transport call, with the
  command \<^verbatim>\<open>AT$P=0\<close>, \<^verbatim>\<open>AT$P=1\<close> or \<^verbatim>\<open>AT$P=2\<close> for reset, sleep and deep sleep,
  the size 32 and the default timeout; it succeeds whatever the response is.
\<close>

theorem set_power_mode_sends:
  assumes "tr (dev w) (case mode of
                        WISOL_SIGFOX__POWER_MODE_RESET \<Rightarrow> ''AT$P=0''
                      | WISOL_SIGFOX__POWER_MODE_SLEEP \<Rightarrow> ''AT$P=1''
                      | WISOL_SIGFOX__POWER_MODE_DEEPSLEEP \<Rightarrow> ''AT$P=2'')
             (local_buf st 32 32) 100 = (resp, d)"
  shows "wisol_sigfox__set_power_mode tr st mode w =
           Inr (record_call w d (power_mode_command mode) 32 100)"
  using assms by (cases mode) (simp_all add: set_power_mode_unfold)

theorem set_power_mode_sends_witness:
  "wisol_sigfox__set_power_mode (scripted (\<lambda>c. lit ''ERROR'')) (\<lambda>i. CHR ''x'')
     WISOL_SIGFOX__POWER_MODE_DEEPSLEEP world0 =
     Inr (record_call world0 1 ''AT$P=2'' 32 100)"
  using set_power_mode_sends [of "scripted (\<lambda>c. lit ''ERROR'')" world0
      WISOL_SIGFOX__POWER_MODE_DEEPSLEEP "\<lambda>i. CHR ''x''" "lit ''ERROR''" 1]
  by simp

section \<open>Reading the power level\<close>

lemma get_power_level_unfold:
  assumes "tr (dev w) ''ATS302?'' (replicate 32 NUL) 100 = (resp, d)"
  shows "wisol_sigfox__get_power_level tr st w =
           ebind (atoi_c int_bits (deliver (replicate 32 NUL) 32 resp))
             (\<lambda>v. Inr (word_of_int v, record_call w d ''ATS302?'' 32 100))"
proof -
  have "format_c ''ATS%u?'' [Arg_int 302] = Inr ''ATS302?''"
    by simp
  from formatted_call [where tr = tr and w = w and n = 32 and buf = "local_buf st 0 32"
      and sz = 32 and rb = "replicate 32 NUL" and t = 100 and resp = resp and d = d
      and f = "\<lambda>buf (buf_res, w). ebind (atoi_c int_bits buf_res) (\<lambda>v. Inr (word_of_int v, w))",
      OF this] assms
  show ?thesis
    by (simp add: wisol_sigfox__get_power_level_def DEFAULT_BUF_SZ_def
        WISOL_SIGFOX_DEFAULT_TIMEOUT_def memset_c_all)
qed

text \<open>
  The cleared array after a response that starts with a short run of digits:
  the digits are followed by a character that is not a digit, from the
  response or from the cleared array.
\<close>

lemma deliver_number:
  assumes "length ds < 32" and "x = [] \<or> \<not> isdigit_c (hd x)"
  shows "\<exists>c r. \<not> isdigit_c c \<and> deliver (replicate 32 NUL) 32 (ds @ x) = ds @ c # r"
proof (cases x)
  case Nil
  from assms(1) obtain k where "32 - length ds = Suc k"
    by (cases "32 - length ds") simp_all
  with Nil assms(1) show ?thesis
    by (auto simp: deliver_def min_def)
next
  case (Cons c x')
  from assms(1) obtain k where "32 - length ds = Suc k"
    by (cases "32 - length ds") simp_all
  with Cons assms show ?thesis
    by (auto simp: deliver_def)
qed

lemma atoi_deliver_number:
  assumes x: "x = [] \<or> \<not> isdigit_c (hd x)" and n: "n < 2 ^ 31"
  shows "atoi_c int_bits (deliver (replicate 32 NUL) 32 (utoa n @ x)) = Inr (int n)"
proof -
  have "n < 10 ^ 10"
    using n by simp
  then have "length (utoa n) \<le> 10"
    by (rule length_utoa) simp
  then have "length (utoa n) < 32"
    by simp
  from deliver_number [OF this x] obtain c r where
    c: "\<not> isdigit_c c" "deliver (replicate 32 NUL) 32 (utoa n @ x) = utoa n @ c # r"
    by blast
  show ?thesis
    using atoi_c_digits [OF utoa_digits utoa_nonempty c(1), of int_bits n r] n
    by (simp add: int_bits_def c(2))
qed

text \<open>
  C6: When the response to \<^verbatim>\<open>ATS302?\<close> starts with the decimal text of a number
  below \<open>2\<^sup>3\<^sup>1\<close> that is not followed by a further digit,
  \<^verbatim>\<open>wisol_sigfox__get_power_level\<close> returns that number modulo 256, after one
  transport call with size 32 and the default timeout. A terminator is not
  needed: the array was cleared before the call.
\<close>

theorem get_power_level_parses:
  assumes tr: "tr (dev w) ''ATS302?'' (replicate 32 NUL) 100 = (utoa n @ x, d)"
    and x: "x = [] \<or> \<not> isdigit_c (hd x)" and n: "n < 2 ^ 31"
  shows "\<exists>lvl. wisol_sigfox__get_power_level tr st w =
                 Inr (lvl, record_call w d ''ATS302?'' 32 100)
               \<and> unat lvl = n mod 256"
  by (simp add: get_power_level_unfold [where tr = tr and w = w, OF tr]
      atoi_deliver_number [OF x n] unat_of_nat)

theorem get_power_level_parses_witness:
  "\<exists>lvl. wisol_sigfox__get_power_level (scripted (\<lambda>c. utoa 270 @ ''dBm'')) (\<lambda>i. CHR ''x'') world0 =
           Inr (lvl, record_call world0 1 ''ATS302?'' 32 100)
         \<and> unat lvl = 270 mod 256"
  using get_power_level_parses [of "scripted (\<lambda>c. utoa 270 @ ''dBm'')" world0 270 "''dBm''" 1
      "\<lambda>i. CHR ''x''"]
  by (simp add: isdigit_c_def)

text \<open>
  C36: When the transport stores nothing, or a response whose first character is
  neither a digit, a sign nor white space, \<^verbatim>\<open>wisol_sigfox__get_power_level\<close>
  returns 0: a missing or refused reading is the level 0 dBm to the caller.
\<close>

theorem get_power_level_no_number:
  assumes tr: "tr (dev w) ''ATS302?'' (replicate 32 NUL) 100 = (resp, d)"
    and resp: "resp = [] \<or> \<not> (isdigit_c (hd resp) \<or> isspace_c (hd resp)
                 \<or> hd resp = CHR ''-'' \<or> hd resp = CHR ''+'')"
  shows "wisol_sigfox__get_power_level tr st w = Inr (0, record_call w d ''ATS302?'' 32 100)"
proof -
  have "atoi_c int_bits (deliver (replicate 32 NUL) 32 resp) = Inr 0"
  proof (cases resp)
    case Nil
    then show ?thesis
      by (simp add: deliver_def numeral_eq_Suc)
  next
    case (Cons c r)
    with resp have "deliver (replicate 32 NUL) 32 resp = c # take 31 r @ drop (Suc (min 31 (length r))) (replicate 32 NUL)"
      by (simp add: deliver_def take_Cons')
    with Cons resp show ?thesis
      by (simp add: atoi_c_no_digits)
  qed
  then show ?thesis
    by (simp add: get_power_level_unfold [where tr = tr and w = w, OF tr])
qed

theorem get_power_level_no_number_witness:
  "wisol_sigfox__get_power_level (scripted (\<lambda>c. lit ''ERROR'')) (\<lambda>i. CHR ''x'') world0 =
     Inr (0, record_call world0 1 ''ATS302?'' 32 100)"
  using get_power_level_no_number [of "scripted (\<lambda>c. lit ''ERROR'')" world0 "lit ''ERROR''" 1
      "\<lambda>i. CHR ''x''"]
  by (simp add: lit_def isdigit_c_def isspace_c_def)

text \<open>
  C38: When the transport fills all 32 characters of the response array with
  digits, \<^verbatim>\<open>atoi\<close> in \<^verbatim>\<open>wisol_sigfox__get_power_level\<close> finds no end of the number
  inside the array and reads past it.
\<close>

theorem get_power_level_overrun:
  assumes tr: "tr (dev w) ''ATS302?'' (replicate 32 NUL) 100 = (resp, d)"
    and full: "32 \<le> length resp" and digits: "\<forall>c \<in> set (take 32 resp). isdigit_c c"
  shows "wisol_sigfox__get_power_level tr st w = Inl Read_Overrun"
proof -
  have "deliver (replicate 32 NUL) 32 resp = take 32 resp"
    using full by (simp add: deliver_def min_def)
  with digits show ?thesis
    by (simp add: get_power_level_unfold [where tr = tr and w = w, OF tr] atoi_c_all_digits)
qed

theorem get_power_level_overrun_witness:
  "wisol_sigfox__get_power_level (scripted (\<lambda>c. replicate 40 (CHR ''1''))) (\<lambda>i. CHR ''x'') world0 =
     Inl Read_Overrun"
  using get_power_level_overrun [of "scripted (\<lambda>c. replicate 40 (CHR ''1''))" world0
      "replicate 40 (CHR ''1'')" 1 "\<lambda>i. CHR ''x''"]
  by (simp add: isdigit_c_def)

section \<open>Setting the power level\<close>

lemma set_power_level_unfold:
  assumes "tr (dev w) (power_level_command l) (replicate 32 NUL) 100 = (resp, d)"
  shows "wisol_sigfox__set_power_level tr st l w =
           Inr (record_call w d (power_level_command l) 32 100)"
proof -
  let ?pl = "utoa (unat l)"
  have "length ?pl < 32"
    using utoa_byte_length [of l] by simp
  then have pl: "snprintf_c (replicate 32 NUL) 32 ''%u'' [Arg_int (ucast l)] =
      Inr (?pl @ NUL # drop (Suc (length ?pl)) (replicate 32 NUL), length ?pl)"
    by (intro snprintf_c_fits) simp_all
  from formatted_call_world [where tr = tr and w = w and n = 32 and buf = "local_buf st 0 32"
      and sz = 32 and rb = "replicate 32 NUL", OF format_power_level] assms
  show ?thesis
    by (simp add: wisol_sigfox__set_power_level_def DEFAULT_BUF_SZ_def
        WISOL_SIGFOX_DEFAULT_TIMEOUT_def memset_c_all pl)
qed

text \<open>
  C23: \<^verbatim>\<open>wisol_sigfox__set_power_level\<close> makes exactly one transport call, with
  the command \<^verbatim>\<open>ATS302=\<close> followed by the level in decimal, the size 32 and the
  default timeout; it succeeds whatever the response is, and for every level
  from 0 to 255.
\<close>

theorem set_power_level_sends:
  assumes "tr (dev w) (''ATS302='' @ utoa (unat l)) (replicate 32 NUL) 100 = (resp, d)"
  shows "wisol_sigfox__set_power_level tr st l w =
           Inr (record_call w d (''ATS302='' @ utoa (unat l)) 32 100)"
  using set_power_level_unfold [where tr = tr and w = w, of l resp d st] assms
  by (simp add: power_level_command_def)

theorem set_power_level_sends_witness:
  "wisol_sigfox__set_power_level (scripted (\<lambda>c. lit ''OK'')) (\<lambda>i. CHR ''x'') 14 world0 =
     Inr (record_call world0 1 (''ATS302='' @ utoa (unat (14 :: byte))) 32 100)"
  using set_power_level_sends [of "scripted (\<lambda>c. lit ''OK'')" world0 14 "lit ''OK''" 1
      "\<lambda>i. CHR ''x''"]
  by simp

section \<open>Setting, then reading\<close>

text \<open>
  C9: Against a module that keeps register 302, the level that
  \<^verbatim>\<open>wisol_sigfox__get_power_level\<close> reads is the level that
  \<^verbatim>\<open>wisol_sigfox__set_power_level\<close> has set before, for every level from 0 to
  255 and whatever the stack held; the two commands are sent in that order.
\<close>

theorem power_level_roundtrip:
  "ebind (wisol_sigfox__set_power_level register_device st l w)
     (\<lambda>w. wisol_sigfox__get_power_level register_device st' w) =
   Inr (l, record_call (record_call w (unat l) (power_level_command l) 32 100)
             (unat l) ''ATS302?'' 32 100)"
proof -
  let ?w = "record_call w (unat l) (power_level_command l) 32 100"
  have set: "wisol_sigfox__set_power_level register_device st l w = Inr ?w"
    by (rule set_power_level_unfold) simp
  have "unat l < 2 ^ 31"
    by (rule less_trans [OF unat_byte_less]) simp
  then have "atoi_c int_bits (deliver (replicate 32 NUL) 32 (utoa (unat l) @ [NUL])) =
      Inr (int (unat l))"
    by (intro atoi_deliver_number) simp_all
  then have "wisol_sigfox__get_power_level register_device st' ?w =
      Inr (l, record_call ?w (unat l) ''ATS302?'' 32 100)"
    by (simp add: get_power_level_unfold [where tr = register_device and w = ?w] lit_def)
  with set show ?thesis
    by simp
qed

end
