(* ===== verification/Driver_Freq.thy ===== *)
theory Driver_Freq
  imports Exchange C_Float
begin

text \<open>
  The frequency queries of the driver in \<^verbatim>\<open>src/wisol_sigfox.c\<close>:

  \<^item> \<^verbatim>\<open>wisol_sigfox__freq_str_to_fl\<close> copies the first 3 characters of a text and
    the 6 characters after them into two cleared arrays, reads each with
    \<^verbatim>\<open>atoi\<close> and returns the first number plus the second divided by
    \<open>1000000\<close>, in single precision (\<open>freq_fl\<close>);
  \<^item> \<^verbatim>\<open>wisol_sigfox__get_tx_freq\<close> and \<^verbatim>\<open>wisol_sigfox__get_rx_freq\<close> send
    \<^verbatim>\<open>AT$IF?\<close> or \<^verbatim>\<open>AT$DR?\<close> and convert the response array. The array is not
    initialised, and the conversion reads 9 characters of it whatever the
    length of the response.

  \<open>text_field\<close> is what one of the cleared arrays holds after \<^verbatim>\<open>strncpy\<close>. The
  lemmas show that the conversion never leaves its arrays when the text has 9
  elements, and for which shorter texts it does not; that for 9 digits the result differs from the number of hertz
  divided by \<open>1000000\<close> by less than \<open>2\<^sup>-\<^sup>1\<^sup>4\<close>; and which stale characters a short
  response lets into the result.
\<close>

section \<open>The operations\<close>

definition freq_fl :: "int \<Rightarrow> int \<Rightarrow> f32" where
  "freq_fl i1 i2 = f32_add (f32_of_int i1) (f32_div (f32_of_int i2) 1000000)"

definition wisol_sigfox__freq_str_to_fl :: "stale \<Rightarrow> cbuf \<Rightarrow> f32 res" where
  "wisol_sigfox__freq_str_to_fl st buf =
     (let b1 = local_buf st 0 4;
          b2 = local_buf st 4 7
      in ebind (memset_c b1 NUL 4) (\<lambda>b1.
         ebind (strncpy_c b1 buf 3) (\<lambda>b1.
         ebind (memset_c b2 NUL 7) (\<lambda>b2.
         ebind (strncpy_c b2 (drop 3 buf) 6) (\<lambda>b2.
         ebind (atoi_c int_bits b1) (\<lambda>i1.
         ebind (atoi_c int_bits b2) (\<lambda>i2.
         Inr (freq_fl i1 i2))))))))"

text \<open>
  The callers pass their response array; the arrays of the conversion lie
  behind the two arrays of the caller on the stack.
\<close>

definition wisol_sigfox__get_tx_freq ::
  "'d transport \<Rightarrow> stale \<Rightarrow> 'd world \<Rightarrow> (f32 \<times> 'd world) res" where
  "wisol_sigfox__get_tx_freq tr st w =
     (let buf = local_buf st 0 DEFAULT_BUF_SZ;
          buf_res = local_buf st 32 DEFAULT_BUF_SZ
      in ebind (command CMD_GET_TX_FREQ) (\<lambda>c.
         ebind (snprintf_c buf DEFAULT_BUF_SZ ''%s'' [Arg_ptr (lit c)]) (\<lambda>(buf, n).
         ebind (wisol_sigfox__serial_sync tr buf buf_res DEFAULT_BUF_SZ
                  WISOL_SIGFOX_DEFAULT_TIMEOUT w)
           (\<lambda>(buf_res, w).
         ebind (wisol_sigfox__freq_str_to_fl (\<lambda>i. st (64 + i)) buf_res) (\<lambda>f.
         Inr (f, w))))))"

definition wisol_sigfox__get_rx_freq ::
  "'d transport \<Rightarrow> stale \<Rightarrow> 'd world \<Rightarrow> (f32 \<times> 'd world) res" where
  "wisol_sigfox__get_rx_freq tr st w =
     (let buf = local_buf st 0 DEFAULT_BUF_SZ;
          buf_res = local_buf st 32 DEFAULT_BUF_SZ
      in ebind (command CMD_GET_RX_FREQ) (\<lambda>c.
         ebind (snprintf_c buf DEFAULT_BUF_SZ ''%s'' [Arg_ptr (lit c)]) (\<lambda>(buf, n).
         ebind (wisol_sigfox__serial_sync tr buf buf_res DEFAULT_BUF_SZ
                  WISOL_SIGFOX_DEFAULT_TIMEOUT w)
           (\<lambda>(buf_res, w).
         ebind (wisol_sigfox__freq_str_to_fl (\<lambda>i. st (64 + i)) buf_res) (\<lambda>f.
         Inr (f, w))))))"

section \<open>The fields of the text\<close>

text \<open>
  What \<^verbatim>\<open>strncpy\<close> of \<open>n\<close> characters leaves in a cleared array, as a string:
  the first \<open>n\<close> characters of the source, up to its terminator if that comes
  first.
\<close>

definition text_field :: "nat \<Rightarrow> cbuf \<Rightarrow> string" where
  "text_field n src = takeWhile (\<lambda>c. c \<noteq> NUL) (take n src)"

lemma length_text_field: "length (text_field n src) \<le> n"
  using length_takeWhile_le [of "\<lambda>c. c \<noteq> NUL" "take n src"] by (simp add: text_field_def)

lemma text_field_digits:
  assumes "\<forall>c \<in> set ds. isdigit_c c" and "n \<le> length ds"
  shows "text_field n (ds @ r) = take n ds"
proof -
  have "\<forall>c \<in> set (take n ds). c \<noteq> NUL"
    using assms(1) by (metis in_set_takeD isdigit_c_simps(1))
  then show ?thesis
    using assms(2) by (simp add: text_field_def takeWhile_eq_all_conv [THEN iffD2])
qed

lemma copy_field:
  assumes "n < m" and "n \<le> length src"
  shows "strncpy_c (replicate m NUL) src n =
           Inr (text_field n src @ replicate (m - length (text_field n src)) NUL)"
proof -
  have "replicate (n - length (text_field n src)) NUL @ replicate (m - n) NUL =
      replicate (m - length (text_field n src)) NUL"
    using assms(1) length_text_field [of n src] by (simp flip: replicate_add)
  then show ?thesis
    using assms by (simp add: strncpy_c_long text_field_def)
qed

lemma atoi_field:
  assumes "n < m" and "n \<le> 9"
  shows "atoi_c int_bits (text_field n src @ replicate (m - length (text_field n src)) NUL) =
           Inr (atoi_value (text_field n src))"
proof -
  let ?s = "text_field n src"
  obtain k where k: "m - length ?s = Suc k"
    using assms(1) length_text_field [of n src] by (cases "m - length ?s") simp_all
  have "\<bar>atoi_value ?s\<bar> < 10 ^ length ?s"
    by (rule atoi_value_bound)
  also have "\<dots> \<le> 10 ^ 9"
    using assms(2) length_text_field [of n src] by (intro power_increasing) simp_all
  finally have "- 2147483648 \<le> atoi_value ?s \<and> atoi_value ?s < 2147483648"
    by simp linarith
  then show ?thesis
    by (simp add: k atoi_c_terminated int_bits_def)
qed

section \<open>The conversion\<close>

lemma freq_str_to_fl_unfold:
  assumes "9 \<le> length buf"
  shows "wisol_sigfox__freq_str_to_fl st buf =
           Inr (freq_fl (atoi_value (text_field 3 buf)) (atoi_value (text_field 6 (drop 3 buf))))"
  using assms
  by (simp add: wisol_sigfox__freq_str_to_fl_def memset_c_all copy_field atoi_field)

text \<open>
  The two roundings of \<open>freq_fl\<close> on a number of megahertz below 1000 and a
  number of hertz below 1000000: the quotient is below 1 and the sum below
  1024, so the errors are at most \<open>2\<^sup>-\<^sup>2\<^sup>5\<close> and \<open>2\<^sup>-\<^sup>1\<^sup>5\<close>.
\<close>

lemma freq_fl_error:
  assumes i1: "0 \<le> i1" "i1 < 1000" and i2: "0 \<le> i2" "i2 < 1000000"
  shows "\<bar>freq_fl i1 i2 - (of_int i1 + of_int i2 / 1000000)\<bar> < 1 / 2 ^ 14"
proof -
  let ?y = "rat_of_int i2 / 1000000"
  let ?s = "rat_of_int i1 + f32_round ?y"
  have y: "0 \<le> ?y" "?y < 1"
    using i2 by simp_all
  then have "\<bar>?y\<bar> < power_int 2 0"
    by simp
  from f32_round_error_below [OF this] have ey: "\<bar>f32_round ?y - ?y\<bar> \<le> 1 / 33554432"
    by (simp add: power_int_minus_divide)
  have "rat_of_int i1 \<le> 999" "0 \<le> rat_of_int i1"
    using i1 by simp_all
  with y ey have "\<bar>?s\<bar> < 1024"
    by linarith
  then have "\<bar>?s\<bar> < power_int 2 10"
    by simp
  from f32_round_error_below [OF this] have es: "\<bar>f32_round ?s - ?s\<bar> \<le> 1 / 32768"
    by (simp add: power_int_minus_divide)
  have "freq_fl i1 i2 = f32_round ?s"
    using i1 i2 by (simp add: freq_fl_def f32_add_def f32_div_def)
  with ey es have "\<bar>freq_fl i1 i2 - (of_int i1 + ?y)\<bar> < 1 / 16384"
    by linarith
  then show ?thesis
    by simp
qed

lemma nine_digits:
  assumes "length ds = 9" and "\<forall>c \<in> set ds. isdigit_c c"
  shows "atoi_value (text_field 3 (ds @ r)) = int (dec_value (take 3 ds))"
    and "atoi_value (text_field 6 (drop 3 ds @ r)) = int (dec_value (drop 3 ds))"
    and "dec_value (take 3 ds) < 1000" and "dec_value (drop 3 ds) < 1000000"
    and "dec_value ds = dec_value (take 3 ds) * 1000000 + dec_value (drop 3 ds)"
proof -
  have d1: "\<forall>c \<in> set (take 3 ds). isdigit_c c" and d2: "\<forall>c \<in> set (drop 3 ds). isdigit_c c"
    using assms(2) by (auto dest: in_set_takeD in_set_dropD)
  show "atoi_value (text_field 3 (ds @ r)) = int (dec_value (take 3 ds))"
    using assms by (simp add: text_field_digits atoi_value_digits [OF d1])
  show "atoi_value (text_field 6 (drop 3 ds @ r)) = int (dec_value (drop 3 ds))"
    using assms text_field_digits [OF d2, of 6 r] by (simp add: atoi_value_digits [OF d2])
  show "dec_value (take 3 ds) < 1000" "dec_value (drop 3 ds) < 1000000"
    using dec_value_bound [OF d1] dec_value_bound [OF d2] assms(1) by simp_all
  show "dec_value ds = dec_value (take 3 ds) * 1000000 + dec_value (drop 3 ds)"
    using dec_value_append [of "take 3 ds" "drop 3 ds"] assms(1) by simp
qed

lemma freq_str_to_fl_accurate_aux:
  assumes "length ds = 9" and "\<forall>c \<in> set ds. isdigit_c c"
  shows "\<bar>freq_fl (atoi_value (text_field 3 (ds @ r))) (atoi_value (text_field 6 (drop 3 ds @ r)))
          - of_nat (dec_value ds) / 1000000\<bar> < 1 / 2 ^ 14"
proof -
  note nd = nine_digits [OF assms]
  have eq: "rat_of_nat (dec_value ds) / 1000000 =
      of_int (int (dec_value (take 3 ds))) + of_int (int (dec_value (drop 3 ds))) / 1000000"
    by (simp add: nd(5))
  show ?thesis
    unfolding eq nd(1,2) using nd(3,4) by (intro freq_fl_error) simp_all
qed

text \<open>
  C29: For a text that starts with 9 digits \<^verbatim>\<open>wisol_sigfox__freq_str_to_fl\<close>
  returns the single-precision sum of the number in the first 3 digits and the
  single-precision quotient of the number in the next 6 digits by \<open>1000000\<close>,
  whatever follows the digits and whatever the stack held.
\<close>

theorem freq_str_to_fl_digits:
  assumes "length ds = 9" and "\<forall>c \<in> set ds. isdigit_c c"
  shows "wisol_sigfox__freq_str_to_fl st (ds @ r) =
           Inr (freq_fl (int (dec_value (take 3 ds))) (int (dec_value (drop 3 ds))))"
  using assms by (simp add: freq_str_to_fl_unfold nine_digits)

theorem freq_str_to_fl_digits_witness:
  "wisol_sigfox__freq_str_to_fl (\<lambda>i. CHR ''x'') (''868130000'' @ []) = Inr (14223442 / 16384)
   \<and> wisol_sigfox__freq_str_to_fl (\<lambda>i. CHR ''x'') (''000000000'' @ lit ''OK'') = Inr 0"
proof -
  have "freq_fl 868 130000 = 14223442 / 16384" "freq_fl 0 0 = 0"
    by code_simp+
  then show ?thesis
    using freq_str_to_fl_digits [of "''868130000''" "\<lambda>i. CHR ''x''" "[]"]
      freq_str_to_fl_digits [of "''000000000''" "\<lambda>i. CHR ''x''" "lit ''OK''"]
    by (simp add: isdigit_c_def dec_value_def digit_val_def)
qed

text \<open>
  C5: For a text that starts with 9 digits the result of
  \<^verbatim>\<open>wisol_sigfox__freq_str_to_fl\<close> differs from the number the 9 digits denote,
  divided by \<open>1000000\<close>, by less than \<open>2\<^sup>-\<^sup>1\<^sup>4\<close>: the frequency in megahertz is
  right to about 61 hertz.
\<close>

theorem freq_str_to_fl_accurate:
  assumes "length ds = 9" and "\<forall>c \<in> set ds. isdigit_c c"
  shows "\<exists>f. wisol_sigfox__freq_str_to_fl st (ds @ r) = Inr f
             \<and> \<bar>f - of_nat (dec_value ds) / 1000000\<bar> < 1 / 2 ^ 14"
  using assms freq_str_to_fl_accurate_aux [OF assms, of r]
  by (simp add: freq_str_to_fl_unfold)

theorem freq_str_to_fl_accurate_witness:
  "\<exists>f. wisol_sigfox__freq_str_to_fl (\<lambda>i. CHR ''x'') (''868130000'' @ lit ''OK'') = Inr f
       \<and> \<bar>f - of_nat (dec_value ''868130000'') / 1000000\<bar> < 1 / 2 ^ 14"
  using freq_str_to_fl_accurate [of "''868130000''" "\<lambda>i. CHR ''x''" "lit ''OK''"]
  by (simp add: isdigit_c_def)

section \<open>The queries\<close>

text \<open>
  The statements the two queries share, for a command \<open>c\<close> of the table: the
  command is formatted through \<^verbatim>\<open>%s\<close>, sent with the size of the response array
  and the default timeout, and the array is converted, all 32 elements of it
  being readable.
\<close>

lemma freq_query:
  assumes "NUL \<notin> set c" and "length c < 32"
    and "tr (dev w) c (local_buf st 32 32) 100 = (resp, d)"
  shows "ebind (snprintf_c (local_buf st 0 32) 32 ''%s'' [Arg_ptr (lit c)])
           (\<lambda>(buf, n). ebind (wisol_sigfox__serial_sync tr buf (local_buf st 32 32) 32 100 w)
           (\<lambda>(buf_res, w). ebind (wisol_sigfox__freq_str_to_fl st' buf_res)
           (\<lambda>f. Inr (f, w)))) =
         Inr (freq_fl (atoi_value (text_field 3 (deliver (local_buf st 32 32) 32 resp)))
                (atoi_value (text_field 6 (drop 3 (deliver (local_buf st 32 32) 32 resp)))),
              record_call w d c 32 100)"
proof -
  have "format_c ''%s'' [Arg_ptr (lit c)] = Inr c"
    using assms(1) by (simp add: c_str_lit)
  from formatted_call [where tr = tr and w = w and n = 32 and buf = "local_buf st 0 32"
      and sz = 32 and rb = "local_buf st 32 32" and t = 100 and resp = resp and d = d
      and f = "\<lambda>buf (buf_res, w). ebind (wisol_sigfox__freq_str_to_fl st' buf_res)
        (\<lambda>f. Inr (f, w))", OF this] assms
  show ?thesis
    by (simp add: freq_str_to_fl_unfold length_deliver)
qed

lemma get_tx_freq_unfold:
  assumes "tr (dev w) ''AT$IF?'' (local_buf st 32 32) 100 = (resp, d)"
  shows "wisol_sigfox__get_tx_freq tr st w =
         Inr (freq_fl (atoi_value (text_field 3 (deliver (local_buf st 32 32) 32 resp)))
                (atoi_value (text_field 6 (drop 3 (deliver (local_buf st 32 32) 32 resp)))),
              record_call w d ''AT$IF?'' 32 100)"
  using freq_query [where tr = tr and w = w and c = "''AT$IF?''", OF _ _ assms]
  by (simp add: wisol_sigfox__get_tx_freq_def DEFAULT_BUF_SZ_def
      WISOL_SIGFOX_DEFAULT_TIMEOUT_def)

lemma get_rx_freq_unfold:
  assumes "tr (dev w) ''AT$DR?'' (local_buf st 32 32) 100 = (resp, d)"
  shows "wisol_sigfox__get_rx_freq tr st w =
         Inr (freq_fl (atoi_value (text_field 3 (deliver (local_buf st 32 32) 32 resp)))
                (atoi_value (text_field 6 (drop 3 (deliver (local_buf st 32 32) 32 resp)))),
              record_call w d ''AT$DR?'' 32 100)"
  using freq_query [where tr = tr and w = w and c = "''AT$DR?''", OF _ _ assms]
  by (simp add: wisol_sigfox__get_rx_freq_def DEFAULT_BUF_SZ_def
      WISOL_SIGFOX_DEFAULT_TIMEOUT_def)

text \<open>A response of 9 digits, as the response array holds it.\<close>

lemma freq_fl_response:
  assumes "length ds = 9" and "\<forall>c \<in> set ds. isdigit_c c"
  shows "\<bar>freq_fl (atoi_value (text_field 3 (deliver buf 32 (ds @ x))))
            (atoi_value (text_field 6 (drop 3 (deliver buf 32 (ds @ x)))))
          - of_nat (dec_value ds) / 1000000\<bar> < 1 / 2 ^ 14"
proof -
  have "deliver buf 32 (ds @ x) = ds @ take 23 x @ drop (min 32 (9 + length x)) buf"
    using assms(1) by (simp add: deliver_def)
  then obtain r where r: "deliver buf 32 (ds @ x) = ds @ r"
    by blast
  from freq_str_to_fl_accurate_aux [OF assms, of r] show ?thesis
    using assms(1) by (simp add: r)
qed

text \<open>
  C21: When the response to \<^verbatim>\<open>AT$IF?\<close> starts with 9 digits,
  \<^verbatim>\<open>wisol_sigfox__get_tx_freq\<close> returns, after that one transport call with size
  32 and the default timeout, a number that differs from the 9-digit number of
  hertz divided by \<open>1000000\<close> by less than \<open>2\<^sup>-\<^sup>1\<^sup>4\<close>.
\<close>

theorem get_tx_freq_parses:
  assumes "tr (dev w) ''AT$IF?'' (local_buf st 32 32) 100 = (ds @ x, d)"
    and "length ds = 9" and "\<forall>c \<in> set ds. isdigit_c c"
  shows "\<exists>f. wisol_sigfox__get_tx_freq tr st w = Inr (f, record_call w d ''AT$IF?'' 32 100)
             \<and> \<bar>f - of_nat (dec_value ds) / 1000000\<bar> < 1 / 2 ^ 14"
  using freq_fl_response [OF assms(2,3)]
  by (simp add: get_tx_freq_unfold [where tr = tr and w = w, OF assms(1)])

theorem get_tx_freq_parses_witness:
  "\<exists>f. wisol_sigfox__get_tx_freq (scripted (\<lambda>c. ''868130000'' @ lit ''OK'')) (\<lambda>i. CHR ''x'') world0 =
         Inr (f, record_call world0 1 ''AT$IF?'' 32 100)
       \<and> \<bar>f - of_nat (dec_value ''868130000'') / 1000000\<bar> < 1 / 2 ^ 14"
  using get_tx_freq_parses [of "scripted (\<lambda>c. ''868130000'' @ lit ''OK'')" world0 "\<lambda>i. CHR ''x''"
      "''868130000''" "lit ''OK''" 1]
  by (simp add: isdigit_c_def)

text \<open>
  The same holds of \<^verbatim>\<open>wisol_sigfox__get_rx_freq\<close> and the response to
  \<^verbatim>\<open>AT$DR?\<close>.
\<close>

lemma get_rx_freq_parses:
  assumes "tr (dev w) ''AT$DR?'' (local_buf st 32 32) 100 = (ds @ x, d)"
    and "length ds = 9" and "\<forall>c \<in> set ds. isdigit_c c"
  shows "\<exists>f. wisol_sigfox__get_rx_freq tr st w = Inr (f, record_call w d ''AT$DR?'' 32 100)
             \<and> \<bar>f - of_nat (dec_value ds) / 1000000\<bar> < 1 / 2 ^ 14"
  using freq_fl_response [OF assms(2,3)]
  by (simp add: get_rx_freq_unfold [where tr = tr and w = w, OF assms(1)])

text \<open>
  \<^verbatim>\<open>wisol_sigfox__get_tx_freq\<close> and \<^verbatim>\<open>wisol_sigfox__get_rx_freq\<close> stay inside
  their arrays for every transport, stack content and world: the conversion
  reads 9 of the 32 elements of the response array, and the two cleared arrays
  always hold terminated strings of at most 3 and 6 characters.
\<close>

lemma freq_queries_never_fail:
  "is_ok (wisol_sigfox__get_tx_freq tr st w) \<and> is_ok (wisol_sigfox__get_rx_freq tr st w)"
proof -
  obtain r1 d1 r2 d2 where "tr (dev w) ''AT$IF?'' (local_buf st 32 32) 100 = (r1, d1)"
    and "tr (dev w) ''AT$DR?'' (local_buf st 32 32) 100 = (r2, d2)"
    by (metis surj_pair)
  then show ?thesis
    by (simp add: get_tx_freq_unfold [where tr = tr and w = w]
        get_rx_freq_unfold [where tr = tr and w = w])
qed

section \<open>Short responses\<close>

lemma text_field_take: "text_field n (take n src) = text_field n src"
  by (simp add: text_field_def)

lemma stale_fraction:
  assumes "length resp \<le> 3"
  shows "text_field 6 (drop 3 (deliver (local_buf st 32 32) 32 resp)) =
           text_field 6 (local_buf st 35 6)"
proof -
  have "drop 3 (deliver (local_buf st 32 32) 32 resp) = drop 3 (local_buf st 32 32)"
    using assms by (simp add: deliver_def min_def)
  moreover have "take 6 (drop 3 (local_buf st 32 32)) = local_buf st 35 6"
    by (simp add: local_buf_def take_map drop_map)
  ultimately show ?thesis
    using text_field_take [of 6 "drop 3 (local_buf st 32 32)"] by simp
qed

text \<open>
  C35: When the response to \<^verbatim>\<open>AT$IF?\<close> has at most 3 characters, the 6 characters
  that \<^verbatim>\<open>wisol_sigfox__get_tx_freq\<close> reads as the fraction are the stale elements
  3 to 8 of its response array, which it has not initialised: the result
  depends on what the stack held.
\<close>

theorem get_tx_freq_short_response:
  assumes "tr (dev w) ''AT$IF?'' (local_buf st 32 32) 100 = (resp, d)"
    and "length resp \<le> 3"
  shows "wisol_sigfox__get_tx_freq tr st w =
           Inr (freq_fl (atoi_value (text_field 3 (deliver (local_buf st 32 32) 32 resp)))
                  (atoi_value (text_field 6 (local_buf st 35 6))),
                record_call w d ''AT$IF?'' 32 100)"
  by (simp add: get_tx_freq_unfold [where tr = tr and w = w, OF assms(1)]
      stale_fraction [OF assms(2)])

theorem get_tx_freq_short_response_witness:
  "wisol_sigfox__get_tx_freq (scripted (\<lambda>c. lit ''OK'')) (\<lambda>i. CHR ''5'') world0 =
     Inr (freq_fl 0 555555, record_call world0 1 ''AT$IF?'' 32 100)"
proof -
  have "atoi_value ''OK'' = 0" "atoi_value ''555555'' = 555555"
    by (simp_all add: atoi_value_def atoi_sign_def isspace_c_def isdigit_c_def dec_value_def
        digit_val_def)
  moreover have "local_buf (\<lambda>i. CHR ''5'') 35 6 = ''555555''"
    by (simp add: local_buf_def map_replicate_const [symmetric] upt_rec)
  ultimately show ?thesis
    using get_tx_freq_short_response [of "scripted (\<lambda>c. lit ''OK'')" world0 "\<lambda>i. CHR ''5''"
        "lit ''OK''" 1]
    by (simp add: text_field_def deliver_def lit_def)
qed

section \<open>When the conversion is defined\<close>

lemma strncpy_cleared:
  assumes "n < m" and "strncpy_chars src n = Inr cs"
  shows "strncpy_c (replicate m NUL) src n = Inr (cs @ NUL # replicate (m - Suc n) NUL)"
proof -
  have "replicate (m - n) NUL = NUL # replicate (m - Suc n) NUL"
    using assms(1) by (cases "m - n") simp_all
  then show ?thesis
    using assms strncpy_chars_length [OF assms(2)] by (simp add: strncpy_c_def poke_def)
qed

lemma atoi_short_ok:
  assumes "length cs \<le> 9"
  shows "is_ok (atoi_c int_bits (cs @ NUL # r))"
proof -
  have "\<bar>atoi_value cs\<bar> < 10 ^ length cs"
    by (rule atoi_value_bound)
  also have "\<dots> \<le> 10 ^ 9"
    using assms by (intro power_increasing) simp_all
  finally have "- 2147483648 \<le> atoi_value cs \<and> atoi_value cs < 2147483648"
    by simp linarith
  then show ?thesis
    by (simp add: atoi_c_terminated int_bits_def)
qed

text \<open>
  C26: \<^verbatim>\<open>wisol_sigfox__freq_str_to_fl\<close> stays inside the text it is given if and
  only if the text has 3 elements or a terminator among them, and 6 more
  elements behind the third or a terminator among those: a string shorter than
  3 characters at the end of its array makes the second \<^verbatim>\<open>strncpy\<close> read past
  the array.
\<close>

theorem freq_str_to_fl_defined_iff:
  "is_ok (wisol_sigfox__freq_str_to_fl st buf) \<longleftrightarrow>
     (3 \<le> length buf \<or> NUL \<in> set buf) \<and> (9 \<le> length buf \<or> NUL \<in> set (drop 3 buf))"
proof (cases "strncpy_chars buf 3")
  case (Inl e)
  with strncpy_chars_ok_iff [of buf 3] show ?thesis
    by (simp add: wisol_sigfox__freq_str_to_fl_def memset_c_all strncpy_c_def)
next
  case c1: (Inr cs1)
  with strncpy_chars_ok_iff [of buf 3] have ok1: "3 \<le> length buf \<or> NUL \<in> set buf"
    by simp
  show ?thesis
  proof (cases "strncpy_chars (drop 3 buf) 6")
    case (Inl e)
    with strncpy_chars_ok_iff [of "drop 3 buf" 6] have "\<not> (9 \<le> length buf \<or> NUL \<in> set (drop 3 buf))"
      by auto
    with Inl c1 show ?thesis
      by (simp add: wisol_sigfox__freq_str_to_fl_def memset_c_all strncpy_c_def is_ok_ebind)
  next
    case c2: (Inr cs2)
    with strncpy_chars_ok_iff [of "drop 3 buf" 6] have "9 \<le> length buf \<or> NUL \<in> set (drop 3 buf)"
      by auto
    moreover have "is_ok (atoi_c int_bits (cs1 @ NUL # replicate 0 NUL))"
      and "is_ok (atoi_c int_bits (cs2 @ NUL # replicate 0 NUL))"
      using strncpy_chars_length [OF c1] strncpy_chars_length [OF c2]
      by (simp_all add: atoi_short_ok)
    ultimately show ?thesis
      using ok1 c1 c2
      by (auto simp: wisol_sigfox__freq_str_to_fl_def memset_c_all strncpy_cleared is_ok_iff)
  qed
qed

theorem freq_str_to_fl_defined_iff_witness:
  "\<not> is_ok (wisol_sigfox__freq_str_to_fl (\<lambda>i. CHR ''x'') (lit ''86''))
   \<and> is_ok (wisol_sigfox__freq_str_to_fl (\<lambda>i. CHR ''x'') (lit ''86'' @ [NUL]))"
  using freq_str_to_fl_defined_iff [of "\<lambda>i. CHR ''x''" "lit ''86''"]
    freq_str_to_fl_defined_iff [of "\<lambda>i. CHR ''x''" "lit ''86'' @ [NUL]"]
  by (simp add: lit_def)

end
