(* ===== verification/Session.thy ===== *)
theory Session
  imports Driver_Status Driver_Frame Driver_Info Driver_Power Driver_Freq
begin

text \<open>
  The public interface of the driver, \<^verbatim>\<open>src/wisol_sigfox.h\<close>, as one step
  function, and what a user of the library can rely on across calls.

  \<^item> \<open>request\<close> has one constructor for each function the header declares, with
    the arguments of the function; \<open>reply\<close> is what the function returns or
    leaves in the caller's buffer; \<open>perform\<close> calls the function.
  \<^item> \<open>session\<close> is the step relation of a program that uses the driver: any
    sequence of requests, each with whatever the stack holds at that moment,
    each completing without undefined behaviour.
  \<^item> \<open>expected_calls\<close> is the contract of the codec: the transport calls each
    operation is to make, with command text, size and timeout.
    \<open>actual_calls\<close> is what the code makes; the two differ for a frame with
    an empty payload only (\<open>wf_request\<close>).
  \<^item> \<open>wf_call\<close> is what every call the driver makes satisfies whatever its
    inputs are: the command starts with \<^verbatim>\<open>AT\<close>, holds no \<open>NUL\<close> and has fewer
    than 56 characters, and the timeout is 100 except for a frame, where it is
    20000.

  The lemmas of the section on logs give, for each operation that returns, the
  calls it has appended to the log; the properties over sessions are proved by
  rule induction from them in the root theory.
\<close>

section \<open>Requests and replies\<close>

datatype request =
    Ready
  | Get_Id cbuf
  | Get_Pac cbuf
  | Send_Frame "byte list" nat bool
  | Get_Tx_Freq
  | Get_Rx_Freq
  | Get_Firmware_Vcs_Version cbuf nat
  | Get_Firmware_Version cbuf nat
  | Get_Library_Version cbuf nat
  | Set_Power_Mode wisol_sigfox_power_mode_t
  | Get_Power_Level
  | Set_Power_Level byte

datatype reply =
    Flag bool
  | Text cbuf
  | Frequency f32
  | Level byte
  | Nothing

fun perform :: "'d transport \<Rightarrow> stale \<Rightarrow> request \<Rightarrow> 'd world \<Rightarrow> (reply \<times> 'd world) res" where
  "perform tr st Ready w =
     ebind (wisol_sigfox__ready tr st w) (\<lambda>(b, w). Inr (Flag b, w))"
| "perform tr st (Get_Id p_id_buf) w =
     ebind (wisol_sigfox__get_id tr st p_id_buf w) (\<lambda>(p, w). Inr (Text p, w))"
| "perform tr st (Get_Pac p_pac_buf) w =
     ebind (wisol_sigfox__get_pac tr st p_pac_buf w) (\<lambda>(p, w). Inr (Text p, w))"
| "perform tr st (Send_Frame p_payload_buf payload_size downlink_flag) w =
     ebind (wisol_sigfox__send_frame tr st p_payload_buf payload_size downlink_flag w)
       (\<lambda>(b, w). Inr (Flag b, w))"
| "perform tr st Get_Tx_Freq w =
     ebind (wisol_sigfox__get_tx_freq tr st w) (\<lambda>(f, w). Inr (Frequency f, w))"
| "perform tr st Get_Rx_Freq w =
     ebind (wisol_sigfox__get_rx_freq tr st w) (\<lambda>(f, w). Inr (Frequency f, w))"
| "perform tr st (Get_Firmware_Vcs_Version p_buf sz_buf) w =
     ebind (wisol_sigfox__get_firmware_vcs_version tr st p_buf sz_buf w)
       (\<lambda>(p, w). Inr (Text p, w))"
| "perform tr st (Get_Firmware_Version p_buf sz_buf) w =
     ebind (wisol_sigfox__get_firmware_version tr st p_buf sz_buf w)
       (\<lambda>(p, w). Inr (Text p, w))"
| "perform tr st (Get_Library_Version p_buf sz_buf) w =
     ebind (wisol_sigfox__get_library_version tr st p_buf sz_buf w)
       (\<lambda>(p, w). Inr (Text p, w))"
| "perform tr st (Set_Power_Mode mode) w =
     ebind (wisol_sigfox__set_power_mode tr st mode w) (\<lambda>w. Inr (Nothing, w))"
| "perform tr st Get_Power_Level w =
     ebind (wisol_sigfox__get_power_level tr st w) (\<lambda>(l, w). Inr (Level l, w))"
| "perform tr st (Set_Power_Level power_level) w =
     ebind (wisol_sigfox__set_power_level tr st power_level w) (\<lambda>w. Inr (Nothing, w))"

text \<open>
  A use of the driver: from a world, the requests made so far, and the world
  they have led to. Each request runs with its own stack content.
\<close>

inductive session :: "'d transport \<Rightarrow> 'd world \<Rightarrow> request list \<Rightarrow> 'd world \<Rightarrow> bool"
  for tr :: "'d transport" and w :: "'d world" where
  start: "session tr w [] w"
| step: "session tr w rs w1 \<Longrightarrow> perform tr st r w1 = Inr (v, w2) \<Longrightarrow> session tr w (rs @ [r]) w2"

inductive_cases session_NilE: "session tr w [] w'"

text \<open>The same as a function: a list of requests, each with its stack content.\<close>

fun run :: "'d transport \<Rightarrow> (stale \<times> request) list \<Rightarrow> 'd world \<Rightarrow> (reply list \<times> 'd world) res" where
  "run tr [] w = Inr ([], w)"
| "run tr ((st, r) # srs) w =
     ebind (perform tr st r w) (\<lambda>(v, w).
     ebind (run tr srs w) (\<lambda>(vs, w). Inr (v # vs, w)))"

section \<open>The contract\<close>

abbreviation the_call :: "string \<Rightarrow> nat \<Rightarrow> nat \<Rightarrow> call" where
  "the_call c sz t \<equiv> \<lparr>call_cmd = c, call_size = sz, call_timeout = t\<rparr>"

fun expected_calls :: "request \<Rightarrow> call list" where
  "expected_calls Ready = [the_call ''AT'' 32 100]"
| "expected_calls (Get_Id p) = [the_call ''AT$I=10'' 8 100]"
| "expected_calls (Get_Pac p) = [the_call ''AT$I=11'' 16 100]"
| "expected_calls (Send_Frame p n dl) =
     (if 12 < n then [] else [the_call (frame_command (payload_hex (take n p)) dl) 32 20000])"
| "expected_calls Get_Tx_Freq = [the_call ''AT$IF?'' 32 100]"
| "expected_calls Get_Rx_Freq = [the_call ''AT$DR?'' 32 100]"
| "expected_calls (Get_Firmware_Vcs_Version p sz) = [the_call ''AT$I=8'' sz 100]"
| "expected_calls (Get_Firmware_Version p sz) = [the_call ''AT$I=4'' 32 100, the_call ''AT$I=5'' 32 100]"
| "expected_calls (Get_Library_Version p sz) = [the_call ''AT$I=9'' sz 100]"
| "expected_calls (Set_Power_Mode mode) = [the_call (power_mode_command mode) 32 100]"
| "expected_calls Get_Power_Level = [the_call ''ATS302?'' 32 100]"
| "expected_calls (Set_Power_Level l) = [the_call (power_level_command l) 32 100]"

fun wf_request :: "request \<Rightarrow> bool" where
  "wf_request (Send_Frame p n dl) \<longleftrightarrow> 0 < n"
| "wf_request _ \<longleftrightarrow> True"

text \<open>
  The calls the code makes. For a frame with an empty payload the command
  embeds the string found in the array of the hexadecimal text.
\<close>

fun actual_calls :: "stale \<Rightarrow> request \<Rightarrow> call list" where
  "actual_calls st (Send_Frame p n dl) =
     (if n = 0
      then [the_call (frame_command (takeWhile (\<lambda>c. c \<noteq> NUL) (local_buf st 56 25)) dl) 32 20000]
      else expected_calls (Send_Frame p n dl))"
| "actual_calls st r = expected_calls r"

definition wf_call :: "call \<Rightarrow> bool" where
  "wf_call c \<longleftrightarrow>
     take 2 (call_cmd c) = ''AT'' \<and> NUL \<notin> set (call_cmd c) \<and> length (call_cmd c) < 56 \<and>
     call_timeout c = (if take 6 (call_cmd c) = ''AT$SF='' then 20000 else 100)"

definition wf_log :: "'d world \<Rightarrow> bool" where
  "wf_log w \<longleftrightarrow> list_all wf_call (calls w)"

text \<open>
  What the header asks of the caller: buffers of at least 9 and 17 characters
  for identifier and PAC, a size that is not more than the capacity of the
  buffer, and a payload that has the bytes its size says. A frame that the
  function accepts must have a payload: the header does not say so.
\<close>

fun request_ok :: "request \<Rightarrow> bool" where
  "request_ok (Get_Id p) \<longleftrightarrow> 9 \<le> length p"
| "request_ok (Get_Pac p) \<longleftrightarrow> 17 \<le> length p"
| "request_ok (Send_Frame p n dl) \<longleftrightarrow> 12 < n \<or> (0 < n \<and> n \<le> length p)"
| "request_ok (Get_Firmware_Vcs_Version p sz) \<longleftrightarrow> sz \<le> length p"
| "request_ok (Get_Firmware_Version p sz) \<longleftrightarrow> sz \<le> length p"
| "request_ok (Get_Library_Version p sz) \<longleftrightarrow> sz \<le> length p"
| "request_ok _ \<longleftrightarrow> True"

text \<open>
  A transport that terminates every response and returns at most 9 characters
  before the terminator, as a module does that answers with \<^verbatim>\<open>OK\<close>, a
  frequency or a level.
\<close>

definition polite :: "'d transport \<Rightarrow> bool" where
  "polite tr \<longleftrightarrow>
     (\<forall>d c win t. \<exists>r x. fst (tr d c win t) = r @ NUL # x \<and> length r \<le> 9)"

section \<open>The log of each operation\<close>

lemma ready_log:
  "wisol_sigfox__ready tr st w = Inr (b, w') \<Longrightarrow> calls w' = calls w @ [the_call ''AT'' 32 100]"
  by (cases "tr (dev w) ''AT'' (local_buf st 0 32) 100") (auto simp: ready_unfold)

lemma get_id_log:
  assumes "wisol_sigfox__get_id tr st p w = Inr (p', w')"
  shows "calls w' = calls w @ [the_call ''AT$I=10'' 8 100]"
proof -
  from assms have "9 \<le> length p"
    by (auto simp: wisol_sigfox__get_id_def ebind_eq_Inr_iff memset_c_Inr_iff)
  with assms show ?thesis
    by (cases "tr (dev w) ''AT$I=10'' (replicate 8 NUL) 100") (auto simp: get_id_unfold)
qed

lemma get_pac_log:
  assumes "wisol_sigfox__get_pac tr st p w = Inr (p', w')"
  shows "calls w' = calls w @ [the_call ''AT$I=11'' 16 100]"
proof -
  from assms have "17 \<le> length p"
    by (auto simp: wisol_sigfox__get_pac_def ebind_eq_Inr_iff memset_c_Inr_iff)
  with assms show ?thesis
    by (cases "tr (dev w) ''AT$I=11'' (replicate 16 NUL) 100") (auto simp: get_pac_unfold)
qed

lemma send_frame_log:
  assumes "wisol_sigfox__send_frame tr st p n dl w = Inr (b, w')"
  shows "calls w' = calls w @ actual_calls st (Send_Frame p n dl)"
  using send_frame_Inr [OF assms]
  by (auto simp: hex_text_def c_str_Inr_iff split: if_splits)

lemma get_tx_freq_log:
  "wisol_sigfox__get_tx_freq tr st w = Inr (f, w') \<Longrightarrow>
   calls w' = calls w @ [the_call ''AT$IF?'' 32 100]"
  by (cases "tr (dev w) ''AT$IF?'' (local_buf st 32 32) 100") (auto simp: get_tx_freq_unfold)

lemma get_rx_freq_log:
  "wisol_sigfox__get_rx_freq tr st w = Inr (f, w') \<Longrightarrow>
   calls w' = calls w @ [the_call ''AT$DR?'' 32 100]"
  by (cases "tr (dev w) ''AT$DR?'' (local_buf st 32 32) 100") (auto simp: get_rx_freq_unfold)

lemma get_firmware_vcs_version_log:
  "wisol_sigfox__get_firmware_vcs_version tr st p sz w = Inr (p', w') \<Longrightarrow>
   calls w' = calls w @ [the_call ''AT$I=8'' sz 100]"
  by (auto simp: wisol_sigfox__get_firmware_vcs_version_def ebind_eq_Inr_iff DEFAULT_BUF_SZ_def
      dest!: information_query_calls [rotated])

lemma get_library_version_log:
  "wisol_sigfox__get_library_version tr st p sz w = Inr (p', w') \<Longrightarrow>
   calls w' = calls w @ [the_call ''AT$I=9'' sz 100]"
  by (auto simp: wisol_sigfox__get_library_version_def ebind_eq_Inr_iff DEFAULT_BUF_SZ_def
      dest!: information_query_calls [rotated])

lemma get_firmware_version_log:
  assumes "wisol_sigfox__get_firmware_version tr st p sz w = Inr (p', w')"
  shows "calls w' = calls w @ [the_call ''AT$I=4'' 32 100, the_call ''AT$I=5'' 32 100]"
proof -
  obtain r1 d1 where t1: "tr (dev w) ''AT$I=4'' (local_buf st 32 32) 100 = (r1, d1)"
    by (cases "tr (dev w) ''AT$I=4'' (local_buf st 32 32) 100")
  obtain r2 d2 where t2: "tr d1 ''AT$I=5'' (local_buf st 64 32) 100 = (r2, d2)"
    by (cases "tr d1 ''AT$I=5'' (local_buf st 64 32) 100")
  from assms show ?thesis
    by (auto simp: firmware_version_unfold [where tr = tr and w = w, OF t1 t2] ebind_eq_Inr_iff)
qed

lemma set_power_mode_log:
  "wisol_sigfox__set_power_mode tr st mode w = Inr w' \<Longrightarrow>
   calls w' = calls w @ [the_call (power_mode_command mode) 32 100]"
  by (cases "tr (dev w) (power_mode_command mode) (local_buf st 32 32) 100")
     (auto simp: set_power_mode_unfold)

lemma get_power_level_log:
  "wisol_sigfox__get_power_level tr st w = Inr (l, w') \<Longrightarrow>
   calls w' = calls w @ [the_call ''ATS302?'' 32 100]"
  by (cases "tr (dev w) ''ATS302?'' (replicate 32 NUL) 100")
     (auto simp: get_power_level_unfold ebind_eq_Inr_iff)

lemma set_power_level_log:
  "wisol_sigfox__set_power_level tr st l w = Inr w' \<Longrightarrow>
   calls w' = calls w @ [the_call (power_level_command l) 32 100]"
  by (cases "tr (dev w) (power_level_command l) (replicate 32 NUL) 100")
     (auto simp: set_power_level_unfold)

lemmas operation_logs =
  ready_log get_id_log get_pac_log send_frame_log get_tx_freq_log get_rx_freq_log
  get_firmware_vcs_version_log get_firmware_version_log get_library_version_log
  set_power_mode_log get_power_level_log set_power_level_log

text \<open>Every request that returns has appended the calls of the code to the log.\<close>

lemma perform_log:
  "perform tr st r w = Inr (v, w') \<Longrightarrow> calls w' = calls w @ actual_calls st r"
  by (cases r) (auto simp: ebind_eq_Inr_iff dest: operation_logs)

lemma actual_calls_wf [simp]: "wf_request r \<Longrightarrow> actual_calls st r = expected_calls r"
  by (cases r) simp_all

section \<open>The calls are well formed\<close>

lemma wf_call_frame:
  "NUL \<notin> set h \<Longrightarrow> length h \<le> 25 \<Longrightarrow> wf_call (the_call (frame_command h dl) 32 20000)"
  by (simp add: wf_call_def frame_command_def)

lemma wf_call_query:
  "take 2 c = ''AT'' \<Longrightarrow> take 6 c \<noteq> ''AT$SF='' \<Longrightarrow> NUL \<notin> set c \<Longrightarrow> length c < 56 \<Longrightarrow>
   wf_call (the_call c sz 100)"
  by (simp add: wf_call_def)

lemma actual_calls_wf_call: "list_all wf_call (actual_calls st r)"
proof (cases r)
  case (Send_Frame p n dl)
  have "length (takeWhile (\<lambda>c. c \<noteq> NUL) (local_buf st 56 25)) \<le> 25"
    using length_takeWhile_le [of "\<lambda>c. c \<noteq> NUL" "local_buf st 56 25"] by simp
  then show ?thesis
    by (simp add: Send_Frame wf_call_frame takeWhile_idem_set NUL_notin_payload_hex)
next
  case (Set_Power_Mode mode)
  then show ?thesis
    by (cases mode) (simp_all add: wf_call_query)
next
  case (Set_Power_Level l)
  have "length (power_level_command l) < 56"
    by (rule less_trans [OF power_level_command_props(2)]) simp
  then show ?thesis
    by (simp add: Set_Power_Level wf_call_def power_level_command_def)
qed (simp_all add: wf_call_query)

section \<open>Sessions\<close>

lemma session_cons:
  assumes "session tr w1 rs w2" and "perform tr st r w = Inr (v, w1)"
  shows "session tr w (r # rs) w2"
  using assms
proof (induction rule: session.induct)
  case start
  from session.step [OF session.start this] show ?case
    by simp
next
  case (step rs w1' st' r' v' w2)
  from session.step [OF step.IH [OF step.prems] step.hyps(2)] show ?case
    by simp
qed

lemma run_session: "run tr srs w = Inr (vs, w') \<Longrightarrow> session tr w (map snd srs) w'"
proof (induction srs arbitrary: w vs)
  case Nil
  then show ?case
    by (simp add: session.start)
next
  case (Cons sr srs)
  obtain st r where sr: "sr = (st, r)"
    by (cases sr)
  from Cons.prems obtain v w1 vs' where
    "perform tr st r w = Inr (v, w1)" "run tr srs w1 = Inr (vs', w')"
    by (auto simp: sr ebind_eq_Inr_iff)
  with Cons.IH show ?case
    by (auto simp: sr intro: session_cons)
qed

section \<open>Requests that return\<close>

lemma polite_response:
  assumes "polite tr"
  obtains r x d' where "tr d c win t = (r @ NUL # x, d')" "length r \<le> 9"
  using assms unfolding polite_def by (cases "tr d c win t") (metis fst_conv)

lemma terminated_in_window:
  "length r \<le> 9 \<Longrightarrow> NUL \<in> set (deliver (local_buf st off 32) 32 (r @ NUL # x))"
  using deliver_terminated_eq [of r 32 "local_buf st off 32" x] by auto

lemma is_ok_reply [simp]:
  "is_ok (ebind m (\<lambda>(x, w). Inr (f x, w))) \<longleftrightarrow> is_ok m"
  "is_ok (ebind m' (\<lambda>w. Inr (c, w))) \<longleftrightarrow> is_ok m'"
  by (cases m; auto) (cases m'; simp)

text \<open>The operations that return whatever the transport does.\<close>

lemma get_id_ok: "9 \<le> length p \<Longrightarrow> is_ok (wisol_sigfox__get_id tr st p w)"
  by (cases "tr (dev w) ''AT$I=10'' (replicate 8 NUL) 100") (simp add: get_id_unfold)

lemma get_pac_ok: "17 \<le> length p \<Longrightarrow> is_ok (wisol_sigfox__get_pac tr st p w)"
  by (cases "tr (dev w) ''AT$I=11'' (replicate 16 NUL) 100") (simp add: get_pac_unfold)

lemma send_frame_ok:
  assumes "12 < n \<or> (0 < n \<and> n \<le> length p)"
  shows "is_ok (wisol_sigfox__send_frame tr st p n dl w)"
  using assms send_frame_never_fails [of n p tr st dl w]
  by (cases "12 < n") (simp_all add: wisol_sigfox__send_frame_def)

lemma raw_version_ok:
  assumes "sz \<le> length p"
  shows "is_ok (wisol_sigfox__get_firmware_vcs_version tr st p sz w)"
    and "is_ok (wisol_sigfox__get_library_version tr st p sz w)"
proof -
  have "is_ok (ebind (information_query tr (local_buf st 0 32) index p sz w)
      (\<lambda>(buf, p_buf, w). Inr (p_buf, w)))" for index
    using raw_query_unfold [where tr = tr and w = w, OF assms, of index _ _ st]
    by (cases "tr (dev w) (information_command index) (take sz p) 100") simp
  then show "is_ok (wisol_sigfox__get_firmware_vcs_version tr st p sz w)"
    and "is_ok (wisol_sigfox__get_library_version tr st p sz w)"
    by (simp_all add: wisol_sigfox__get_firmware_vcs_version_def
        wisol_sigfox__get_library_version_def DEFAULT_BUF_SZ_def)
qed

lemma set_power_mode_ok: "is_ok (wisol_sigfox__set_power_mode tr st mode w)"
  by (cases "tr (dev w) (power_mode_command mode) (local_buf st 32 32) 100")
     (simp add: set_power_mode_unfold)

lemma set_power_level_ok: "is_ok (wisol_sigfox__set_power_level tr st l w)"
  by (cases "tr (dev w) (power_level_command l) (replicate 32 NUL) 100")
     (simp add: set_power_level_unfold)

text \<open>The operations that read a string or a number from the response.\<close>

lemma get_firmware_version_ok:
  assumes "polite tr" and "sz \<le> length p"
  shows "is_ok (wisol_sigfox__get_firmware_version tr st p sz w)"
proof -
  from polite_response [OF assms(1)] obtain r1 x1 d1 where
    t1: "tr (dev w) ''AT$I=4'' (local_buf st 32 32) 100 = (r1 @ NUL # x1, d1)" "length r1 \<le> 9"
    by blast
  from polite_response [OF assms(1)] obtain r2 x2 d2 where
    t2: "tr d1 ''AT$I=5'' (local_buf st 64 32) 100 = (r2 @ NUL # x2, d2)" "length r2 \<le> 9"
    by blast
  have "is_ok (format_c ''%s.%s''
      [Arg_ptr (deliver (local_buf st 32 32) 32 (r1 @ NUL # x1)),
       Arg_ptr (deliver (local_buf st 64 32) 32 (r2 @ NUL # x2))])"
    using terminated_in_window [OF t1(2)] terminated_in_window [OF t2(2)]
    by (simp add: c_str_def)
  then have "is_ok (snprintf_c p sz ''%s.%s''
      [Arg_ptr (deliver (local_buf st 32 32) 32 (r1 @ NUL # x1)),
       Arg_ptr (deliver (local_buf st 64 32) 32 (r2 @ NUL # x2))])"
    using assms(2) by (intro snprintf_c_ok)
  then show ?thesis
    by (auto simp: is_ok_iff firmware_version_unfold [where tr = tr and w = w, OF t1(1) t2(1)])
qed

lemma get_power_level_ok:
  assumes "polite tr"
  shows "is_ok (wisol_sigfox__get_power_level tr st w)"
proof -
  from polite_response [OF assms] obtain r x d where
    t: "tr (dev w) ''ATS302?'' (replicate 32 NUL) 100 = (r @ NUL # x, d)" "length r \<le> 9"
    by blast
  have "\<bar>atoi_value r\<bar> < 10 ^ length r"
    by (rule atoi_value_bound)
  also have "\<dots> \<le> 10 ^ 9"
    using t(2) by (intro power_increasing) simp_all
  finally have "- 2147483648 \<le> atoi_value r \<and> atoi_value r < 2147483648"
    by simp linarith
  moreover obtain rest where "deliver (replicate 32 NUL) 32 (r @ NUL # x) = r @ NUL # rest"
    using deliver_terminated_eq [of r 32] t(2) by auto
  ultimately show ?thesis
    by (simp add: get_power_level_unfold [where tr = tr and w = w, OF t(1)]
        atoi_c_terminated int_bits_def)
qed

lemmas operation_oks =
  ready_never_fails get_id_ok get_pac_ok send_frame_ok freq_queries_never_fail [THEN conjunct1]
  freq_queries_never_fail [THEN conjunct2] raw_version_ok get_firmware_version_ok
  set_power_mode_ok get_power_level_ok set_power_level_ok

text \<open>
  A request that meets the conditions of the header, against a polite
  transport, returns.
\<close>

lemma perform_ok:
  assumes "polite tr" and "request_ok r"
  shows "is_ok (perform tr st r w)"
  using assms by (cases r) (simp_all add: operation_oks)

end
