(* ===== verification/Reply_Types.thy ===== *)
theory Reply_Types
  imports Session
begin

text \<open>
  The types of the results of the public interface, \<^verbatim>\<open>src/wisol_sigfox.h\<close>: what
  each function hands back has the shape its declaration gives it.

  \<^item> \<open>reply_type\<close> names the shapes: a \<^verbatim>\<open>bool\<close>, a \<^verbatim>\<open>float\<close>, a \<^verbatim>\<open>uint8_t\<close>,
    nothing, the caller's array of a given capacity, and such an array that
    holds a terminated string.
  \<^item> \<open>result_type\<close> is the shape the header declares for a request. The arrays
    are the caller's: the function returns them with the capacity they came
    with. Identifier and PAC are strings.
  \<^item> \<open>has_type\<close> says when a reply has a shape. A frequency has the type of a
    \<^verbatim>\<open>float\<close> when it is a number of that format (\<open>is_f32\<close>).

  The lemmas show for each operation that the caller's array keeps its
  capacity and that a frequency is a number of the format; \<open>perform_typed\<close>
  collects them. The property over programs is in the root theory.
\<close>

section \<open>Types of replies\<close>

datatype reply_type =
    Flag_type
  | Text_type nat
  | String_type nat
  | Frequency_type
  | Level_type
  | Nothing_type

fun result_type :: "request \<Rightarrow> reply_type" where
  "result_type Ready = Flag_type"
| "result_type (Get_Id p_id_buf) = String_type (length p_id_buf)"
| "result_type (Get_Pac p_pac_buf) = String_type (length p_pac_buf)"
| "result_type (Send_Frame p_payload_buf payload_size downlink_flag) = Flag_type"
| "result_type Get_Tx_Freq = Frequency_type"
| "result_type Get_Rx_Freq = Frequency_type"
| "result_type (Get_Firmware_Vcs_Version p_buf sz_buf) = Text_type (length p_buf)"
| "result_type (Get_Firmware_Version p_buf sz_buf) = Text_type (length p_buf)"
| "result_type (Get_Library_Version p_buf sz_buf) = Text_type (length p_buf)"
| "result_type (Set_Power_Mode mode) = Nothing_type"
| "result_type Get_Power_Level = Level_type"
| "result_type (Set_Power_Level power_level) = Nothing_type"

fun has_type :: "reply \<Rightarrow> reply_type \<Rightarrow> bool" where
  "has_type (Flag b) Flag_type \<longleftrightarrow> True"
| "has_type (Text p) (Text_type n) \<longleftrightarrow> length p = n"
| "has_type (Text p) (String_type n) \<longleftrightarrow> length p = n \<and> NUL \<in> set p"
| "has_type (Frequency f) Frequency_type \<longleftrightarrow> is_f32 f"
| "has_type (Level l) Level_type \<longleftrightarrow> True"
| "has_type Nothing Nothing_type \<longleftrightarrow> True"
| "has_type v t \<longleftrightarrow> False"

section \<open>The caller's array keeps its capacity\<close>

lemma information_query_capacity:
  "information_query tr buf index rb sz w = Inr (buf', rb', w') \<Longrightarrow> length rb' = length rb"
  by (auto simp: information_query_def ebind_eq_Inr_iff dest: serial_sync_length)

lemma terminator_kept: "NUL \<in> set (deliver (replicate (Suc n) NUL @ r) n resp)"
proof -
  define k where "k = min n (length resp)"
  then have "replicate (Suc n) NUL = replicate k NUL @ NUL # replicate (n - k) NUL"
    by (simp add: replicate_app_Cons_same flip: replicate_add)
  then have "drop k (replicate (Suc n) NUL @ r) = NUL # replicate (n - k) NUL @ r"
    by (simp only: append_assoc append_Cons drop_append length_replicate drop_all
        order_refl diff_self_eq_0 drop_0 append_Nil)
  then show ?thesis
    unfolding deliver_def k_def by (simp del: replicate_Suc)
qed

lemma get_id_capacity:
  assumes "wisol_sigfox__get_id tr st p w = Inr (p', w')"
  shows "length p' = length p" and "NUL \<in> set p'"
proof -
  from assms have len: "9 \<le> length p"
    by (auto simp: wisol_sigfox__get_id_def ebind_eq_Inr_iff memset_c_Inr_iff)
  obtain resp d where "tr (dev w) ''AT$I=10'' (replicate 8 NUL) 100 = (resp, d)"
    by (cases "tr (dev w) ''AT$I=10'' (replicate 8 NUL) 100")
  from get_id_unfold [where tr = tr and w = w, OF len this, of st] assms
  have p': "p' = deliver (replicate (Suc 8) NUL @ drop 9 p) 8 resp"
    by (simp add: eval_nat_numeral)
  show "NUL \<in> set p'"
    unfolding p' by (rule terminator_kept)
  from len show "length p' = length p"
    by (simp add: p')
qed

lemma get_pac_capacity:
  assumes "wisol_sigfox__get_pac tr st p w = Inr (p', w')"
  shows "length p' = length p" and "NUL \<in> set p'"
proof -
  from assms have len: "17 \<le> length p"
    by (auto simp: wisol_sigfox__get_pac_def ebind_eq_Inr_iff memset_c_Inr_iff)
  obtain resp d where "tr (dev w) ''AT$I=11'' (replicate 16 NUL) 100 = (resp, d)"
    by (cases "tr (dev w) ''AT$I=11'' (replicate 16 NUL) 100")
  from get_pac_unfold [where tr = tr and w = w, OF len this, of st] assms
  have p': "p' = deliver (replicate (Suc 16) NUL @ drop 17 p) 16 resp"
    by (simp add: eval_nat_numeral)
  show "NUL \<in> set p'"
    unfolding p' by (rule terminator_kept)
  from len show "length p' = length p"
    by (simp add: p')
qed

lemma raw_version_capacity:
  "wisol_sigfox__get_firmware_vcs_version tr st p sz w = Inr (p', w') \<Longrightarrow> length p' = length p"
  "wisol_sigfox__get_library_version tr st p sz w = Inr (p', w') \<Longrightarrow> length p' = length p"
  by (auto simp: wisol_sigfox__get_firmware_vcs_version_def wisol_sigfox__get_library_version_def
      ebind_eq_Inr_iff dest: information_query_capacity)

lemma get_firmware_version_capacity:
  "wisol_sigfox__get_firmware_version tr st p sz w = Inr (p', w') \<Longrightarrow> length p' = length p"
  by (auto simp: wisol_sigfox__get_firmware_version_def ebind_eq_Inr_iff dest: snprintf_c_length)

section \<open>A frequency is a number of the format\<close>

lemma is_f32_freq_fl [simp]: "is_f32 (freq_fl i1 i2)"
  by (simp add: freq_fl_def)

lemma freq_query_f32:
  "wisol_sigfox__get_tx_freq tr st w = Inr (f, w') \<Longrightarrow> is_f32 f"
  "wisol_sigfox__get_rx_freq tr st w = Inr (f, w') \<Longrightarrow> is_f32 f"
proof -
  show "is_f32 f" if "wisol_sigfox__get_tx_freq tr st w = Inr (f, w')"
    using that
    by (cases "tr (dev w) ''AT$IF?'' (local_buf st 32 32) 100") (auto simp: get_tx_freq_unfold)
  show "is_f32 f" if "wisol_sigfox__get_rx_freq tr st w = Inr (f, w')"
    using that
    by (cases "tr (dev w) ''AT$DR?'' (local_buf st 32 32) 100") (auto simp: get_rx_freq_unfold)
qed

lemmas operation_types =
  get_id_capacity get_pac_capacity raw_version_capacity get_firmware_version_capacity
  freq_query_f32

section \<open>Every reply has the type of its request\<close>

lemma perform_typed:
  "perform tr st r w = Inr (v, w') \<Longrightarrow> has_type v (result_type r)"
  by (cases r) (auto simp: ebind_eq_Inr_iff dest: operation_types)

end
