(* ===== verification/Device_State.thy ===== *)
theory Device_State
  imports Session
begin

text \<open>
  The state of the module along the calls of the driver. The driver of
  \<^verbatim>\<open>src/wisol_sigfox.c\<close> keeps no state of its own; what its operations change is
  the module, through \<^verbatim>\<open>wisol_sigfox__serial_sync\<close>, declared in
  \<^verbatim>\<open>src/wisol_sigfox.h\<close>.

  \<^item> \<open>device_step\<close> is what one call does to the module, \<open>advance\<close> what it
    does to the world (the module and the log), \<open>replay\<close> a list of calls one
    after the other.
  \<^item> \<open>window_free\<close> is a condition on a transport: what becomes of the module
    does not depend on what the response buffer held when the call was made.
    A serial line meets it; a stub that ignores the buffer meets it.
  \<^item> \<open>reaches\<close> relates two worlds when calls lead from the first to the
    second.

  The lemmas show that every operation that returns has led the world along
  calls and nothing else (\<open>perform_reaches\<close>), hence along the calls it has
  logged (\<open>perform_world\<close>). The property over programs is in the root theory.
\<close>

section \<open>The module along the calls\<close>

definition device_step :: "'d transport \<Rightarrow> 'd \<Rightarrow> call \<Rightarrow> 'd" where
  "device_step tr d c = snd (tr d (call_cmd c) [] (call_timeout c))"

definition advance :: "'d transport \<Rightarrow> 'd world \<Rightarrow> call \<Rightarrow> 'd world" where
  "advance tr w c = w\<lparr>dev := device_step tr (dev w) c, calls := calls w @ [c]\<rparr>"

definition replay :: "'d transport \<Rightarrow> 'd world \<Rightarrow> call list \<Rightarrow> 'd world" where
  "replay tr w cs = foldl (advance tr) w cs"

definition window_free :: "'d transport \<Rightarrow> bool" where
  "window_free tr \<longleftrightarrow> (\<forall>d c win win' t. snd (tr d c win t) = snd (tr d c win' t))"

text \<open>
  \<open>reaches\<close>: the second world is the first after some calls. A call of the
  transport is one such step; the operations are sequences of them.
\<close>

definition reaches :: "'d transport \<Rightarrow> 'd world \<Rightarrow> 'd world \<Rightarrow> bool" where
  "reaches tr w w' \<longleftrightarrow> (\<exists>cs. w' = replay tr w cs)"

section \<open>Lemmas\<close>

lemma replay_simps [simp]:
  "replay tr w [] = w"
  "replay tr w (c # cs) = replay tr (advance tr w c) cs"
  "replay tr w (cs @ cs') = replay tr (replay tr w cs) cs'"
  by (simp_all add: replay_def)

lemma calls_advance [simp]: "calls (advance tr w c) = calls w @ [c]"
  by (simp add: advance_def)

lemma dev_advance [simp]: "dev (advance tr w c) = device_step tr (dev w) c"
  by (simp add: advance_def)

lemma calls_replay [simp]: "calls (replay tr w cs) = calls w @ cs"
  by (induction cs arbitrary: w) simp_all

lemma dev_replay: "dev (replay tr w cs) = foldl (device_step tr) (dev w) cs"
  by (induction cs arbitrary: w) simp_all

lemma window_free_scripted [simp]: "window_free (scripted script)"
  by (simp add: window_free_def)

lemma record_call_advance:
  assumes "window_free tr" and "tr (dev w) c win t = (resp, d)"
  shows "record_call w d c sz t = advance tr w (the_call c sz t)"
proof -
  from assms(1) have "snd (tr (dev w) c [] t) = snd (tr (dev w) c win t)"
    unfolding window_free_def by blast
  with assms(2) show ?thesis
    by (simp add: advance_def device_step_def record_call_def)
qed

lemma reaches_refl [simp, intro]: "reaches tr w w"
  unfolding reaches_def by (rule exI [of _ "[]"]) simp

lemma reaches_trans [trans]: "reaches tr w w1 \<Longrightarrow> reaches tr w1 w2 \<Longrightarrow> reaches tr w w2"
  unfolding reaches_def by (metis replay_simps(3))

lemma serial_sync_reaches:
  assumes "wisol_sigfox__serial_sync tr cmd buf sz t w = Inr (buf', w')" and "window_free tr"
  shows "reaches tr w w'"
proof -
  from assms obtain c where "w' = replay tr w [the_call c sz t]"
    by (auto simp: serial_sync_Inr_iff record_call_advance)
  then show ?thesis
    unfolding reaches_def ..
qed

lemma information_query_reaches:
  "information_query tr buf index rb sz w = Inr (buf', rb', w') \<Longrightarrow> window_free tr \<Longrightarrow>
   reaches tr w w'"
  by (auto simp: information_query_def ebind_eq_Inr_iff dest: serial_sync_reaches)

lemma status_reaches:
  "wisol_sigfox__ready tr st w = Inr (b, w') \<Longrightarrow> window_free tr \<Longrightarrow> reaches tr w w'"
  by (auto simp: wisol_sigfox__ready_def ebind_eq_Inr_iff Let_def dest: serial_sync_reaches)

lemma frame_reaches:
  "wisol_sigfox__send_frame tr st p n dl w = Inr (b, w') \<Longrightarrow> window_free tr \<Longrightarrow> reaches tr w w'"
  by (auto simp: wisol_sigfox__send_frame_def ebind_eq_Inr_iff Let_def
      dest: serial_sync_reaches split: if_splits)

lemma info_reaches:
  assumes "window_free tr"
  shows "wisol_sigfox__get_id tr st p w = Inr (p', w') \<Longrightarrow> reaches tr w w'"
    and "wisol_sigfox__get_pac tr st p w = Inr (p', w') \<Longrightarrow> reaches tr w w'"
    and "wisol_sigfox__get_firmware_vcs_version tr st p sz w = Inr (p', w') \<Longrightarrow> reaches tr w w'"
    and "wisol_sigfox__get_library_version tr st p sz w = Inr (p', w') \<Longrightarrow> reaches tr w w'"
    and "wisol_sigfox__get_firmware_version tr st p sz w = Inr (p', w') \<Longrightarrow> reaches tr w w'"
  using assms
  by (auto simp: wisol_sigfox__get_id_def wisol_sigfox__get_pac_def
      wisol_sigfox__get_firmware_vcs_version_def wisol_sigfox__get_library_version_def
      wisol_sigfox__get_firmware_version_def ebind_eq_Inr_iff Let_def
      dest: information_query_reaches intro: reaches_trans)

lemma freq_reaches:
  assumes "window_free tr"
  shows "wisol_sigfox__get_tx_freq tr st w = Inr (f, w') \<Longrightarrow> reaches tr w w'"
    and "wisol_sigfox__get_rx_freq tr st w = Inr (f, w') \<Longrightarrow> reaches tr w w'"
  using assms
  by (auto simp: wisol_sigfox__get_tx_freq_def wisol_sigfox__get_rx_freq_def ebind_eq_Inr_iff
      Let_def dest: serial_sync_reaches)

lemma power_reaches:
  assumes "window_free tr"
  shows "wisol_sigfox__set_power_mode tr st mode w = Inr w' \<Longrightarrow> reaches tr w w'"
    and "wisol_sigfox__get_power_level tr st w = Inr (l, w') \<Longrightarrow> reaches tr w w'"
    and "wisol_sigfox__set_power_level tr st l w = Inr w' \<Longrightarrow> reaches tr w w'"
  using assms
  by (auto simp: wisol_sigfox__set_power_mode_def wisol_sigfox__get_power_level_def
      wisol_sigfox__set_power_level_def ebind_eq_Inr_iff Let_def dest: serial_sync_reaches)

lemmas operation_reaches =
  status_reaches frame_reaches info_reaches freq_reaches power_reaches

lemma perform_reaches:
  "perform tr st r w = Inr (v, w') \<Longrightarrow> window_free tr \<Longrightarrow> reaches tr w w'"
  by (cases r) (auto simp: ebind_eq_Inr_iff dest: operation_reaches)

text \<open>
  The world after a request is the world before it, advanced by the calls the
  request has logged: the log says all there is to say about the module.
\<close>

lemma perform_world:
  assumes "perform tr st r w = Inr (v, w')" and "window_free tr"
  shows "w' = replay tr w (actual_calls st r)"
proof -
  from perform_reaches [OF assms] obtain cs where w': "w' = replay tr w cs"
    unfolding reaches_def ..
  with perform_log [OF assms(1)] show ?thesis
    by simp
qed

end
