(* ===== verification/Codec.thy ===== *)
theory Codec
  imports Session
begin

text \<open>
  What the driver promises, without C: the command codec as a relation on
  strings, and the proof that the functions of \<^verbatim>\<open>src/wisol_sigfox.c\<close> implement
  it.

  \<^item> A \<open>module\<close> is the radio module seen through a serial line that works:
    from its state, a command and a timeout it gives the text of its response
    and its next state. \<open>wire m\<close> is the transport that stores that text and a
    terminator in the response buffer.
  \<^item> \<open>parsed\<close> is the result of an operation as its caller reads it: a truth
    value, a level, a frequency, a string, or nothing. \<open>parsed_of\<close> reads a
    reply of the driver that way: a buffer counts as the string it holds.
  \<^item> \<open>codec\<close> has one rule for each operation, two for the frame. A rule says
    which command the module receives with which timeout, and what the answer
    means, for a request that meets the conditions of the header and a
    response of the grammar of the module: 9 digits for a frequency
    (\<open>megahertz_of\<close>), digits for a level, a text that fits the buffer
    otherwise. Where no rule applies, the codec promises nothing.
  \<^item> \<open>transcript\<close> is the codec along a list of requests. Both relations
    are executable: from the module, its state and the requests they compute
    the results and the next state.
  \<^item> \<open>grammatical m\<close> says that every response of the module is of that
    grammar, and \<open>roomy r\<close> that the request meets the conditions of the
    header on its buffer and its sizes: together they are the conditions
    under which a rule applies.
  \<^item> \<open>answering\<close> is a module for examples, which answers by the command
    alone and counts what it received.

  The lemmas of the section on single operations show, for each rule, that
  the C function returns and returns what the rule says, whatever the stack
  held. \<open>perform_implements_codec\<close> collects them, and \<open>codec_total\<close> shows
  that the codec has an answer for every roomy request to a grammatical
  module; the properties over programs are in the root theory.
\<close>

section \<open>The module and the wire\<close>

type_synonym 'd module = "'d \<Rightarrow> string \<Rightarrow> nat \<Rightarrow> string \<times> 'd"

definition wire :: "'d module \<Rightarrow> 'd transport" where
  "wire m d c window t = (case m d c t of (r, d') \<Rightarrow> (r @ [NUL], d'))"

definition response_text :: "string \<Rightarrow> bool" where
  "response_text r \<longleftrightarrow> NUL \<notin> set r \<and> length r < DEFAULT_BUF_SZ"

section \<open>Results as the caller reads them\<close>

datatype parsed =
    Truth bool
  | Number byte
  | Megahertz f32
  | String string
  | Unit

fun parsed_of :: "reply \<Rightarrow> parsed" where
  "parsed_of (Flag b) = Truth b"
| "parsed_of (Text p) = String (takeWhile (\<lambda>c. c \<noteq> NUL) p)"
| "parsed_of (Frequency f) = Megahertz f"
| "parsed_of (Level l) = Number l"
| "parsed_of Nothing = Unit"

section \<open>The codec\<close>

text \<open>Nine digits as a frequency: megahertz, then hertz.\<close>

definition megahertz_of :: "string \<Rightarrow> f32" where
  "megahertz_of ds = freq_fl (int (dec_value (take 3 ds))) (int (dec_value (drop 3 ds)))"

inductive codec :: "'d module \<Rightarrow> 'd \<Rightarrow> request \<Rightarrow> parsed \<Rightarrow> 'd \<Rightarrow> bool"
  for m :: "'d module" where
  ready:
    "m d ''AT'' 100 = (r, d') \<Longrightarrow> response_text r \<Longrightarrow>
     codec m d Ready (Truth (r = ''OK'')) d'"
| get_id:
    "9 \<le> length p \<Longrightarrow> m d ''AT$I=10'' 100 = (r, d') \<Longrightarrow> NUL \<notin> set r \<Longrightarrow>
     codec m d (Get_Id p) (String (take 8 r)) d'"
| get_pac:
    "17 \<le> length p \<Longrightarrow> m d ''AT$I=11'' 100 = (r, d') \<Longrightarrow> NUL \<notin> set r \<Longrightarrow>
     codec m d (Get_Pac p) (String (take 16 r)) d'"
| frame_refused:
    "12 < n \<Longrightarrow> codec m d (Send_Frame p n dl) (Truth False) d"
| frame_sent:
    "0 < n \<Longrightarrow> n \<le> 12 \<Longrightarrow> n \<le> length p \<Longrightarrow>
     m d (frame_command (payload_hex (take n p)) dl) 20000 = (r, d') \<Longrightarrow> response_text r \<Longrightarrow>
     codec m d (Send_Frame p n dl) (Truth (r = ''OK'')) d'"
| get_tx_freq:
    "m d ''AT$IF?'' 100 = (r, d') \<Longrightarrow> 9 \<le> length r \<Longrightarrow> list_all isdigit_c (take 9 r) \<Longrightarrow>
     codec m d Get_Tx_Freq (Megahertz (megahertz_of (take 9 r))) d'"
| get_rx_freq:
    "m d ''AT$DR?'' 100 = (r, d') \<Longrightarrow> 9 \<le> length r \<Longrightarrow> list_all isdigit_c (take 9 r) \<Longrightarrow>
     codec m d Get_Rx_Freq (Megahertz (megahertz_of (take 9 r))) d'"
| get_firmware_vcs_version:
    "sz \<le> length p \<Longrightarrow> m d ''AT$I=8'' 100 = (r, d') \<Longrightarrow> NUL \<notin> set r \<Longrightarrow> length r < sz \<Longrightarrow>
     codec m d (Get_Firmware_Vcs_Version p sz) (String r) d'"
| get_firmware_version:
    "0 < sz \<Longrightarrow> sz \<le> length p \<Longrightarrow> m d ''AT$I=4'' 100 = (r1, d1) \<Longrightarrow>
     m d1 ''AT$I=5'' 100 = (r2, d') \<Longrightarrow> response_text r1 \<Longrightarrow> response_text r2 \<Longrightarrow>
     codec m d (Get_Firmware_Version p sz) (String (take (sz - 1) (r1 @ ''.'' @ r2))) d'"
| get_library_version:
    "sz \<le> length p \<Longrightarrow> m d ''AT$I=9'' 100 = (r, d') \<Longrightarrow> NUL \<notin> set r \<Longrightarrow> length r < sz \<Longrightarrow>
     codec m d (Get_Library_Version p sz) (String r) d'"
| set_power_mode:
    "m d (power_mode_command mode) 100 = (r, d') \<Longrightarrow>
     codec m d (Set_Power_Mode mode) Unit d'"
| get_power_level:
    "m d ''ATS302?'' 100 = (ds, d') \<Longrightarrow> ds \<noteq> [] \<Longrightarrow> list_all isdigit_c ds \<Longrightarrow>
     length ds < DEFAULT_BUF_SZ \<Longrightarrow> dec_value ds < 2 ^ 31 \<Longrightarrow>
     codec m d Get_Power_Level (Number (of_nat (dec_value ds))) d'"
| set_power_level:
    "m d (power_level_command l) 100 = (r, d') \<Longrightarrow>
     codec m d (Set_Power_Level l) Unit d'"

inductive transcript :: "'d module \<Rightarrow> 'd \<Rightarrow> request list \<Rightarrow> parsed list \<Rightarrow> 'd \<Rightarrow> bool"
  for m :: "'d module" where
  nil: "transcript m d [] [] d"
| cons: "codec m d r a d1 \<Longrightarrow> transcript m d1 rs as d' \<Longrightarrow> transcript m d (r # rs) (a # as) d'"

text \<open>Both relations compute results and next state from module, state and requests.\<close>

code_pred (modes: i \<Rightarrow> i \<Rightarrow> i \<Rightarrow> o \<Rightarrow> o \<Rightarrow> bool as codec_step) codec .

code_pred (modes: i \<Rightarrow> i \<Rightarrow> i \<Rightarrow> o \<Rightarrow> o \<Rightarrow> bool as transcript_run) transcript .

inductive_cases transcript_NilE: "transcript m d [] as d'"
inductive_cases transcript_ConsE: "transcript m d (r # rs) as d'"

text \<open>The rules read by request, for examples that are decided by rewriting.\<close>

inductive_simps codec_request_simps:
  "codec m d Ready a d'"
  "codec m d (Get_Id p) a d'"
  "codec m d (Get_Pac p) a d'"
  "codec m d (Send_Frame p n dl) a d'"
  "codec m d Get_Tx_Freq a d'"
  "codec m d Get_Rx_Freq a d'"
  "codec m d (Get_Firmware_Vcs_Version p sz) a d'"
  "codec m d (Get_Firmware_Version p sz) a d'"
  "codec m d (Get_Library_Version p sz) a d'"
  "codec m d (Set_Power_Mode mode) a d'"
  "codec m d Get_Power_Level a d'"
  "codec m d (Set_Power_Level l) a d'"

inductive_simps transcript_simps:
  "transcript m d [] as d'"
  "transcript m d (r # rs) as d'"

section \<open>Modules and requests the codec covers\<close>

text \<open>
  A module that follows its grammar: every response fits the response buffer
  of the driver, a frequency starts with 9 digits, a level is a number of at
  most 9 digits.
\<close>

definition grammatical :: "'d module \<Rightarrow> bool" where
  "grammatical m \<longleftrightarrow>
     (\<forall>d c t. case m d c t of (r, d') \<Rightarrow>
        response_text r \<and>
        (c = ''AT$IF?'' \<or> c = ''AT$DR?'' \<longrightarrow> 9 \<le> length r \<and> list_all isdigit_c (take 9 r)) \<and>
        (c = ''ATS302?'' \<longrightarrow> r \<noteq> [] \<and> list_all isdigit_c r \<and> length r \<le> 9))"

text \<open>
  A request with room for the answer: the conditions of the header, a payload
  that is not empty, and a buffer for a version that takes a whole response.
\<close>

fun roomy :: "request \<Rightarrow> bool" where
  "roomy (Get_Id p) \<longleftrightarrow> 9 \<le> length p"
| "roomy (Get_Pac p) \<longleftrightarrow> 17 \<le> length p"
| "roomy (Send_Frame p n dl) \<longleftrightarrow> 0 < n \<and> (n \<le> 12 \<longrightarrow> n \<le> length p)"
| "roomy (Get_Firmware_Vcs_Version p sz) \<longleftrightarrow> DEFAULT_BUF_SZ \<le> sz \<and> sz \<le> length p"
| "roomy (Get_Firmware_Version p sz) \<longleftrightarrow> 0 < sz \<and> sz \<le> length p"
| "roomy (Get_Library_Version p sz) \<longleftrightarrow> DEFAULT_BUF_SZ \<le> sz \<and> sz \<le> length p"
| "roomy r \<longleftrightarrow> True"

section \<open>A module for examples\<close>

definition answering :: "(string \<Rightarrow> string) \<Rightarrow> nat module" where
  "answering f d c t = (f c, Suc d)"

section \<open>Lemmas on the wire\<close>

lemma wire_apply: "m d c t = (r, d') \<Longrightarrow> wire m d c window t = (r @ [NUL], d')"
  by (simp add: wire_def)

lemma response_textD: "response_text r \<Longrightarrow> NUL \<notin> set r" "response_text r \<Longrightarrow> length r < 32"
  by (simp_all add: response_text_def DEFAULT_BUF_SZ_def)

lemma c_text: "c_str buf = Inr s \<Longrightarrow> takeWhile (\<lambda>c. c \<noteq> NUL) buf = s"
  by (simp add: c_str_Inr_iff)

lemma take_terminated:
  assumes "NUL \<notin> set r"
  shows "takeWhile (\<lambda>c. c \<noteq> NUL) (take n (r @ [NUL])) = take n r"
proof (cases "n \<le> length r")
  case True
  from assms have "\<forall>c \<in> set (take n r). c \<noteq> NUL"
    by (auto dest: in_set_takeD)
  with True show ?thesis
    by (simp add: takeWhile_eq_all_conv [THEN iffD2])
next
  case False
  with assms show ?thesis
    by (simp add: takeWhile_not_NUL_append)
qed

lemma deliver_prefix:
  assumes "length ds \<le> sz"
  shows "\<exists>rest. deliver buf sz (ds @ y) = ds @ rest"
proof
  from assms have "take (length ds) (deliver buf sz (ds @ y)) = ds"
    by simp
  then show "deliver buf sz (ds @ y) = ds @ drop (length ds) (deliver buf sz (ds @ y))"
    by (metis append_take_drop_id)
qed

lemma text_deliver_terminated:
  "NUL \<notin> set r \<Longrightarrow> length r < sz \<Longrightarrow>
   takeWhile (\<lambda>c. c \<noteq> NUL) (deliver buf sz (r @ [NUL])) = r"
  using deliver_terminated [of r sz buf "[]"] by (simp add: c_text)

lemma text_deliver_cleared:
  assumes "NUL \<notin> set r"
  shows "takeWhile (\<lambda>c. c \<noteq> NUL) (deliver (replicate (Suc n) NUL @ rest) n (r @ [NUL])) =
         take n r"
proof -
  have "c_str (deliver (replicate (Suc n) NUL @ rest) n (r @ [NUL])) =
      Inr (takeWhile (\<lambda>c. c \<noteq> NUL) (take n (r @ [NUL])))"
    by (rule c_str_deliver_cleared) simp
  from c_text [OF this] show ?thesis
    by (simp only: take_terminated [OF assms])
qed

section \<open>Single operations\<close>

lemma ready_implements:
  assumes "m (dev w) ''AT'' 100 = (r, d')" and "response_text r"
  shows "wisol_sigfox__ready (wire m) st w = Inr (r = ''OK'', record_call w d' ''AT'' 32 100)"
  using ready_unfold [where tr = "wire m" and w = w and st = st and resp = "r @ [NUL]" and d = d']
    wire_apply [where m = m, OF assms(1)]
    starts_OK_deliver_terminated [of r 32 "local_buf st 0 32" "[]"] response_textD [OF assms(2)]
  by simp

lemma frame_implements:
  assumes "0 < n" and "n \<le> 12" and "n \<le> length p"
    and "m (dev w) (frame_command (payload_hex (take n p)) dl) 20000 = (r, d')"
    and "response_text r"
  shows "wisol_sigfox__send_frame (wire m) st p n dl w =
           Inr (r = ''OK'', record_call w d' (frame_command (payload_hex (take n p)) dl) 32 20000)"
  using send_frame_unfold [where tr = "wire m" and w = w and st = st and dl = dl
      and h = "payload_hex (take n p)" and resp = "r @ [NUL]" and d = d', OF assms(2,3)]
    wire_apply [where m = m, OF assms(4)] assms(1)
    starts_OK_deliver_terminated [of r 32 "local_buf st 81 32" "[]"] response_textD [OF assms(5)]
  by (simp add: hex_text_def)

lemma identity_implements:
  assumes "NUL \<notin> set r"
  shows "9 \<le> length p \<Longrightarrow> m (dev w) ''AT$I=10'' 100 = (r, d') \<Longrightarrow>
         \<exists>p'. wisol_sigfox__get_id (wire m) st p w = Inr (p', record_call w d' ''AT$I=10'' 8 100)
            \<and> takeWhile (\<lambda>c. c \<noteq> NUL) p' = take 8 r"
    and "17 \<le> length p \<Longrightarrow> m (dev w) ''AT$I=11'' 100 = (r, d') \<Longrightarrow>
         \<exists>p'. wisol_sigfox__get_pac (wire m) st p w = Inr (p', record_call w d' ''AT$I=11'' 16 100)
            \<and> takeWhile (\<lambda>c. c \<noteq> NUL) p' = take 16 r"
proof -
  assume "9 \<le> length p" and "m (dev w) ''AT$I=10'' 100 = (r, d')"
  with get_id_unfold [where tr = "wire m" and w = w and st = st and resp = "r @ [NUL]"
      and d = d' and p_id_buf = p]
    text_deliver_cleared [OF assms, of 8 "drop 9 p"]
  show "\<exists>p'. wisol_sigfox__get_id (wire m) st p w = Inr (p', record_call w d' ''AT$I=10'' 8 100)
            \<and> takeWhile (\<lambda>c. c \<noteq> NUL) p' = take 8 r"
    by (simp add: wire_apply eval_nat_numeral)
next
  assume "17 \<le> length p" and "m (dev w) ''AT$I=11'' 100 = (r, d')"
  with get_pac_unfold [where tr = "wire m" and w = w and st = st and resp = "r @ [NUL]"
      and d = d' and p_pac_buf = p]
    text_deliver_cleared [OF assms, of 16 "drop 17 p"]
  show "\<exists>p'. wisol_sigfox__get_pac (wire m) st p w = Inr (p', record_call w d' ''AT$I=11'' 16 100)
            \<and> takeWhile (\<lambda>c. c \<noteq> NUL) p' = take 16 r"
    by (simp add: wire_apply eval_nat_numeral)
qed

text \<open>The two fields of a response that starts with 9 digits, as the conversion reads them.\<close>

lemma freq_fl_digits:
  assumes "length ds = 9" and "list_all isdigit_c ds"
  shows "freq_fl (atoi_value (text_field 3 (deliver buf 32 (ds @ y))))
           (atoi_value (text_field 6 (drop 3 (deliver buf 32 (ds @ y))))) =
         freq_fl (int (dec_value (take 3 ds))) (int (dec_value (drop 3 ds)))"
proof -
  from assms(1) obtain rest where "deliver buf 32 (ds @ y) = ds @ rest"
    using deliver_prefix [of ds 32 buf y] by auto
  moreover from assms(2) have "\<forall>c \<in> set ds. isdigit_c c"
    by (simp add: list_all_iff)
  ultimately show ?thesis
    using assms(1) by (simp add: nine_digits)
qed

lemma frequency_implements:
  assumes "9 \<le> length r" and "list_all isdigit_c (take 9 r)"
  shows "m (dev w) ''AT$IF?'' 100 = (r, d') \<Longrightarrow>
         wisol_sigfox__get_tx_freq (wire m) st w =
           Inr (megahertz_of (take 9 r), record_call w d' ''AT$IF?'' 32 100)"
    and "m (dev w) ''AT$DR?'' 100 = (r, d') \<Longrightarrow>
         wisol_sigfox__get_rx_freq (wire m) st w =
           Inr (megahertz_of (take 9 r), record_call w d' ''AT$DR?'' 32 100)"
proof -
  from assms(1) have len: "length (take 9 r) = 9"
    by simp
  have r: "r @ [NUL] = take 9 r @ drop 9 r @ [NUL]"
    by simp
  note f = freq_fl_digits [OF len assms(2), of "local_buf st 32 32" "drop 9 r @ [NUL]", folded r]
  show "wisol_sigfox__get_tx_freq (wire m) st w =
      Inr (megahertz_of (take 9 r), record_call w d' ''AT$IF?'' 32 100)"
    if "m (dev w) ''AT$IF?'' 100 = (r, d')"
    using get_tx_freq_unfold [where tr = "wire m" and w = w and st = st, OF wire_apply, OF that] f
    by (simp add: megahertz_of_def)
  show "wisol_sigfox__get_rx_freq (wire m) st w =
      Inr (megahertz_of (take 9 r), record_call w d' ''AT$DR?'' 32 100)"
    if "m (dev w) ''AT$DR?'' 100 = (r, d')"
    using get_rx_freq_unfold [where tr = "wire m" and w = w and st = st, OF wire_apply, OF that] f
    by (simp add: megahertz_of_def)
qed

lemma raw_version_implements:
  assumes "sz \<le> length p" and "NUL \<notin> set r" and "length r < sz"
  shows "m (dev w) ''AT$I=8'' 100 = (r, d') \<Longrightarrow>
         \<exists>p'. wisol_sigfox__get_firmware_vcs_version (wire m) st p sz w =
                 Inr (p', record_call w d' ''AT$I=8'' sz 100)
            \<and> takeWhile (\<lambda>c. c \<noteq> NUL) p' = r"
    and "m (dev w) ''AT$I=9'' 100 = (r, d') \<Longrightarrow>
         \<exists>p'. wisol_sigfox__get_library_version (wire m) st p sz w =
                 Inr (p', record_call w d' ''AT$I=9'' sz 100)
            \<and> takeWhile (\<lambda>c. c \<noteq> NUL) p' = r"
  using raw_query_unfold [where tr = "wire m" and w = w and st = st and index = 8
      and resp = "r @ [NUL]" and d = d', OF assms(1)]
    raw_query_unfold [where tr = "wire m" and w = w and st = st and index = 9
      and resp = "r @ [NUL]" and d = d', OF assms(1)]
    text_deliver_terminated [OF assms(2,3), of p]
  by (simp_all add: wire_apply wisol_sigfox__get_firmware_vcs_version_def
      wisol_sigfox__get_library_version_def DEFAULT_BUF_SZ_def)

lemma firmware_version_implements:
  assumes "0 < sz" and "sz \<le> length p"
    and m1: "m (dev w) ''AT$I=4'' 100 = (r1, d1)" and m2: "m d1 ''AT$I=5'' 100 = (r2, d')"
    and r1: "response_text r1" and r2: "response_text r2"
  shows "\<exists>p'. wisol_sigfox__get_firmware_version (wire m) st p sz w =
                 Inr (p', record_call (record_call w d1 ''AT$I=4'' 32 100) d' ''AT$I=5'' 32 100)
            \<and> takeWhile (\<lambda>c. c \<noteq> NUL) p' = take (sz - 1) (r1 @ ''.'' @ r2)"
proof -
  note t = response_textD [OF r1] response_textD [OF r2]
  have "format_c ''%s.%s''
          [Arg_ptr (deliver (local_buf st 32 32) 32 (r1 @ [NUL])),
           Arg_ptr (deliver (local_buf st 64 32) 32 (r2 @ [NUL]))] = Inr (r1 @ ''.'' @ r2)"
    using t by (simp add: deliver_terminated)
  from snprintf_c_c_str [OF this _ assms(1,2)] t
  show ?thesis
    by (auto simp: c_text firmware_version_unfold [where tr = "wire m" and w = w and st = st,
          OF wire_apply [where m = m, OF m1] wire_apply [where m = m, OF m2]])
qed

lemma power_level_implements:
  assumes "m (dev w) ''ATS302?'' 100 = (ds, d')" and "ds \<noteq> []" and "list_all isdigit_c ds"
    and "length ds < 32" and "dec_value ds < 2 ^ 31"
  shows "wisol_sigfox__get_power_level (wire m) st w =
           Inr (of_nat (dec_value ds), record_call w d' ''ATS302?'' 32 100)"
proof -
  from assms(4) obtain rest where "deliver (replicate 32 NUL) 32 (ds @ [NUL]) = ds @ NUL # rest"
    using deliver_terminated_eq [of ds 32 "replicate 32 NUL" "[]"] by auto
  moreover from assms(3) have "\<forall>c \<in> set ds. isdigit_c c"
    by (simp add: list_all_iff)
  then have "atoi_c int_bits (ds @ NUL # rest) = Inr (int (dec_value ds))"
    using assms(2,5) by (simp add: atoi_c_digits int_bits_def)
  ultimately show ?thesis
    using get_power_level_unfold [where tr = "wire m" and w = w and st = st
        and resp = "ds @ [NUL]" and d = d'] assms(1)
    by (simp add: wire_apply)
qed

lemma set_power_implements:
  "m (dev w) (power_mode_command mode) 100 = (r, d') \<Longrightarrow>
   wisol_sigfox__set_power_mode (wire m) st mode w =
     Inr (record_call w d' (power_mode_command mode) 32 100)"
  "m (dev w) (power_level_command l) 100 = (r, d') \<Longrightarrow>
   wisol_sigfox__set_power_level (wire m) st l w =
     Inr (record_call w d' (power_level_command l) 32 100)"
  using set_power_mode_unfold [where tr = "wire m" and w = w and st = st and mode = mode
      and resp = "r @ [NUL]" and d = d']
    set_power_level_unfold [where tr = "wire m" and w = w and st = st and l = l
      and resp = "r @ [NUL]" and d = d']
  by (simp_all add: wire_apply)

section \<open>The driver implements the codec\<close>

lemma codec_wf_request: "codec m d r a d' \<Longrightarrow> wf_request r"
  by (erule codec.cases) simp_all

text \<open>
  Where the codec has a rule, the C function returns, its result reads as the
  rule says and the module is in the state the rule gives, whatever the stack
  held.
\<close>

lemma perform_returns_codec:
  assumes "codec m (dev w) r a d'"
  shows "\<exists>v w'. perform (wire m) st r w = Inr (v, w') \<and> parsed_of v = a \<and> dev w' = d'"
  using assms
proof cases
  case (get_id p r)
  with identity_implements(1) [of r p m w d' st] show ?thesis
    by auto
next
  case (get_pac p r)
  with identity_implements(2) [of r p m w d' st] show ?thesis
    by auto
next
  case (get_firmware_vcs_version sz p r)
  with raw_version_implements(1) [of sz p r m w d' st] show ?thesis
    by auto
next
  case (get_library_version sz p r)
  with raw_version_implements(2) [of sz p r m w d' st] show ?thesis
    by auto
next
  case (get_firmware_version sz p r1 d1 r2)
  with firmware_version_implements [of sz p m w r1 d1 r2 d' st] show ?thesis
    by auto
next
  case (frame_refused n p dl)
  then show ?thesis
    by (simp add: wisol_sigfox__send_frame_def)
qed (simp_all add: ready_implements frame_implements frequency_implements
    power_level_implements set_power_implements DEFAULT_BUF_SZ_def)

text \<open>It has then made the calls of the contract, and no other.\<close>

lemma perform_implements_codec:
  assumes "codec m (dev w) r a d'"
  obtains v w' where "perform (wire m) st r w = Inr (v, w')" and "parsed_of v = a"
    and "dev w' = d'" and "calls w' = calls w @ expected_calls r"
proof -
  from perform_returns_codec [OF assms, of st] obtain v w'
    where p: "perform (wire m) st r w = Inr (v, w')" "parsed_of v = a" "dev w' = d'"
    by auto
  from perform_log [OF p(1)] codec_wf_request [OF assms]
  have "calls w' = calls w @ expected_calls r"
    by simp
  with p that show thesis
    by blast
qed

text \<open>
  The codec gives one answer: two derivations for the same request from the
  same state are two accounts of one run of the driver.
\<close>

lemma codec_deterministic:
  assumes "codec m d r a d'" and "codec m d r b d''"
  shows "a = b \<and> d' = d''"
proof -
  define w where "w = \<lparr>dev = d, calls = []\<rparr>"
  with assms have "codec m (dev w) r a d'" and "codec m (dev w) r b d''"
    by simp_all
  from perform_returns_codec [OF this(1), of "\<lambda>i. NUL"]
    perform_returns_codec [OF this(2), of "\<lambda>i. NUL"]
  show ?thesis
    by auto
qed

lemma transcript_deterministic:
  "transcript m d rs as d' \<Longrightarrow> transcript m d rs bs d'' \<Longrightarrow> as = bs \<and> d' = d''"
proof (induction arbitrary: bs d'' rule: transcript.induct)
  case (nil d)
  then show ?case
    by (auto elim: transcript_NilE)
next
  case (cons d r a d1 rs as d')
  from cons.prems obtain b bs' e where bs: "bs = b # bs'"
    and "codec m d r b e" "transcript m e rs bs' d''"
    by (auto elim: transcript_ConsE)
  with codec_deterministic [OF cons.hyps(1) this(2)] cons.IH [of bs' d''] show ?case
    by simp
qed

section \<open>The codec has a rule\<close>

lemma grammatical_response:
  assumes "grammatical m"
  shows "response_text (fst (m d c t))"
    and "c = ''AT$IF?'' \<or> c = ''AT$DR?'' \<Longrightarrow>
         9 \<le> length (fst (m d c t)) \<and> list_all isdigit_c (take 9 (fst (m d c t)))"
    and "c = ''ATS302?'' \<Longrightarrow>
         fst (m d c t) \<noteq> [] \<and> list_all isdigit_c (fst (m d c t)) \<and> length (fst (m d c t)) \<le> 9"
proof -
  from assms have "case m d c t of (r, d') \<Rightarrow>
      response_text r \<and>
      (c = ''AT$IF?'' \<or> c = ''AT$DR?'' \<longrightarrow> 9 \<le> length r \<and> list_all isdigit_c (take 9 r)) \<and>
      (c = ''ATS302?'' \<longrightarrow> r \<noteq> [] \<and> list_all isdigit_c r \<and> length r \<le> 9)"
    by (simp add: grammatical_def)
  then show "response_text (fst (m d c t))"
    and "c = ''AT$IF?'' \<or> c = ''AT$DR?'' \<Longrightarrow>
         9 \<le> length (fst (m d c t)) \<and> list_all isdigit_c (take 9 (fst (m d c t)))"
    and "c = ''ATS302?'' \<Longrightarrow>
         fst (m d c t) \<noteq> [] \<and> list_all isdigit_c (fst (m d c t)) \<and> length (fst (m d c t)) \<le> 9"
    by (simp_all add: split_beta)
qed

lemma nine_digits_fit:
  assumes "list_all isdigit_c ds" and "length ds \<le> 9"
  shows "dec_value ds < 2 ^ 31"
proof -
  from assms(1) have "dec_value ds < 10 ^ length ds"
    by (intro dec_value_bound) (simp add: list_all_iff)
  also from assms(2) have "(10::nat) ^ length ds \<le> 10 ^ 9"
    by (intro power_increasing) simp_all
  finally show ?thesis
    by simp
qed

text \<open>
  For a module that follows its grammar the codec has a result for every
  request with room for the answer.
\<close>

lemma codec_total:
  assumes "grammatical m" and "roomy r"
  shows "\<exists>a d'. codec m d r a d'"
proof -
  note g = grammatical_response [OF assms(1)]
  note rules = codec_request_simps prod_eq_iff
  have fits: "NUL \<notin> set (fst (m e c t))" "32 \<le> sz \<Longrightarrow> length (fst (m e c t)) < sz"
    for e c t sz
    using g(1) [of e c t] by (simp_all add: response_text_def DEFAULT_BUF_SZ_def)
  have level: "dec_value (fst (m e ''ATS302?'' t)) < 2 ^ 31" for e t
    using g(3) [OF refl, of e t] nine_digits_fit [of "fst (m e ''ATS302?'' t)"] by simp
  show ?thesis
  proof (cases r)
    case (Send_Frame p n dl)
    with assms(2) show ?thesis
      by (cases "12 < n") (simp_all add: rules g(1))
  next
    case Get_Power_Level
    with g(3) [OF refl, of d 100] level [of d 100] show ?thesis
      by (simp add: rules DEFAULT_BUF_SZ_def)
  next
    case (Get_Firmware_Vcs_Version p sz)
    with assms(2) show ?thesis
      by (simp add: rules fits DEFAULT_BUF_SZ_def)
  next
    case (Get_Library_Version p sz)
    with assms(2) show ?thesis
      by (simp add: rules fits DEFAULT_BUF_SZ_def)
  qed (use assms(2) in \<open>simp_all add: rules g(1) g(2) fits(1)\<close>)
qed

section \<open>The module for examples\<close>

lemma answering_apply [simp]: "answering f d c t = (r, d') \<longleftrightarrow> r = f c \<and> d' = Suc d"
  by (auto simp: answering_def)

end
