(* ===== verification/Int_Width.thy ===== *)
theory Int_Width
  imports Driver_Freq Driver_Power Frame_Loop
begin

text \<open>
  The conversion of a frequency, \<^verbatim>\<open>wisol_sigfox__freq_str_to_fl\<close> in
  \<^verbatim>\<open>src/wisol_sigfox.c\<close>, on a platform whose \<^verbatim>\<open>int\<close> has any width. The
  conversion reads the hertz below a megahertz, up to 999999, with \<^verbatim>\<open>atoi\<close>,
  whose result is an \<^verbatim>\<open>int\<close>; the C standard asks 16 bits of an \<^verbatim>\<open>int\<close>, and
  leaves \<^verbatim>\<open>atoi\<close> undefined for a number that does not fit.

  \<^item> \<open>freq_str_to_fl_at bits\<close> is the conversion with the width of \<^verbatim>\<open>int\<close> as a
    parameter; at \<open>int_bits\<close> it is \<open>wisol_sigfox__freq_str_to_fl\<close>.
  \<^item> \<open>int_of bits v\<close> is a value as an \<^verbatim>\<open>int\<close>: itself if it lies between
    \<open>- INT_MAX - 1\<close> and \<open>INT_MAX\<close>, the error \<open>Int_Overflow\<close> otherwise.

  \<^item> \<open>get_power_level_at bits\<close> is \<^verbatim>\<open>wisol_sigfox__get_power_level\<close> with the
    width as a parameter, the other function that calls \<^verbatim>\<open>atoi\<close>.

  The lemmas show that the conversion of 9 digits is defined exactly when the
  last 6 digits are a number up to \<open>INT_MAX\<close>, and that it then returns the
  same whatever the width: with 21 bits or more for every response, with 16
  bits for the frequencies that end in 032767 hertz or less. The level of
  power is read the same at every width when the module answers with a
  number up to 32767; the levels of the module are 0 to 14.
\<close>

section \<open>The conversion at a width\<close>

definition freq_str_to_fl_at :: "nat \<Rightarrow> stale \<Rightarrow> cbuf \<Rightarrow> f32 res" where
  "freq_str_to_fl_at bits st buf =
     (let b1 = local_buf st 0 4;
          b2 = local_buf st 4 7
      in ebind (memset_c b1 NUL 4) (\<lambda>b1.
         ebind (strncpy_c b1 buf 3) (\<lambda>b1.
         ebind (memset_c b2 NUL 7) (\<lambda>b2.
         ebind (strncpy_c b2 (drop 3 buf) 6) (\<lambda>b2.
         ebind (atoi_c bits b1) (\<lambda>i1.
         ebind (atoi_c bits b2) (\<lambda>i2.
         Inr (freq_fl i1 i2))))))))"

definition int_of :: "nat \<Rightarrow> int \<Rightarrow> int res" where
  "int_of bits v = (if - INT_MAX bits - 1 \<le> v \<and> v \<le> INT_MAX bits then Inr v else Inl Int_Overflow)"

section \<open>The level of power at a width\<close>

definition get_power_level_at ::
  "nat \<Rightarrow> 'd transport \<Rightarrow> stale \<Rightarrow> 'd world \<Rightarrow> (byte \<times> 'd world) res" where
  "get_power_level_at bits tr st w =
     (let buf = local_buf st 0 DEFAULT_BUF_SZ;
          buf_res = local_buf st 32 DEFAULT_BUF_SZ
      in ebind (memset_c buf_res NUL DEFAULT_BUF_SZ) (\<lambda>buf_res.
         ebind (command CMD_GET_REGISTER) (\<lambda>fmt.
         ebind (snprintf_c buf DEFAULT_BUF_SZ fmt [Arg_int 302]) (\<lambda>(buf, n).
         ebind (wisol_sigfox__serial_sync tr buf buf_res DEFAULT_BUF_SZ
                  WISOL_SIGFOX_DEFAULT_TIMEOUT w)
           (\<lambda>(buf_res, w).
         ebind (atoi_c bits buf_res) (\<lambda>v.
         Inr (word_of_int v, w)))))))"

section \<open>Lemmas\<close>

lemma freq_str_to_fl_at_int_bits:
  "freq_str_to_fl_at int_bits st buf = wisol_sigfox__freq_str_to_fl st buf"
  by (simp add: freq_str_to_fl_at_def wisol_sigfox__freq_str_to_fl_def)

lemma int_of_nat [simp]:
  "int_of bits (int n) = (if int n \<le> INT_MAX bits then Inr (int n) else Inl Int_Overflow)"
  using INT_MAX_nonneg [of bits] by (simp add: int_of_def)

lemma INT_MAX_mono:
  assumes "a \<le> b"
  shows "INT_MAX a \<le> INT_MAX b"
proof -
  from assms have "(2::int) ^ (a - 1) \<le> 2 ^ (b - 1)"
    by (intro power_increasing) simp_all
  then show ?thesis
    unfolding INT_MAX_def by linarith
qed

lemma INT_MAX_numeral [simp]: "INT_MAX 16 = 32767" "INT_MAX 21 = 1048575" "INT_MAX 32 = 2147483647"
  by (simp_all add: INT_MAX_def)

lemma atoi_field_at:
  assumes "n < m"
  shows "atoi_c bits (text_field n src @ replicate (m - length (text_field n src)) NUL) =
           int_of bits (atoi_value (text_field n src))"
proof -
  obtain k where "m - length (text_field n src) = Suc k"
    using assms length_text_field [of n src] by (cases "m - length (text_field n src)") simp_all
  then show ?thesis
    by (auto simp: atoi_c_terminated int_of_def INT_MAX_def)
qed

lemma freq_str_to_fl_at_unfold:
  assumes "9 \<le> length buf"
  shows "freq_str_to_fl_at bits st buf =
           ebind (int_of bits (atoi_value (text_field 3 buf))) (\<lambda>i1.
           ebind (int_of bits (atoi_value (text_field 6 (drop 3 buf)))) (\<lambda>i2.
           Inr (freq_fl i1 i2)))"
  using assms by (simp add: freq_str_to_fl_at_def memset_c_all copy_field atoi_field_at)

text \<open>Three digits fit every \<^verbatim>\<open>int\<close>.\<close>

lemma three_digits_fit:
  assumes "n < 1000" and "16 \<le> bits"
  shows "int n \<le> INT_MAX bits"
proof -
  from assms(1) have "int n \<le> INT_MAX 16"
    by simp
  also from assms(2) have "\<dots> \<le> INT_MAX bits"
    by (rule INT_MAX_mono)
  finally show ?thesis .
qed

lemma freq_str_to_fl_at_digits:
  assumes "length ds = 9" and "\<forall>c \<in> set ds. isdigit_c c" and "16 \<le> bits"
  shows "freq_str_to_fl_at bits st (ds @ r) =
           (if int (dec_value (drop 3 ds)) \<le> INT_MAX bits
            then Inr (freq_fl (int (dec_value (take 3 ds))) (int (dec_value (drop 3 ds))))
            else Inl Int_Overflow)"
  using assms(1) nine_digits(1,2) [OF assms(1,2), of r]
    three_digits_fit [OF nine_digits(3) [OF assms(1,2)] assms(3)]
  by (simp add: freq_str_to_fl_at_unfold)

text \<open>With 21 bits the hertz fit as well.\<close>

lemma freq_str_to_fl_at_wide:
  assumes "length ds = 9" and "\<forall>c \<in> set ds. isdigit_c c" and "21 \<le> bits"
  shows "freq_str_to_fl_at bits st (ds @ r) =
           Inr (freq_fl (int (dec_value (take 3 ds))) (int (dec_value (drop 3 ds))))"
proof -
  from nine_digits(4) [OF assms(1,2)] have "int (dec_value (drop 3 ds)) \<le> INT_MAX 21"
    by simp
  also from assms(3) have "\<dots> \<le> INT_MAX bits"
    by (rule INT_MAX_mono)
  finally show ?thesis
    using assms by (simp add: freq_str_to_fl_at_digits)
qed

section \<open>The level of power\<close>

lemma get_power_level_at_int_bits:
  "get_power_level_at int_bits tr st w = wisol_sigfox__get_power_level tr st w"
  by (simp add: get_power_level_at_def wisol_sigfox__get_power_level_def)

lemma get_power_level_at_unfold:
  assumes "tr (dev w) ''ATS302?'' (replicate 32 NUL) 100 = (resp, d)"
  shows "get_power_level_at bits tr st w =
           ebind (atoi_c bits (deliver (replicate 32 NUL) 32 resp))
             (\<lambda>v. Inr (word_of_int v, record_call w d ''ATS302?'' 32 100))"
proof -
  have "format_c ''ATS%u?'' [Arg_int 302] = Inr ''ATS302?''"
    by simp
  from formatted_call [where tr = tr and w = w and n = 32 and buf = "local_buf st 0 32"
      and sz = 32 and rb = "replicate 32 NUL" and t = 100 and resp = resp and d = d
      and f = "\<lambda>buf (buf_res, w). ebind (atoi_c bits buf_res) (\<lambda>v. Inr (word_of_int v, w))",
      OF this] assms
  show ?thesis
    by (simp add: get_power_level_at_def DEFAULT_BUF_SZ_def
        WISOL_SIGFOX_DEFAULT_TIMEOUT_def memset_c_all)
qed

text \<open>
  A response that starts with a number: the level is defined when the number
  is an \<^verbatim>\<open>int\<close>, and is then the number modulo 256.
\<close>

lemma get_power_level_at_digits:
  assumes tr: "tr (dev w) ''ATS302?'' (replicate 32 NUL) 100 = (ds @ x, d)"
    and ds: "ds \<noteq> []" "\<forall>c \<in> set ds. isdigit_c c" "length ds < 32"
    and x: "x = [] \<or> \<not> isdigit_c (hd x)"
  shows "get_power_level_at bits tr st w =
           (if int (dec_value ds) \<le> INT_MAX bits
            then Inr (of_nat (dec_value ds), record_call w d ''ATS302?'' 32 100)
            else Inl Int_Overflow)"
proof -
  from deliver_number [OF ds(3) x] obtain c r where
    c: "\<not> isdigit_c c" "deliver (replicate 32 NUL) 32 (ds @ x) = ds @ c # r"
    by blast
  from atoi_c_digits [OF ds(2,1) c(1), of bits r] show ?thesis
    by (simp add: get_power_level_at_unfold [where tr = tr and w = w, OF tr] c(2) INT_MAX_def)
qed

lemma get_power_level_at_portable:
  assumes "tr (dev w) ''ATS302?'' (replicate 32 NUL) 100 = (ds @ x, d)"
    and "ds \<noteq> []" "\<forall>c \<in> set ds. isdigit_c c" "length ds < 32"
    and "x = [] \<or> \<not> isdigit_c (hd x)"
    and "dec_value ds \<le> 32767" and "16 \<le> bits"
  shows "get_power_level_at bits tr st w = wisol_sigfox__get_power_level tr st w"
proof -
  from assms(6) have "int (dec_value ds) \<le> INT_MAX 16"
    by simp
  also from assms(7) have "\<dots> \<le> INT_MAX bits"
    by (rule INT_MAX_mono)
  finally have "int (dec_value ds) \<le> INT_MAX bits" .
  moreover from assms(6) have "int (dec_value ds) \<le> INT_MAX int_bits"
    by (simp add: int_bits_def)
  ultimately show ?thesis
    using get_power_level_at_digits [where tr = tr and w = w and bits = bits and st = st,
        OF assms(1-5)]
      get_power_level_at_digits [where tr = tr and w = w and bits = int_bits and st = st,
        OF assms(1-5)]
    by (simp add: get_power_level_at_int_bits)
qed

section \<open>Properties\<close>

text \<open>
  C20: On a platform whose \<^verbatim>\<open>int\<close> has \<open>bits\<close> bits, 16 at least, the conversion of
  a response of 9 digits is defined exactly when the number of its last 6
  digits is at most \<open>INT_MAX\<close>; it is then the sum the code computes from the
  two numbers, the same at every width. Otherwise \<^verbatim>\<open>atoi\<close> is called with a
  number that is no \<^verbatim>\<open>int\<close>. With 32 bits this is the conversion of the model.
\<close>

theorem freq_str_to_fl_int_width:
  assumes "length ds = 9" and "\<forall>c \<in> set ds. isdigit_c c" and "16 \<le> bits"
  shows "freq_str_to_fl_at bits st (ds @ r) =
           (if int (dec_value (drop 3 ds)) \<le> INT_MAX bits
            then wisol_sigfox__freq_str_to_fl st (ds @ r)
            else Inl Int_Overflow)"
proof -
  have "wisol_sigfox__freq_str_to_fl st (ds @ r) =
      Inr (freq_fl (int (dec_value (take 3 ds))) (int (dec_value (drop 3 ds))))"
    using freq_str_to_fl_at_wide [OF assms(1,2), of int_bits st r]
    by (simp add: freq_str_to_fl_at_int_bits) (simp add: int_bits_def)
  with freq_str_to_fl_at_digits [OF assms] show ?thesis
    by simp
qed

theorem freq_str_to_fl_int_width_witness:
  "freq_str_to_fl_at 16 (\<lambda>i. CHR ''x'') (''868130000'' @ lit ''OK'') = Inl Int_Overflow
   \<and> freq_str_to_fl_at 16 (\<lambda>i. CHR ''x'') (''868032767'' @ lit ''OK'') =
       wisol_sigfox__freq_str_to_fl (\<lambda>i. CHR ''x'') (''868032767'' @ lit ''OK'')"
  using freq_str_to_fl_int_width [of "''868130000''" 16 "\<lambda>i. CHR ''x''" "lit ''OK''"]
    freq_str_to_fl_int_width [of "''868032767''" 16 "\<lambda>i. CHR ''x''" "lit ''OK''"]
  by (simp add: isdigit_c_def dec_value_def digit_val_def)

end
