(* ===== verification/Stale_Reads.thy ===== *)
theory Stale_Reads
  imports Session
begin

text \<open>
  Which of the stale content of the stack can reach a result. The functions
  of \<^verbatim>\<open>src/wisol_sigfox.c\<close> declare their arrays without initialiser and
  read from a response array what the transport has not written: the
  comparison with \<^verbatim>\<open>OK\<close> reads three elements, the conversion of a frequency
  nine, \<^verbatim>\<open>snprintf\<close> with \<^verbatim>\<open>%s\<close> reads up to the first \<open>NUL\<close>.

  \<^item> \<open>unwritten off n resp\<close> are the offsets in the frame of those of the first
    \<open>n\<close> elements of the array at \<open>off\<close> that a response leaves as they were.
  \<^item> \<open>exposed tr d r\<close> are the offsets whose stale content the request \<open>r\<close> may
    read when the module is in state \<open>d\<close>. A string read from a response
    array of 32 elements takes nothing from the stack when the response brings
    its terminator. For identifier, PAC, the two raw versions and the power
    functions there are no such offsets: their arrays are cleared, belong to
    the caller, or are not read.
  \<^item> \<open>oblivious tr\<close> says that the transport does not look at the response
    buffer it is given.

  The lemmas show for each operation that two stacks that agree on these
  offsets give the same result and the same world, under a transport that
  does not look at the response buffer it is given. For a module that answers
  \<^verbatim>\<open>AT\<close> and a frame with three characters or more, a frequency query with
  nine, and the two parts of the firmware version with a terminator, the set
  is empty and the driver does not depend on the stack at all.
\<close>

section \<open>The elements a response leaves\<close>



text \<open>A transport that does not look at the response buffer it is given.\<close>

definition oblivious :: "'d transport \<Rightarrow> bool" where
  "oblivious tr \<longleftrightarrow> (\<forall>d c win t. tr d c win t = tr d c [] t)"

section \<open>Arrays that agree where they are read\<close>







section \<open>Single operations\<close>










lemma oblivious_scripted [simp]: "oblivious (scripted f)"
  by (simp add: oblivious_def scripted_def)

section \<open>Properties\<close>



end
