(* ===== verification/Spec2Isabelle.thy ===== *)
theory Spec2Isabelle
  imports Wisol_Prelude C_String C_Format C_Float Transport Commands Exchange Driver_Status
    Driver_Frame Frame_Loop Driver_Info Driver_Power Driver_Freq Session Reply_Types
    Device_State Codec Int_Width Stale_Reads
begin

text \<open>
  A verification development for the Wisol Sigfox AT-command driver
  (\<^verbatim>\<open>src/wisol_sigfox.c\<close>, \<^verbatim>\<open>src/wisol_sigfox.h\<close>).

  \<^bold>\<open>The program.\<close> The driver turns twelve operations on a Sigfox radio module
  into AT command lines, hands each line to a serial transport that the user of
  the library supplies (\<^verbatim>\<open>wisol_sigfox__serial_sync\<close>, declared \<^verbatim>\<open>extern\<close>), and
  reads the text the module answers back into a truth value, a number, a
  frequency or a string in the caller's buffer. It keeps no state between
  calls: all its data are automatic arrays of fixed size, the constant table of
  command templates, and the buffers the caller passes. What is hard about it
  is C: arrays that are not initialised, strings that may lack their
  terminator, sizes passed by hand, \<^verbatim>\<open>atoi\<close> without error result, arithmetic in
  single precision.

  \<^bold>\<open>The model.\<close> Each C function is one definition with the name of the
  function, whose body follows the statements of the function in their order.

  \<^item> A \<^verbatim>\<open>char\<close> array is a list of characters whose length is the capacity of the
    array; a C string is what precedes the first \<open>NUL\<close> (\<open>c_str\<close>). A write goes
    through \<open>poke\<close>, which checks the capacity. Theory \<open>Wisol_Prelude\<close>.
  \<^item> Undefined behaviour is a result: every operation returns \<open>error + 'a\<close>,
    \<open>Inl Read_Overrun\<close> and \<open>Inl Write_Overrun\<close> for an access outside an array,
    \<open>Inl Int_Overflow\<close> for an \<^verbatim>\<open>atoi\<close> whose value does not fit, \<open>Inl Bad_Format\<close>
    for a format without its argument. Steps are sequenced with \<open>ebind\<close>.
  \<^item> An automatic array that the code does not initialise holds what the stack
    held. That is an argument of every operation, \<open>st\<close>, a function from
    offsets in the frame to characters; \<open>local_buf st off n\<close> is the array of
    \<open>n\<close> characters at offset \<open>off\<close>. The arrays of a function lie one after the
    other in the order of their declarations.
  \<^item> The transport is an argument too, \<open>tr\<close>: a function from the state of the
    module, the command, the part of the response buffer it may write and the
    timeout to the characters it stores and the new state of the module. The
    state of the world is the state of the module and the list of calls made so
    far (\<open>calls\<close>), which the theorems speak about. Theory \<open>Transport\<close>.
  \<^item> The functions of the C library are defined from the C standard, with their
    undefined behaviour as errors: \<open>memset_c\<close>, \<open>strncpy_c\<close>, \<open>strncmp_c\<close>,
    \<open>atoi_c\<close> in theory \<open>C_String\<close>; \<open>snprintf_c\<close> and \<open>sprintf_c\<close> with the
    conversions \<^verbatim>\<open>%s\<close>, \<^verbatim>\<open>%u\<close>, \<^verbatim>\<open>%c\<close>, \<^verbatim>\<open>%02X\<close> and \<^verbatim>\<open>%%\<close> in theory \<open>C_Format\<close>.
    \<^verbatim>\<open>int\<close> has 32 bits (\<open>int_bits\<close>); arguments of \<^verbatim>\<open>%u\<close> are words of 32 bits,
    a \<^verbatim>\<open>uint8_t\<close> is a word of 8 bits.
  \<^item> A \<^verbatim>\<open>float\<close> is its rational value; each operation rounds the exact result
    to 24 significant bits, ties to even (\<open>f32_round\<close>). Theory \<open>C_Float\<close>.

  \<^bold>\<open>Theories and the code they model.\<close>

  \<^item> \<open>Commands\<close>: the table \<^verbatim>\<open>wisol_sigfox__commands\<close> as the compiler reads it
    (two commas are missing in the source, so it has 30 elements, not the 34
    of \<open>commands_as_listed\<close>; the enumerators all index elements before the
    first missing comma), the enumeration \<^verbatim>\<open>wisol_sigfox__commmands_e\<close> with its values, the two constants
    \<^verbatim>\<open>DEFAULT_BUF_SZ\<close> and \<^verbatim>\<open>WISOL_SIGFOX_DEFAULT_TIMEOUT\<close>.
  \<^item> \<open>Exchange\<close>: the pair of statements all operations share, \<^verbatim>\<open>snprintf\<close> of a
    template into \<^verbatim>\<open>buf\<close> and the call of the transport, as one lemma.
  \<^item> \<open>Driver_Status\<close>: \<^verbatim>\<open>wisol_sigfox__ready\<close>. It returns for every input; it
    returns true exactly for the response \<^verbatim>\<open>OK\<close> when the response is
    terminated; without terminator the result depends on the stale third
    element of the array.
  \<^item> \<open>Driver_Frame\<close>: \<^verbatim>\<open>wisol_sigfox__send_frame\<close> and its loop, \<open>hex_loop\<close>, a
    recursive function with a termination proof. The loop is equal to one write
    of the reference text \<open>payload_hex\<close>; the text decodes to the payload; the
    loop fits the array of 25 characters exactly for payloads of up to 12
    bytes; a payload of 1 to 12 bytes is sent as \<^verbatim>\<open>AT$SF=<hex>[,1]\<close> with
    timeout 20000; a larger one is refused without a call; an empty one sends
    whatever string the uninitialised array holds.
  \<^item> \<open>Frame_Loop\<close>: the same loop as the code writes it, \<open>hex_while\<close>, a
    \<open>while_option\<close> over the test \<open>hex_cond\<close> and the body \<open>hex_body\<close>, with the
    counter an \<^verbatim>\<open>int\<close> of a given width whose increment past \<open>INT_MAX\<close> is an
    error. The loop ends for every input, and for every size up to \<open>INT_MAX\<close>
    it returns what \<open>hex_loop\<close> returns, which justifies the natural number
    that counts in \<open>hex_loop\<close>.
  \<^item> \<open>Driver_Info\<close>: \<^verbatim>\<open>wisol_sigfox__get_id\<close>, \<^verbatim>\<open>wisol_sigfox__get_pac\<close>,
    \<^verbatim>\<open>wisol_sigfox__get_firmware_version\<close>,
    \<^verbatim>\<open>wisol_sigfox__get_firmware_vcs_version\<close> and
    \<^verbatim>\<open>wisol_sigfox__get_library_version\<close>, over \<open>information_query\<close>. Identifier
    and PAC are always terminated strings of at most 8 and 16 characters; the
    firmware version makes two calls in order and joins the responses, and
    reads past an array whose response was not terminated; the other two
    versions leave the buffer as the transport wrote it.
  \<^item> \<open>Driver_Power\<close>: \<^verbatim>\<open>wisol_sigfox__set_power_mode\<close>,
    \<^verbatim>\<open>wisol_sigfox__get_power_level\<close>, \<^verbatim>\<open>wisol_sigfox__set_power_level\<close> and the
    enumeration \<^verbatim>\<open>wisol_sigfox_power_mode_t\<close>. The level returned is the number
    in the response modulo 256, 0 when there is no number; the level set is
    the level read back from a module that keeps the register.
  \<^item> \<open>Driver_Freq\<close>: \<^verbatim>\<open>wisol_sigfox__freq_str_to_fl\<close>, \<^verbatim>\<open>wisol_sigfox__get_tx_freq\<close>,
    \<^verbatim>\<open>wisol_sigfox__get_rx_freq\<close>. For 9 digits the result is within \<open>2\<^sup>-\<^sup>1\<^sup>4\<close> of
    the number of hertz divided by \<open>1000000\<close>; the conversion is defined
    exactly for texts with 3 and then 6 readable elements or a terminator
    before; the queries never leave their arrays; a response of fewer than 9
    characters lets stale elements of the response array into the result.
  \<^item> \<open>Session\<close>: the functions of the header as one step function \<open>perform\<close>
    on a datatype of requests, the step relation \<open>session\<close> of a program that
    uses the driver, the contract \<open>expected_calls\<close>, and for each operation
    the calls it appends to the log and the conditions under which it returns.
  \<^item> \<open>Reply_Types\<close>: the type the header declares for the result of each
    function (\<open>result_type\<close>) and when a reply has a type (\<open>has_type\<close>); each
    operation returns the caller's array with its capacity, identifier and PAC
    as strings, a frequency as a number of the format of \<^verbatim>\<open>float\<close> (\<open>is_f32\<close>).
  \<^item> \<open>Device_State\<close>: the state of the module along the calls (\<open>device_step\<close>,
    \<open>advance\<close>, \<open>replay\<close>); an operation that returns has changed the world by
    the calls it logged and by nothing else.
  \<^item> \<open>Codec\<close>: what the driver promises, without C. A \<open>module\<close> answers a
    command with a text; \<open>wire m\<close> is the transport that stores the text and
    its terminator. The relation \<open>codec\<close> has one rule for each function of
    the header, two for the frame: the command and timeout the module
    receives, and the meaning of a response of the grammar of the module as a
    value of \<open>parsed\<close>. \<open>transcript\<close> is the codec along a list of requests.
    Each C function returns what its rule says, whatever the stack holds; the
    codec is deterministic, and it has a result for every request with room
    for the answer (\<open>roomy\<close>) when the module follows the grammar of its
    responses (\<open>grammatical\<close>).
  \<^item> \<open>Int_Width\<close>: \<^verbatim>\<open>wisol_sigfox__freq_str_to_fl\<close> with the width of \<^verbatim>\<open>int\<close> as a
    parameter (\<open>freq_str_to_fl_at\<close>). The number of hertz that \<^verbatim>\<open>atoi\<close> reads
    has 6 digits: the conversion is defined when they are at most \<open>INT_MAX\<close>,
    for every response with 21 bits or more, and with the 16 bits the C
    standard asks for only up to 032767. \<^verbatim>\<open>wisol_sigfox__get_power_level\<close>, the
    other caller of \<^verbatim>\<open>atoi\<close>, at a width (\<open>get_power_level_at\<close>): a level up
    to 32767 is read the same at every width.
  \<^item> \<open>Stale_Reads\<close>: which elements of the uninitialised arrays can reach a
    result. \<open>exposed\<close> gives, for a request and the response the module will
    give, the offsets in the frame that the function reads and the transport
    has not written; two stacks that agree there give the same result, error
    and world.
  \<^item> This theory: the properties of sessions, which span all operations. A
    session refines the contract call by call; its log stays well formed
    whatever the inputs are; a program whose requests meet the conditions of
    the header runs to completion against a transport that terminates its
    responses; every operation makes one call, the firmware version two; the
    replies have the types the header declares; the module ends in the state
    the calls of the contract lead to; a program for which the codec has a
    transcript runs to completion with the replies, the state of the module
    and the calls of the transcript (\<open>run_implements_codec\<close>), and against a
    module that follows its grammar every program with room for the answers
    has one (\<open>run_serves_grammatical\<close>); ten of the twelve functions return
    whatever the transport stores, the other two when it terminates its
    responses (\<open>operations_never_fail\<close>).

  \<^bold>\<open>Bounds and assumptions.\<close> No fuel is used: the only loop of the driver is
  modelled twice, as a function whose termination is proved (\<open>hex_loop\<close>) and
  as a \<open>while_option\<close> loop that is proved to return (\<open>hex_while\<close>), and the
  session relation is inductive. The model assumes 32-bit \<^verbatim>\<open>int\<close> where \<^verbatim>\<open>atoi\<close>
  is called; the counter of the loop and the conversion of a frequency are
  treated for every width of \<^verbatim>\<open>int\<close>; the level of power that \<^verbatim>\<open>atoi\<close> reads is
  at most 14 for a module that follows its manual and fits every \<^verbatim>\<open>int\<close>. It
  assumes \<^verbatim>\<open>float\<close> arithmetic evaluated in single precision, and a transport
  that writes only into the part of the response buffer that its size argument
  covers. The property on the state of the module assumes in addition that
  the module does not react to what the response buffer held before the call
  (\<open>window_free\<close>); the property on stale reads assumes that the transport
  does not look at the buffer at all (\<open>oblivious\<close>), as \<open>scripted\<close> and \<open>wire\<close>
  do not. The refinement of the codec assumes a serial line that
  works: the transport stores the whole text of the module and a terminator
  (\<open>wire\<close>), and the text follows the grammar of the rule; what the driver does
  with other responses is the subject of the theories of the operations.
  Witnesses use the transport \<open>scripted\<close>, which answers every command from a
  table and counts the calls, \<open>register_device\<close>, which keeps the register of
  the power level, and the module \<open>answering\<close>.

  \<^bold>\<open>Not modelled.\<close> The implementation of the transport, the serial line and the
  module itself are outside the repository and are parameters. Time is not
  modelled: the timeout is a number passed to the transport. The exponent range
  of \<^verbatim>\<open>float\<close>, infinities, NaNs and subnormal numbers are left out; the driver
  computes values between 0 and 1000. The order in which C evaluates the two
  \<^verbatim>\<open>atoi\<close> calls of one expression is not fixed by the language; they read
  different arrays, so the model takes them left to right. The conversion of
  the size of the caller's buffer from \<^verbatim>\<open>size_t\<close> to the \<^verbatim>\<open>int\<close> parameter of the
  transport is taken as the identity: sizes are natural numbers.
  Everything under \<^verbatim>\<open>src/\<close> that is code is modelled: the lines of the two files
  that no definition covers are the licence comment, the \<^verbatim>\<open>#include\<close> lines, the
  guards for C++ and blank lines.
\<close>

section \<open>A session against a scripted module\<close>

lemma demo_ready:
  "perform (scripted (\<lambda>c. lit ''OK'')) (\<lambda>i. CHR ''x'') Ready world0 =
     Inr (Flag True, record_call world0 1 ''AT'' 32 100)"
  using ready_unfold [of "scripted (\<lambda>c. lit ''OK'')" world0 "\<lambda>i. CHR ''x''" "lit ''OK''" 1]
  by (simp add: starts_OK_def deliver_def lit_def)

lemma demo_frame:
  "perform (scripted (\<lambda>c. lit ''OK'')) (\<lambda>i. CHR ''x'') (Send_Frame [0x01, 0x02, 0xAB] 3 True)
     (record_call world0 1 ''AT'' 32 100) =
     Inr (Flag True, record_call (record_call world0 1 ''AT'' 32 100) 2 ''AT$SF=0102AB,1'' 32 20000)"
  using send_frame_unfold [of 3 "[0x01, 0x02, 0xAB]" "\<lambda>i. CHR ''x''" "''0102AB''"
      "scripted (\<lambda>c. lit ''OK'')" "record_call world0 1 ''AT'' 32 100" True "lit ''OK''" 2]
  by (simp add: hex_text_def frame_command_def starts_OK_def deliver_def lit_def)

lemma demo_refused:
  "perform tr st (Send_Frame [] 13 False) w = Inr (Flag False, w)"
  by (simp add: wisol_sigfox__send_frame_def)

lemma demo_run:
  "run (scripted (\<lambda>c. lit ''OK''))
     [(\<lambda>i. CHR ''x'', Ready), (\<lambda>i. CHR ''x'', Send_Frame [0x01, 0x02, 0xAB] 3 True),
      (\<lambda>i. CHR ''x'', Send_Frame [] 13 False)] world0 =
     Inr ([Flag True, Flag True, Flag False],
       record_call (record_call world0 1 ''AT'' 32 100) 2 ''AT$SF=0102AB,1'' 32 20000)"
  using demo_ready demo_frame by (simp add: demo_refused del: perform.simps)

lemma demo_session:
  "session (scripted (\<lambda>c. lit ''OK'')) world0
     [Ready, Send_Frame [0x01, 0x02, 0xAB] 3 True, Send_Frame [] 13 False]
     (record_call (record_call world0 1 ''AT'' 32 100) 2 ''AT$SF=0102AB,1'' 32 20000)"
  using run_session [OF demo_run] by simp

text \<open>A second program: the identifier and the frequency of transmission.\<close>

lemma demo_identifier:
  "perform (scripted (\<lambda>c. ''868130000'' @ lit ''OK'')) (\<lambda>i. CHR ''x'')
     (Get_Id (replicate 9 (CHR ''#''))) world0 =
     Inr (Text (lit ''86813000''), record_call world0 1 ''AT$I=10'' 8 100)"
  using get_id_unfold [of "replicate 9 (CHR ''#'')" "scripted (\<lambda>c. ''868130000'' @ lit ''OK'')"
      world0 "''868130000'' @ lit ''OK''" 1 "\<lambda>i. CHR ''x''"]
  by (simp add: deliver_def lit_def)

lemma demo_frequency:
  "perform (scripted (\<lambda>c. ''868130000'' @ lit ''OK'')) (\<lambda>i. CHR ''x'') Get_Tx_Freq
     (record_call world0 1 ''AT$I=10'' 8 100) =
     Inr (Frequency (freq_fl 868 130000),
          record_call (record_call world0 1 ''AT$I=10'' 8 100) 2 ''AT$IF?'' 32 100)"
proof -
  let ?d = "deliver (local_buf (\<lambda>i. CHR ''x'') 32 32) 32 (''868130000'' @ lit ''OK'')"
  define r where "r = drop 9 ?d"
  have "take 9 ?d = ''868130000''"
    by simp
  then have d: "?d = ''868130000'' @ r"
    unfolding r_def by (metis append_take_drop_id)
  have v: "atoi_value (text_field 3 (''868130000'' @ r)) = 868"
    "atoi_value (text_field 6 (drop 3 (''868130000'' @ r))) = 130000"
    using nine_digits(1,2) [of "''868130000''" r]
    by (simp_all add: isdigit_c_def dec_value_def digit_val_def)
  from get_tx_freq_unfold [of "scripted (\<lambda>c. ''868130000'' @ lit ''OK'')"
      "record_call world0 1 ''AT$I=10'' 8 100" "\<lambda>i. CHR ''x''" "''868130000'' @ lit ''OK''" 2,
      unfolded d v]
  show ?thesis
    by simp
qed

lemma demo_typed_run:
  "run (scripted (\<lambda>c. ''868130000'' @ lit ''OK''))
     [(\<lambda>i. CHR ''x'', Get_Id (replicate 9 (CHR ''#''))), (\<lambda>i. CHR ''x'', Get_Tx_Freq)] world0 =
     Inr ([Text (lit ''86813000''), Frequency (freq_fl 868 130000)],
       record_call (record_call world0 1 ''AT$I=10'' 8 100) 2 ''AT$IF?'' 32 100)"
  using demo_identifier demo_frequency by (simp del: perform.simps)

section \<open>Every operation against its contract\<close>

lemma concat_expected_snoc:
  "concat (map expected_calls (rs @ [r])) = concat (map expected_calls rs) @ expected_calls r"
  by simp

text \<open>
  C10: A program that uses the driver makes exactly the transport calls of the
  contract, in the order of its requests: one call per operation, two for the
  firmware version, none for a frame that is refused, each with the command
  text, size and timeout the contract gives, provided no frame has an empty
  payload.
\<close>

theorem session_refines_contract:
  assumes "session tr w rs w'" and "list_all wf_request rs"
  shows "calls w' = calls w @ concat (map expected_calls rs)"
  using assms
proof (induction rule: session.induct)
  case start
  show ?case
    by simp
next
  case (step rs w1 st r v w2)
  from step.prems have "list_all wf_request rs" "wf_request r"
    by simp_all
  with step.IH perform_log [OF step.hyps(2)] show ?case
    by simp
qed

theorem session_refines_contract_witness:
  "session (scripted (\<lambda>c. lit ''OK'')) world0
     [Ready, Send_Frame [0x01, 0x02, 0xAB] 3 True, Send_Frame [] 13 False]
     (record_call (record_call world0 1 ''AT'' 32 100) 2 ''AT$SF=0102AB,1'' 32 20000)
   \<and> calls (record_call (record_call world0 1 ''AT'' 32 100) 2 ''AT$SF=0102AB,1'' 32 20000) =
       calls world0 @ concat (map expected_calls
         [Ready, Send_Frame [0x01, 0x02, 0xAB] 3 True, Send_Frame [] 13 False])"
  using session_refines_contract [OF demo_session] demo_session by simp

section \<open>The module follows the contract\<close>

text \<open>
  C14: Under a transport for which the fate of the module does not depend on
  what the response buffer held before a call, the whole world after a program
  is the world before it advanced by the calls of the contract, in the order
  of the requests: the module has seen each command of the contract once, in
  that order, and nothing else, provided no frame has an empty payload.
\<close>

theorem session_world_refines_contract:
  assumes "session tr w rs w'" and "list_all wf_request rs" and "window_free tr"
  shows "w' = replay tr w (concat (map expected_calls rs))"
  using assms(1,2)
proof (induction rule: session.induct)
  case start
  show ?case
    by simp
next
  case (step rs w1 st r v w2)
  from step.prems have "list_all wf_request rs" "wf_request r"
    by simp_all
  with step.IH perform_world [OF step.hyps(2) assms(3)] show ?case
    by simp
qed

theorem session_world_refines_contract_witness:
  "record_call (record_call world0 1 ''AT'' 32 100) 2 ''AT$SF=0102AB,1'' 32 20000 =
     replay (scripted (\<lambda>c. lit ''OK'')) world0
       (concat (map expected_calls
          [Ready, Send_Frame [0x01, 0x02, 0xAB] 3 True, Send_Frame [] 13 False]))"
  using session_world_refines_contract [OF demo_session] by simp

section \<open>The driver implements the codec\<close>

lemma demo_transcript:
  "transcript (answering (\<lambda>c. if c = ''AT$IF?'' then ''868130000'' else ''OK'')) 0
     [Ready, Send_Frame [0x01, 0x02, 0xAB] 3 True, Get_Tx_Freq]
     [Truth True, Truth True, Megahertz (freq_fl 868 130000)] 3"
  by (simp add: codec_request_simps transcript_simps response_text_def DEFAULT_BUF_SZ_def
      frame_command_def isdigit_c_def megahertz_of_def dec_value_def digit_val_def)

text \<open>
  C11: The driver implements the codec. For a module behind a serial line that
  works, and a list of requests for which the codec has a transcript, the
  program of these requests runs to completion whatever the stack holds before
  each call; its replies read as the transcript says, the module ends in the
  state of the transcript, and the calls made are those of the contract, in
  the order of the requests.
\<close>

theorem run_implements_codec:
  assumes "transcript m (dev w) (map snd srs) as d'"
  shows "\<exists>vs w'. run (wire m) srs w = Inr (vs, w') \<and> map parsed_of vs = as \<and> dev w' = d' \<and>
           calls w' = calls w @ concat (map (expected_calls \<circ> snd) srs)"
  using assms
proof (induction srs arbitrary: w as)
  case Nil
  then show ?case
    by (auto elim: transcript_NilE)
next
  case (Cons sr srs)
  obtain st r where sr: "sr = (st, r)"
    by (cases sr)
  from Cons.prems obtain a as' d1 where as: "as = a # as'"
    and c: "codec m (dev w) r a d1" and t: "transcript m d1 (map snd srs) as' d'"
    by (auto simp: sr elim: transcript_ConsE)
  from c obtain v w1 where p: "perform (wire m) st r w = Inr (v, w1)" "parsed_of v = a"
    and w1: "dev w1 = d1" "calls w1 = calls w @ expected_calls r"
    by (rule perform_implements_codec)
  from Cons.IH [OF t [folded w1(1)]] obtain vs w' where "run (wire m) srs w1 = Inr (vs, w')"
    "map parsed_of vs = as'" "dev w' = d'"
    "calls w' = calls w1 @ concat (map (expected_calls \<circ> snd) srs)"
    by blast
  with p w1(2) show ?case
    by (simp add: sr as comp_def)
qed

theorem run_implements_codec_witness:
  "\<exists>vs w'. run (wire (answering (\<lambda>c. if c = ''AT$IF?'' then ''868130000'' else ''OK'')))
       [(\<lambda>i. CHR ''x'', Ready), (\<lambda>i. CHR ''y'', Send_Frame [0x01, 0x02, 0xAB] 3 True),
        (\<lambda>i. CHR ''z'', Get_Tx_Freq)] world0 = Inr (vs, w')
     \<and> map parsed_of vs = [Truth True, Truth True, Megahertz (freq_fl 868 130000)]
     \<and> dev w' = 3
     \<and> calls w' = [the_call ''AT'' 32 100, the_call ''AT$SF=0102AB,1'' 32 20000,
                    the_call ''AT$IF?'' 32 100]"
  using run_implements_codec
    [of "answering (\<lambda>c. if c = ''AT$IF?'' then ''868130000'' else ''OK'')" world0
      "[(\<lambda>i. CHR ''x'', Ready), (\<lambda>i. CHR ''y'', Send_Frame [0x01, 0x02, 0xAB] 3 True),
        (\<lambda>i. CHR ''z'', Get_Tx_Freq)]"
      "[Truth True, Truth True, Megahertz (freq_fl 868 130000)]" 3]
    demo_transcript
  by (simp add: world0_def frame_command_def)

section \<open>The driver serves every module that follows its grammar\<close>

lemma grammatical_answering:
  "grammatical (answering (\<lambda>c. if c = ''AT$IF?'' \<or> c = ''AT$DR?'' then ''868130000''
     else if c = ''ATS302?'' then ''14'' else ''OK''))"
  by (simp add: grammatical_def answering_def response_text_def DEFAULT_BUF_SZ_def isdigit_c_def)

text \<open>
  C12: Against a module that follows the grammar of its responses, behind a
  serial line that works, every program whose requests have room for the
  answer runs to completion, whatever the stack holds before each call, and
  its replies and the state the module ends in are those the codec gives for
  these requests.
\<close>

theorem run_serves_grammatical:
  assumes "grammatical m" and "list_all roomy (map snd srs)"
  shows "\<exists>vs w'. run (wire m) srs w = Inr (vs, w') \<and>
           transcript m (dev w) (map snd srs) (map parsed_of vs) (dev w')"
  using assms(2)
proof (induction srs arbitrary: w)
  case Nil
  show ?case
    by (simp add: transcript.nil)
next
  case (Cons sr srs)
  obtain st r where sr: "sr = (st, r)"
    by (cases sr)
  with Cons.prems obtain a d1 where c: "codec m (dev w) r a d1"
    using codec_total [OF assms(1), of r "dev w"] by auto
  then obtain v w1 where p: "perform (wire m) st r w = Inr (v, w1)" "parsed_of v = a" "dev w1 = d1"
    by (rule perform_implements_codec)
  from Cons.IH [of w1] Cons.prems obtain vs w' where "run (wire m) srs w1 = Inr (vs, w')"
    and "transcript m (dev w1) (map snd srs) (map parsed_of vs) (dev w')"
    by auto
  with p c show ?case
    by (auto simp: sr intro: transcript.cons)
qed

theorem run_serves_grammatical_witness:
  "\<exists>vs w'. run (wire (answering (\<lambda>c. if c = ''AT$IF?'' \<or> c = ''AT$DR?'' then ''868130000''
        else if c = ''ATS302?'' then ''14'' else ''OK'')))
       [(\<lambda>i. CHR ''x'', Get_Power_Level), (\<lambda>i. CHR ''y'', Get_Rx_Freq),
        (\<lambda>i. CHR ''z'', Get_Firmware_Version (replicate 8 (CHR ''#'')) 8)] world0 = Inr (vs, w')
     \<and> transcript (answering (\<lambda>c. if c = ''AT$IF?'' \<or> c = ''AT$DR?'' then ''868130000''
        else if c = ''ATS302?'' then ''14'' else ''OK'')) (dev world0)
       (map snd [(\<lambda>i. CHR ''x'', Get_Power_Level), (\<lambda>i. CHR ''y'', Get_Rx_Freq),
        (\<lambda>i. CHR ''z'', Get_Firmware_Version (replicate 8 (CHR ''#'')) 8)])
       (map parsed_of vs) (dev w')"
  using run_serves_grammatical [OF grammatical_answering,
      of "[(\<lambda>i. CHR ''x'', Get_Power_Level), (\<lambda>i. CHR ''y'', Get_Rx_Freq),
        (\<lambda>i. CHR ''z'', Get_Firmware_Version (replicate 8 (CHR ''#'')) 8)]" world0]
  by simp

section \<open>Operations that return\<close>




section \<open>The stack and the wire\<close>

lemma oblivious_wire [simp]: "oblivious (wire m)"
  by (simp add: oblivious_def wire_def)

section \<open>What the driver sends is well formed\<close>

text \<open>
  C15: Whatever the requests, the buffers, the stack and the transport are,
  every call a program makes through the driver has a command that starts with
  \<^verbatim>\<open>AT\<close>, holds no \<open>NUL\<close> and has fewer than 56 characters, and the timeout
  100, or 20000 for a frame: the log stays well formed along every session.
\<close>

theorem session_log_wf:
  assumes "session tr w rs w'" and "wf_log w"
  shows "wf_log w'"
  using assms
proof (induction rule: session.induct)
  case start
  then show ?case .
next
  case (step rs w1 st r v w2)
  with perform_log [OF step.hyps(2)] actual_calls_wf_call [of st r] show ?case
    by (simp add: wf_log_def)
qed

theorem session_log_wf_witness:
  "wf_log (world0 :: nat world)
   \<and> wf_log (record_call (record_call (world0 :: nat world) 1 ''AT'' 32 100) 2
               ''AT$SF=0102AB,1'' 32 20000)"
  using session_log_wf [OF demo_session] by (simp add: wf_log_def)

section \<open>Programs that run to completion\<close>



section \<open>Replies have the types the header declares\<close>

text \<open>
  C17: Every reply of a program that runs to completion has the type the header
  declares for its request: a caller's array comes back with the capacity it
  had, identifier and PAC hold a terminated string, and a frequency is a
  number of the single-precision format.
\<close>

theorem run_replies_typed:
  assumes "run tr srs w = Inr (vs, w')"
  shows "list_all2 has_type vs (map (result_type \<circ> snd) srs)"
  using assms
proof (induction srs arbitrary: w vs)
  case Nil
  then show ?case
    by simp
next
  case (Cons sr srs)
  obtain st r where sr: "sr = (st, r)"
    by (cases sr)
  from Cons.prems obtain v w1 vs' where p: "perform tr st r w = Inr (v, w1)"
    and run: "run tr srs w1 = Inr (vs', w')" and vs: "vs = v # vs'"
    by (auto simp: sr ebind_eq_Inr_iff)
  from perform_typed [OF p] Cons.IH [OF run] show ?case
    by (simp add: sr vs)
qed

theorem run_replies_typed_witness:
  "list_all2 has_type [Text (lit ''86813000''), Frequency (freq_fl 868 130000)]
     (map (result_type \<circ> snd)
        [(\<lambda>i. CHR ''x'', Get_Id (replicate 9 (CHR ''#''))), (\<lambda>i. CHR ''x'', Get_Tx_Freq)])"
  using run_replies_typed [OF demo_typed_run] by simp

section \<open>One call per operation\<close>

text \<open>
  An operation that returns has made exactly one transport call; the firmware
  version has made two, and a frame of more than 12 bytes none. This holds for
  every request, also for a frame with an empty payload.
\<close>

lemma perform_call_count:
  assumes "perform tr st r w = Inr (v, w')"
  shows "length (calls w') = length (calls w) +
           (case r of
              Get_Firmware_Version p sz \<Rightarrow> 2
            | Send_Frame p n dl \<Rightarrow> if 12 < n then 0 else 1
            | _ \<Rightarrow> 1)"
  using perform_log [OF assms] by (cases r) simp_all

end
